(* ===== verification/Prelude.thy ===== *)
theory Prelude
  imports Main "HOL-Library.Word" "HOL-Library.AList"
begin

text \<open>
  The shared base of the development: how a Go computation is represented, and the lemmas
  every component uses.

  \<^item> \<open>byte\<close>, \<open>uint16\<close> and their 8- and 16-bit wrap-around are words of HOL-Library.Word.
  \<^item> \<open>'a go\<close> is the outcome of a pure Go expression or of a call returning
    \<open>(T, error)\<close>: a value, an error value, or a run-time panic.
  \<^item> \<open>('s, 'a) act\<close> is a call that reads and writes state: \<open>None\<close> says that it
    never returns (an endless loop, a deadlock), \<open>Some (r, s)\<close> that it returns \<open>r\<close>
    in state \<open>s\<close>. State changes made before an error or a panic are kept.
  \<^item> A Go map is an association list with distinct keys, written with \<open>AList.update\<close>
    and read with \<open>map_of\<close>.
\<close>

unbundle bit_operations_syntax

type_synonym byte = "8 word"
type_synonym uint16 = "16 word"
type_synonym ('k, 'v) gomap = "('k \<times> 'v) list"

named_theorems act_simps \<open>equations that run an action\<close>
named_theorems act_intros \<open>rules that an action always returns\<close>

section \<open>Errors and panics\<close>

text \<open>
  One constructor per error value the sources build (\<open>errors.New\<close>, \<open>fmt.Errorf\<close>), with
  the values formatted into it, and one per kind of run-time panic. \<open>MemoryCorruption\<close>
  stands for an out-of-range write of the C half of the in-band driver.
\<close>

datatype go_error =
    UnexpectedErrorCode byte
  | ZeroLengthResponse
  | NoAddData
  | NoValuableSdr
  | AdditionalDataUnexpected
  | UnexpectedRecordType
  | InvalidFruInventoryAreaSize uint16
  | InvalidFruProductInfoSize uint16
  | InvalidCall int
  | SystemError int int string
  | WrongModeConfiguration
  | WrongNamespacePrefix "string list"

datatype panic =
    IndexOutOfRange
  | SliceOutOfRange
  | NilDereference
  | TypeAssertion
  | MemoryCorruption

datatype 'a go = Val 'a | Err go_error | Panic panic

primrec is_panic :: "'a go \<Rightarrow> bool" where
  "is_panic (Val x) = False"
| "is_panic (Err e) = False"
| "is_panic (Panic p) = True"

section \<open>Pure computations\<close>

primrec bind_go :: "'a go \<Rightarrow> ('a \<Rightarrow> 'b go) \<Rightarrow> 'b go" where
  "bind_go (Val x) f = f x"
| "bind_go (Err e) f = Err e"
| "bind_go (Panic p) f = Panic p"

lemma bind_go_eq_Val: "bind_go m f = Val y \<longleftrightarrow> (\<exists>x. m = Val x \<and> f x = Val y)"
  by (cases m) auto

lemma bind_go_cong [fundef_cong]:
  "m = m' \<Longrightarrow> (\<And>x. m' = Val x \<Longrightarrow> f x = f' x) \<Longrightarrow> bind_go m f = bind_go m' f'"
  by (cases m') auto

lemma bind_go_Val_right [simp]: "bind_go m Val = m"
  by (cases m) auto

lemma bind_go_panic_iff:
  "is_panic (bind_go m f) \<longleftrightarrow> is_panic m \<or> (\<exists>x. m = Val x \<and> is_panic (f x))"
  by (cases m) auto

text \<open>Indexing \<open>xs[i]\<close>, slicing \<open>xs[n:]\<close>, and storing \<open>xs[i] = v\<close>.\<close>

definition idx :: "'a list \<Rightarrow> nat \<Rightarrow> 'a go" where
  "idx xs i = (if i < length xs then Val (xs ! i) else Panic IndexOutOfRange)"

definition slice_from :: "'a list \<Rightarrow> nat \<Rightarrow> 'a list go" where
  "slice_from xs n = (if n \<le> length xs then Val (drop n xs) else Panic SliceOutOfRange)"

definition put_idx :: "'a list \<Rightarrow> nat \<Rightarrow> 'a \<Rightarrow> 'a list go" where
  "put_idx xs i v = (if i < length xs then Val (xs[i := v]) else Panic IndexOutOfRange)"

text \<open>\<open>copy(dst[lo:hi], src)\<close>, where \<open>dst\<close> was made with its capacity equal to its length.\<close>

definition copy_slice :: "'a list \<Rightarrow> nat \<Rightarrow> nat \<Rightarrow> 'a list \<Rightarrow> 'a list go" where
  "copy_slice dst lo hi src =
     (if lo \<le> hi \<and> hi \<le> length dst
      then let n = min (hi - lo) (length src)
           in Val (take lo dst @ take n src @ drop (lo + n) dst)
      else Panic SliceOutOfRange)"

lemma idx_Val [simp]: "i < length xs \<Longrightarrow> idx xs i = Val (xs ! i)"
  by (simp add: idx_def)

lemma idx_Panic [simp]: "length xs \<le> i \<Longrightarrow> idx xs i = Panic IndexOutOfRange"
  by (simp add: idx_def)

lemma idx_not_Err [simp]: "idx xs i \<noteq> Err e"
  by (simp add: idx_def)

lemma is_panic_idx [simp]: "is_panic (idx xs i) \<longleftrightarrow> length xs \<le> i"
  by (simp add: idx_def)

lemma slice_from_Val [simp]: "n \<le> length xs \<Longrightarrow> slice_from xs n = Val (drop n xs)"
  by (simp add: slice_from_def)

lemma slice_from_Panic [simp]: "length xs < n \<Longrightarrow> slice_from xs n = Panic SliceOutOfRange"
  by (simp add: slice_from_def)

lemma put_idx_Val [simp]: "i < length xs \<Longrightarrow> put_idx xs i v = Val (xs[i := v])"
  by (simp add: put_idx_def)

lemma put_idx_Panic [simp]: "length xs \<le> i \<Longrightarrow> put_idx xs i v = Panic IndexOutOfRange"
  by (simp add: put_idx_def)

section \<open>Actions\<close>

type_synonym ('s, 'a) act = "'s \<Rightarrow> ('a go \<times> 's) option"

definition lift_go :: "'a go \<Rightarrow> ('s, 'a) act" where
  "lift_go r = (\<lambda>s. Some (r, s))"

definition return_act :: "'a \<Rightarrow> ('s, 'a) act" where
  "return_act x = lift_go (Val x)"

definition fail_act :: "go_error \<Rightarrow> ('s, 'a) act" where
  "fail_act e = lift_go (Err e)"

definition bind_act :: "('s, 'a) act \<Rightarrow> ('a \<Rightarrow> ('s, 'b) act) \<Rightarrow> ('s, 'b) act" where
  "bind_act m f = (\<lambda>s. Option.bind (m s) (\<lambda>(r, s').
     (case r of Val x \<Rightarrow> f x s' | Err e \<Rightarrow> Some (Err e, s') | Panic p \<Rightarrow> Some (Panic p, s'))))"

text \<open>
  \<open>x, err := f(); if err == nil \<dots>\<close>: the error becomes a value the caller inspects; a
  panic still unwinds.
\<close>

definition catch_act :: "('s, 'a) act \<Rightarrow> ('s, go_error + 'a) act" where
  "catch_act m = (\<lambda>s. Option.bind (m s) (\<lambda>(r, s').
     (case r of Val x \<Rightarrow> Some (Val (Inr x), s') | Err e \<Rightarrow> Some (Val (Inl e), s')
      | Panic p \<Rightarrow> Some (Panic p, s'))))"

text \<open>
  Lifting an action on the device state to one on a larger state: \<open>get\<close> and \<open>put\<close>
  are the field's selector and its update.
\<close>

definition zoom_act :: "('s \<Rightarrow> 't) \<Rightarrow> ('t \<Rightarrow> 's \<Rightarrow> 's) \<Rightarrow> ('t, 'a) act \<Rightarrow> ('s, 'a) act" where
  "zoom_act get put m = (\<lambda>s. Option.bind (m (get s)) (\<lambda>(r, t). Some (r, put t s)))"

lemma zoom_act_eq_Some:
  "zoom_act get put m s = Some (r, s') \<longleftrightarrow> (\<exists>t. m (get s) = Some (r, t) \<and> s' = put t s)"
  by (auto simp: zoom_act_def bind_eq_Some_conv)

lemma lift_go_apply [act_simps]: "lift_go r s = Some (r, s)"
  by (simp add: lift_go_def)

lemma return_act_apply [act_simps]: "return_act x s = Some (Val x, s)"
  by (simp add: return_act_def lift_go_def)

lemma fail_act_apply [act_simps]: "fail_act e s = Some (Err e, s)"
  by (simp add: fail_act_def lift_go_def)

lemma bind_act_None [act_simps]: "m s = None \<Longrightarrow> bind_act m f s = None"
  by (simp add: bind_act_def)

lemma bind_act_Val [act_simps]: "m s = Some (Val x, s') \<Longrightarrow> bind_act m f s = f x s'"
  by (simp add: bind_act_def)

lemma bind_act_Err [act_simps]: "m s = Some (Err e, s') \<Longrightarrow> bind_act m f s = Some (Err e, s')"
  by (simp add: bind_act_def)

lemma bind_act_Panic [act_simps]:
  "m s = Some (Panic p, s') \<Longrightarrow> bind_act m f s = Some (Panic p, s')"
  by (simp add: bind_act_def)

lemma bind_act_eq_Some:
  "bind_act m f s = Some (r, t) \<longleftrightarrow>
     (\<exists>x s'. m s = Some (Val x, s') \<and> f x s' = Some (r, t)) \<or>
     (\<exists>e. m s = Some (Err e, t) \<and> r = Err e) \<or>
     (\<exists>p. m s = Some (Panic p, t) \<and> r = Panic p)"
proof (cases "m s")
  case None
  then show ?thesis by (simp add: bind_act_def)
next
  case (Some rs)
  then show ?thesis by (cases rs; cases "fst rs") (auto simp: bind_act_def)
qed

lemma bind_act_eq_Val:
  "bind_act m f s = Some (Val y, t) \<longleftrightarrow>
     (\<exists>x s'. m s = Some (Val x, s') \<and> f x s' = Some (Val y, t))"
  by (auto simp: bind_act_eq_Some)

lemma bind_lift_Val [act_simps]: "bind_act (lift_go (Val x)) f = f x"
  by (simp add: bind_act_def lift_go_def)

lemma bind_return_act [act_simps]: "bind_act (return_act x) f = f x"
  by (simp add: return_act_def act_simps)

lemma bind_lift_Err [act_simps]: "bind_act (lift_go (Err e)) f = lift_go (Err e)"
  by (simp add: bind_act_def lift_go_def)

lemma bind_lift_Panic [act_simps]: "bind_act (lift_go (Panic p)) f = lift_go (Panic p)"
  by (simp add: bind_act_def lift_go_def)

lemma bind_act_assoc: "bind_act (bind_act m f) g = bind_act m (\<lambda>x. bind_act (f x) g)"
  by (rule ext) (auto simp: bind_act_def split: option.splits go.splits Option.bind_splits)

lemma catch_act_Val [act_simps]: "m s = Some (Val x, t) \<Longrightarrow> catch_act m s = Some (Val (Inr x), t)"
  by (simp add: catch_act_def)

lemma catch_act_Err [act_simps]: "m s = Some (Err e, t) \<Longrightarrow> catch_act m s = Some (Val (Inl e), t)"
  by (simp add: catch_act_def)

lemma catch_act_Panic [act_simps]: "m s = Some (Panic p, t) \<Longrightarrow> catch_act m s = Some (Panic p, t)"
  by (simp add: catch_act_def)

lemma catch_act_eq_Val:
  "catch_act m s = Some (Val y, t) \<longleftrightarrow>
     (\<exists>x. m s = Some (Val x, t) \<and> y = Inr x) \<or> (\<exists>e. m s = Some (Err e, t) \<and> y = Inl e)"
proof (cases "m s")
  case (Some rs)
  then show ?thesis by (cases rs; cases "fst rs") (auto simp: catch_act_def)
qed (simp add: catch_act_def)

lemma bind_act_mono [partial_function_mono]:
  assumes "\<And>s. mono_option (\<lambda>f. B f s)" and "\<And>y s. mono_option (\<lambda>f. C f y s)"
  shows "mono_option (\<lambda>f. bind_act (B f) (C f) s)"
  unfolding bind_act_def
proof (rule Partial_Function.bind_mono)
  show "mono_option (\<lambda>f. B f s)" by (rule assms(1))
next
  fix y
  show "mono_option (\<lambda>f. case y of (r, s') \<Rightarrow> (case r of Val x \<Rightarrow> C f x s'
          | Err e \<Rightarrow> Some (Err e, s') | Panic p \<Rightarrow> Some (Panic p, s')))"
    by (cases y; cases "fst y") (auto simp: assms(2) intro: option.const_mono)
qed

text \<open>\<open>for i, x := range xs { ys[i] = f(x) }\<close>, leaving at the first error.\<close>

fun map_act :: "('a \<Rightarrow> ('s, 'b) act) \<Rightarrow> 'a list \<Rightarrow> ('s, 'b list) act" where
  "map_act f [] = return_act []"
| "map_act f (x # xs) =
     bind_act (f x) (\<lambda>y. bind_act (map_act f xs) (\<lambda>ys. return_act (y # ys)))"

subsection \<open>Actions that return\<close>

text \<open>\<open>returns I m\<close>: from every state satisfying \<open>I\<close> the action returns, in such a state.\<close>

definition returns :: "('s \<Rightarrow> bool) \<Rightarrow> ('s, 'a) act \<Rightarrow> bool" where
  "returns I m \<longleftrightarrow> (\<forall>s. I s \<longrightarrow> (\<exists>r s'. m s = Some (r, s') \<and> I s'))"

lemma returnsD: "returns I m \<Longrightarrow> I s \<Longrightarrow> \<exists>r s'. m s = Some (r, s') \<and> I s'"
  by (simp add: returns_def)

lemma returns_lift [act_intros]: "returns I (lift_go r)"
  by (simp add: returns_def act_simps)

lemma returns_return [act_intros]: "returns I (return_act x)"
  by (simp add: returns_def act_simps)

lemma returns_fail [act_intros]: "returns I (fail_act e)"
  by (simp add: returns_def act_simps)

lemma returns_bind [act_intros]:
  "returns I m \<Longrightarrow> (\<And>x. returns I (f x)) \<Longrightarrow> returns I (bind_act m f)"
  unfolding returns_def bind_act_def
  by (fastforce split: go.splits)

lemma returns_catch [act_intros]: "returns I m \<Longrightarrow> returns I (catch_act m)"
  unfolding returns_def catch_act_def
  by (fastforce split: go.splits)

lemma returns_If [act_intros]: "returns I m \<Longrightarrow> returns I n \<Longrightarrow> returns I (if b then m else n)"
  by simp

lemma returns_case_sum [act_intros]:
  "(\<And>e. returns I (m e)) \<Longrightarrow> (\<And>x. returns I (n x)) \<Longrightarrow>
     returns I (case r of Inl e \<Rightarrow> m e | Inr x \<Rightarrow> n x)"
  by (cases r) simp_all

lemma returns_case_sum_applied:
  "(\<And>e. returns I (m e)) \<Longrightarrow> (\<And>x. returns I (n x)) \<Longrightarrow>
     returns I (\<lambda>s. case r of Inl e \<Rightarrow> m e s | Inr x \<Rightarrow> n x s)"
  by (cases r) simp_all

lemma returns_case_option [act_intros]:
  "returns I m \<Longrightarrow> (\<And>x. returns I (n x)) \<Longrightarrow>
     returns I (case r of None \<Rightarrow> m | Some x \<Rightarrow> n x)"
  by (cases r) simp_all

lemma returns_map_act [act_intros]: "(\<And>x. returns I (f x)) \<Longrightarrow> returns I (map_act f xs)"
  by (induction xs) (auto intro!: act_intros)

subsection \<open>Actions with a known result\<close>

text \<open>
  \<open>yields I m r\<close>: from every state satisfying \<open>I\<close> the action returns \<open>r\<close>, in such a state. Through
  these rules the result of a composed action is that of a pure computation.
\<close>

named_theorems yields_intros \<open>rules that give the result of an action\<close>

definition yields :: "('s \<Rightarrow> bool) \<Rightarrow> ('s, 'a) act \<Rightarrow> 'a go \<Rightarrow> bool" where
  "yields I m r \<longleftrightarrow> (\<forall>s. I s \<longrightarrow> (\<exists>t. m s = Some (r, t) \<and> I t))"

lemma yieldsD: "yields I m r \<Longrightarrow> I s \<Longrightarrow> \<exists>t. m s = Some (r, t) \<and> I t"
  by (simp add: yields_def)

lemma yields_lift [yields_intros]: "yields I (lift_go r) r"
  by (simp add: yields_def act_simps)

lemma yields_return [yields_intros]: "yields I (return_act x) (Val x)"
  by (simp add: yields_def act_simps)

lemma yields_bind:
  "yields I m (Val x) \<Longrightarrow> yields I (f x) r \<Longrightarrow> yields I (bind_act m f) r"
  unfolding yields_def by (metis bind_act_Val)

lemma yields_bind_Err: "yields I m (Err e) \<Longrightarrow> yields I (bind_act m f) (Err e)"
  unfolding yields_def by (metis bind_act_Err)

lemma yields_bind_Panic: "yields I m (Panic p) \<Longrightarrow> yields I (bind_act m f) (Panic p)"
  unfolding yields_def by (metis bind_act_Panic)

lemma yields_bind_go [yields_intros]:
  "yields I m r \<Longrightarrow> (\<And>x. r = Val x \<Longrightarrow> yields I (f x) (g x)) \<Longrightarrow>
     yields I (bind_act m f) (bind_go r g)"
  by (cases r) (auto intro: yields_bind yields_bind_Err yields_bind_Panic)

section \<open>Go maps\<close>

lemma map_of_update [simp]:
  "map_of (AList.update k v m) k' = (if k' = k then Some v else map_of m k')"
  by (simp add: update_conv)

lemma keys_update: "fst ` set (AList.update k v m) = insert k (fst ` set m)"
  by (simp add: dom_update flip: dom_map_of_conv_image_fst)
     (auto simp: dom_def split: if_splits)

definition lookup_or :: "'v \<Rightarrow> ('k, 'v) gomap \<Rightarrow> 'k \<Rightarrow> 'v" where
  \<comment> \<open>\<open>m[k]\<close>: the zero value when the key is missing\<close>
  "lookup_or z m k = (case map_of m k of None \<Rightarrow> z | Some v \<Rightarrow> v)"

lemma lookup_or_update [simp]:
  "lookup_or z (AList.update k v m) k' = (if k' = k then v else lookup_or z m k')"
  by (simp add: lookup_or_def)

section \<open>Words\<close>

lemma unat_byte_less [simp]: "unat (b :: byte) < 256"
proof -
  have "unat b < 2 ^ LENGTH(8)" by (rule unsigned_less)
  then show ?thesis by simp
qed

lemma unat_uint16_less [simp]: "unat (w :: uint16) < 65536"
proof -
  have "unat w < 2 ^ LENGTH(16)" by (rule unsigned_less)
  then show ?thesis by simp
qed

lemma unat_ucast_byte [simp]: "unat (ucast (b :: byte) :: uint16) = unat b"
proof -
  have "unat b < 2 ^ 16" using unat_byte_less [of b] by (simp del: unat_byte_less)
  then show ?thesis by (simp add: unsigned_ucast_eq take_bit_nat_eq_self)
qed

text \<open>Counting up to a bound does not wrap.\<close>

lemma unat_next:
  fixes i n :: uint16
  assumes "i < n"
  shows "unat (i + 1) = unat i + 1"
  using assms unat_uint16_less [of n]
  by (simp add: word_less_nat_alt unat_word_ariths del: unat_uint16_less)

text \<open>The 16-bit value with low byte \<open>l\<close> and high byte \<open>h\<close>, as the sources assemble it.\<close>

definition le16 :: "byte \<Rightarrow> byte \<Rightarrow> uint16" where
  "le16 l h = push_bit 8 (ucast h) OR ucast l"

lemma unat_le16: "unat (le16 l h) = 256 * unat h + unat l"
proof -
  have "and (push_bit 8 (ucast h :: uint16)) (ucast l) = 0"
    by (rule bit_word_eqI) (auto simp: bit_simps dest: bit_imp_le_length)
  then have "le16 l h = push_bit 8 (ucast h) + ucast l"
    by (simp add: le16_def disjunctive_add_eq_or)
  then have "unat (le16 l h) = (256 * unat h mod 65536 + unat l) mod 65536"
    by (simp add: push_bit_eq_mult unat_word_ariths mult.commute)
  then show ?thesis
    using unat_byte_less [of h] unat_byte_less [of l] by (simp add: mult.commute)
qed

end
