(* ===== verification/Go_Strings.thy ===== *)
theory Go_Strings
  imports Prelude "HOL-Library.Sublist"
begin

text \<open>
  What the plugin uses of Go's \<open>strings\<close>, \<open>strconv\<close> and \<open>fmt\<close> packages. A Go
  string is a sequence of bytes, and so is a HOL \<open>string\<close> (a \<open>char\<close> is eight bits).

  \<^item> \<open>strings.Split\<close> and \<open>strings.Join\<close> on a one-character separator, with the two
    round trips; \<open>strings.Contains\<close>;
  \<^item> \<open>strings.TrimSpace\<close>, with every Unicode space in its UTF-8 encoding;
  \<^item> \<open>%d\<close>, \<open>%02x\<close> and \<open>%02X\<close> of \<open>fmt.Sprintf\<close>;
  \<^item> \<open>strconv.ParseInt\<close> in base 16 with a 64-bit \<open>int\<close>, its error cases included.
\<close>

section \<open>Split, Join, Contains\<close>

fun Split :: "char \<Rightarrow> string \<Rightarrow> string list" where
  "Split c [] = [[]]"
| "Split c (x # xs) =
     (if x = c then [] # Split c xs
      else (case Split c xs of [] \<Rightarrow> [[x]] | y # ys \<Rightarrow> (x # y) # ys))"

fun Join :: "char \<Rightarrow> string list \<Rightarrow> string" where
  "Join c [] = []"
| "Join c [x] = x"
| "Join c (x # y # zs) = x @ c # Join c (y # zs)"

fun Contains :: "string \<Rightarrow> string \<Rightarrow> bool" where
  "Contains [] sub = (sub = [])"
| "Contains (x # xs) sub = (prefix sub (x # xs) \<or> Contains xs sub)"

lemma Contains_sublist: "Contains s sub \<longleftrightarrow> sublist sub s"
  by (induction s sub rule: Contains.induct) (auto simp: sublist_Cons_right)

lemma Split_not_Nil [simp]: "Split c s \<noteq> []"
  by (induction s) (auto split: list.splits)

lemma Join_Split: "Join c (Split c s) = s"
proof (induction s)
  case Nil
  then show ?case by simp
next
  case (Cons x xs)
  show ?case
  proof (cases "Split c xs")
    case Nil
    then show ?thesis by simp
  next
    case (Cons y ys)
    with Cons.IH show ?thesis by (cases ys) auto
  qed
qed

lemma Split_no_sep: "c \<notin> set s \<Longrightarrow> Split c s = [s]"
  by (induction s) auto

lemma Split_append_sep: "c \<notin> set s \<Longrightarrow> Split c (s @ c # t) = s # Split c t"
  by (induction s) auto

section \<open>TrimSpace\<close>

text \<open>
  The encodings of \<open>unicode.IsSpace\<close>: the six ASCII spaces, U+0085, U+00A0, U+1680,
  U+2000 to U+200A, U+2028, U+2029, U+202F, U+205F and U+3000. Decoding the first rune
  of a string gives a space exactly when one of these is a prefix, and decoding the last
  one exactly when one is a suffix.
\<close>

definition string_of_bytes :: "byte list \<Rightarrow> string" where
  "string_of_bytes bs = map (\<lambda>b. char_of (unat b)) bs"

definition space_encodings :: "string list" where
  "space_encodings = map (map (\<lambda>n. char_of (n :: nat)))
     ([[9], [10], [11], [12], [13], [32], [0xC2, 0x85], [0xC2, 0xA0], [0xE1, 0x9A, 0x80]]
      @ map (\<lambda>n. [0xE2, 0x80, n]) [0x80 ..< 0x8B]
      @ [[0xE2, 0x80, 0xA8], [0xE2, 0x80, 0xA9], [0xE2, 0x80, 0xAF], [0xE2, 0x81, 0x9F],
         [0xE3, 0x80, 0x80]])"

definition leading_space :: "string list \<Rightarrow> string \<Rightarrow> string option" where
  "leading_space ws s = find (\<lambda>w. w \<noteq> [] \<and> prefix w s) ws"

function trim_with :: "string list \<Rightarrow> string \<Rightarrow> string" where
  "trim_with ws s =
     (case leading_space ws s of None \<Rightarrow> s | Some w \<Rightarrow> trim_with ws (drop (length w) s))"
  by pat_completeness auto
termination
proof (relation "measure (\<lambda>(ws, s). length s)")
  fix ws s w
  assume "leading_space ws s = Some w"
  then have "w \<noteq> []" and "prefix w s"
    by (auto simp: leading_space_def find_Some_iff)
  then show "((ws, drop (length w) s), ws, s) \<in> measure (\<lambda>(ws, s). length s)"
    by (auto simp: prefix_def)
qed simp

declare trim_with.simps [simp del]

definition TrimSpace :: "string \<Rightarrow> string" where
  "TrimSpace s = rev (trim_with (map rev space_encodings) (rev (trim_with space_encodings s)))"

lemma trim_with_suffix: "suffix (trim_with ws s) s"
proof (induction ws s rule: trim_with.induct)
  case (1 ws s)
  show ?case
  proof (cases "leading_space ws s")
    case None
    then show ?thesis by (simp add: trim_with.simps [of ws s])
  next
    case (Some w)
    with "1.IH" have "suffix (trim_with ws (drop (length w) s)) (drop (length w) s)" by simp
    then show ?thesis
      using Some suffix_drop [of "length w" s]
      by (simp add: trim_with.simps [of ws s] suffix_order.trans)
  qed
qed

lemma trim_with_leading: "leading_space ws (trim_with ws s) = None"
proof (induction ws s rule: trim_with.induct)
  case (1 ws s)
  then show ?case
    by (cases "leading_space ws s") (simp_all add: trim_with.simps [of ws s])
qed

lemma trim_with_id: "leading_space ws s = None \<Longrightarrow> trim_with ws s = s"
  by (simp add: trim_with.simps)

lemma leading_space_prefix:
  "leading_space ws s = None \<Longrightarrow> prefix t s \<Longrightarrow> leading_space ws t = None"
  by (auto simp: leading_space_def find_None_iff dest: prefix_order.trans)

text \<open>Strings whose ends are plain ASCII are their own trimming.\<close>

definition solid :: "char \<Rightarrow> bool" where
  "solid c \<longleftrightarrow> ((of_char c :: nat) < 9 \<or> 32 < (of_char c :: nat)) \<and> (of_char c :: nat) < 128"

lemma space_encodings_ends:
  "w \<in> set space_encodings \<Longrightarrow> w \<noteq> [] \<and> \<not> solid (hd w) \<and> \<not> solid (last w)"
  by (auto simp: space_encodings_def solid_def upt_conv_Cons)

lemma leading_space_solid: "solid c \<Longrightarrow> leading_space space_encodings (c # s) = None"
  using space_encodings_ends
  by (fastforce simp: leading_space_def find_None_iff prefix_Cons)

lemma leading_space_rev_solid:
  "solid c \<Longrightarrow> leading_space (map rev space_encodings) (c # s) = None"
  using space_encodings_ends
  by (fastforce simp: leading_space_def find_None_iff prefix_Cons rev_eq_Cons_iff last_snoc)

lemma leading_space_Nil [simp]: "leading_space ws [] = None"
  by (auto simp: leading_space_def find_None_iff)

lemma TrimSpace_Nil [simp]: "TrimSpace [] = []"
  by (simp add: TrimSpace_def trim_with_id)

lemma trim_with_step:
  "leading_space ws s = Some w \<Longrightarrow> trim_with ws s = trim_with ws (drop (length w) s)"
  by (simp add: trim_with.simps [of ws s])

lemma TrimSpace_solid:
  assumes "solid c" and "solid d"
  shows "TrimSpace (c # s @ [d]) = c # s @ [d]"
  using assms
  by (simp add: TrimSpace_def trim_with_id leading_space_solid leading_space_rev_solid)

lemma space_encodings_head:
  "space_encodings = [CHR 0x09] # [CHR 0x0A] # drop 2 space_encodings"
  by (simp add: space_encodings_def char_of_def bit_0)

lemma TrimSpace_solid_newline:
  assumes "solid c" and "solid d"
  shows "TrimSpace (c # s @ [d, CHR 0x0A]) = c # s @ [d]"
proof -
  have "trim_with space_encodings (c # s @ [d, CHR 0x0A]) = c # s @ [d, CHR 0x0A]"
    using assms by (simp add: trim_with_id leading_space_solid)
  moreover have "trim_with (map rev space_encodings) (CHR 0x0A # d # rev s @ [c])
      = d # rev s @ [c]"
  proof -
    have "leading_space (map rev space_encodings) (CHR 0x0A # d # rev s @ [c]) = Some [CHR 0x0A]"
      by (subst space_encodings_head) (simp add: leading_space_def)
    then have "trim_with (map rev space_encodings) (CHR 0x0A # d # rev s @ [c])
        = trim_with (map rev space_encodings) (drop (length [CHR 0x0A]) (CHR 0x0A # d # rev s @ [c]))"
      by (rule trim_with_step)
    also have "drop (length [CHR 0x0A]) (CHR 0x0A # d # rev s @ [c]) = d # rev s @ [c]"
      by simp
    also have "trim_with (map rev space_encodings) (d # rev s @ [c]) = d # rev s @ [c]"
      using assms(2) by (intro trim_with_id leading_space_rev_solid)
    finally show ?thesis .
  qed
  ultimately show ?thesis by (simp add: TrimSpace_def)
qed

section \<open>Numbers in and out of strings\<close>

text \<open>\<open>%d\<close> of a non-negative number.\<close>

definition digit_char :: "nat \<Rightarrow> char" where
  "digit_char d = char_of (48 + d)"

fun Dec :: "nat \<Rightarrow> string" where
  "Dec n = (if n < 10 then [digit_char n] else Dec (n div 10) @ [digit_char (n mod 10)])"

declare Dec.simps [simp del]

definition undec :: "string \<Rightarrow> nat" where
  "undec s = foldl (\<lambda>a c. 10 * a + (of_char c - 48)) 0 s"

lemma of_digit_char: "d < 10 \<Longrightarrow> of_char (digit_char d) = 48 + d"
  by (simp add: digit_char_def)

lemma undec_Dec [simp]: "undec (Dec n) = n"
proof (induction n rule: Dec.induct)
  case (1 n)
  show ?case
  proof (cases "n < 10")
    case True
    then show ?thesis by (simp add: Dec.simps [of n] undec_def of_digit_char)
  next
    case False
    with "1.IH" show ?thesis
      by (simp add: Dec.simps [of n] undec_def of_digit_char)
  qed
qed

lemma Dec_inject [simp]: "Dec m = Dec n \<longleftrightarrow> m = n"
  by (metis undec_Dec)

text \<open>\<open>%02x\<close> and \<open>%02X\<close> of a byte.\<close>

definition hex_lower :: "nat \<Rightarrow> char" where
  "hex_lower d = char_of (if d < 10 then 48 + d else 87 + d)"

definition hex_upper :: "nat \<Rightarrow> char" where
  "hex_upper d = char_of (if d < 10 then 48 + d else 55 + d)"

definition Hex02x :: "byte \<Rightarrow> string" where
  "Hex02x b = [hex_lower (unat b div 16), hex_lower (unat b mod 16)]"

definition Hex02X_upper :: "byte \<Rightarrow> string" where
  "Hex02X_upper b = [hex_upper (unat b div 16), hex_upper (unat b mod 16)]"

text \<open>
  \<open>strconv.ParseInt(s, 16, 0)\<close>: a sign, then hexadecimal digits. The value returned beside
  a syntax error is 0; beside a range error it is the nearest \<open>int\<close>. A digit string that
  overflows 64 bits stops there, before any later character is looked at.
\<close>

datatype uint_result = Parsed nat | ErrSyntax | ErrRange

definition hex_value :: "char \<Rightarrow> nat option" where
  "hex_value c =
     (let n = of_char c :: nat in
      if 48 \<le> n \<and> n \<le> 57 then Some (n - 48)
      else if 97 \<le> n \<and> n \<le> 102 then Some (n - 97 + 10)
      else if 65 \<le> n \<and> n \<le> 70 then Some (n - 65 + 10)
      else None)"

fun parse_hex_digits :: "nat \<Rightarrow> string \<Rightarrow> uint_result" where
  "parse_hex_digits n [] = Parsed n"
| "parse_hex_digits n (c # cs) =
     (case hex_value c of None \<Rightarrow> ErrSyntax
      | Some v \<Rightarrow> if 2 ^ 64 \<le> n * 16 + v then ErrRange else parse_hex_digits (n * 16 + v) cs)"

definition ParseUint_hex :: "string \<Rightarrow> uint_result" where
  "ParseUint_hex s = (if s = [] then ErrSyntax else parse_hex_digits 0 s)"

definition signed_value :: "bool \<Rightarrow> uint_result \<Rightarrow> int" where
  "signed_value neg r =
     (case r of ErrSyntax \<Rightarrow> 0
      | ErrRange \<Rightarrow> if neg then - (2 ^ 63) else 2 ^ 63 - 1
      | Parsed n \<Rightarrow> if neg then (if 2 ^ 63 < n then - (2 ^ 63) else - int n)
                   else (if 2 ^ 63 \<le> n then 2 ^ 63 - 1 else int n))"

definition ParseInt_hex :: "string \<Rightarrow> int" where
  "ParseInt_hex s =
     (case s of [] \<Rightarrow> 0
      | c # cs \<Rightarrow>
          if c = CHR ''+'' then signed_value False (ParseUint_hex cs)
          else if c = CHR ''-'' then signed_value True (ParseUint_hex cs)
          else signed_value False (ParseUint_hex s))"

lemma hex_value_lower [simp]: "d < 16 \<Longrightarrow> hex_value (hex_lower d) = Some d"
  by (auto simp: hex_value_def hex_lower_def Let_def)

lemma hex_lower_solid [simp]: "d < 16 \<Longrightarrow> solid (hex_lower d)"
  by (simp add: solid_def hex_lower_def)

lemma hex_lower_not_sign:
  assumes "d < 16" and "c \<in> {CHR ''+'', CHR ''-'', CHR '' ''}"
  shows "hex_lower d \<noteq> c"
proof
  assume "hex_lower d = c"
  then have "hex_value c = Some d" using assms(1) by auto
  with assms(2) show False by (auto simp: hex_value_def)
qed

lemma ParseInt_Hex02x: "ParseInt_hex (Hex02x b) = uint b"
proof -
  have "unat b div 16 < 16" and "unat b mod 16 < 16"
    using unat_byte_less [of b] by linarith+
  moreover have "\<not> 9223372036854775808 \<le> unat b" and "\<not> 18446744073709551616 \<le> unat b"
    using unat_byte_less [of b] by linarith+
  ultimately have "ParseInt_hex (Hex02x b) = int (unat b)"
    by (simp add: ParseInt_hex_def Hex02x_def hex_lower_not_sign ParseUint_hex_def
        signed_value_def)
  then show ?thesis by simp
qed

end
