(* ===== verification/Fru_String.thy ===== *)
theory Fru_String
  imports Go_Strings
begin

text \<open>
  \<open>GetFruAreaString\<close> of \<open>ipmi/fru.go\<close>: reading one field of the FRU product area.

  A field is a byte with a type (its two high bits) and a length, and the field's bytes. The
  four types are binary, BCD-plus, 6-bit packed and text. The indices are 16-bit, as in Go.
  The arrays \<open>chars\<close> and \<open>buf1\<close> of the packed case are lists that the two loops update in the
  order of the source.
\<close>

definition bcd :: "char list" where
  "bcd = ''0123456789 -.:,_''"

text \<open>\<open>for index = 0; index < length; index++\<close>, leaving at a zero or at the end mark.\<close>

function trim_length :: "byte list \<Rightarrow> uint16 \<Rightarrow> uint16 \<Rightarrow> uint16 go" where
  "trim_length data len index =
     (if index < len then
        bind_go (idx data (unat (1 + index))) (\<lambda>b.
        if b = 0 \<or> b = 0xFF then Val index else trim_length data len (index + 1))
      else Val index)"
  by pat_completeness auto
termination
  by (relation "measure (\<lambda>(data, len, index). unat len - unat index)")
     (auto simp: unat_next word_less_nat_alt)

declare trim_length.simps [simp del]

text \<open>The text case: \<open>length\<close> bytes from \<open>offset = 1\<close> on.\<close>

definition text_field :: "byte list \<Rightarrow> uint16 \<Rightarrow> byte list go" where
  "text_field data len =
     (let buf = take (unat len) (drop 1 data)
      in if length buf = unat len then Val buf else Panic IndexOutOfRange)"

text \<open>The BCD case: every byte gives one character, for its low nibble.\<close>

definition bcd_field :: "byte list \<Rightarrow> uint16 \<Rightarrow> string go" where
  "bcd_field data len =
     (let buf = take (unat len) (drop 1 data)
      in if length buf = unat len then Val (map (\<lambda>b. bcd ! unat (b AND 0x0f)) buf)
         else Panic IndexOutOfRange)"

text \<open>
  The packed case. \<open>shift_chars\<close> is the loop over \<open>m\<close> and the line behind it: the four bytes,
  the last the lowest, move six bits down.
\<close>

definition shift_chars :: "byte list \<Rightarrow> byte list" where
  "shift_chars chars =
     [drop_bit 6 (chars ! 0),
      drop_bit 6 (chars ! 1) OR push_bit 2 (chars ! 0 AND 0x3f),
      drop_bit 6 (chars ! 2) OR push_bit 2 (chars ! 1 AND 0x3f),
      drop_bit 6 (chars ! 3) OR push_bit 2 (chars ! 2 AND 0x3f)]"

text \<open>\<open>for k = 0; k < 4; k++\<close>, with \<open>n\<close> turns left and \<open>j\<close> the index it counts up.\<close>

primrec unpack_group :: "nat \<Rightarrow> byte list \<Rightarrow> byte list \<Rightarrow> nat \<Rightarrow> (byte list \<times> byte list) go" where
  "unpack_group 0 chars buf1 j = Val (chars, buf1)"
| "unpack_group (Suc n) chars buf1 j =
     bind_go (put_idx buf1 (j + 1) ((chars ! 3 AND 0x3f) + 0x20)) (\<lambda>buf1.
     unpack_group n (shift_chars chars) buf1 (j + 1))"

text \<open>
  One turn of the outer loop, on the group that starts at \<open>i\<close>: up to three bytes of the field,
  zeros for the missing ones; \<open>j\<close> starts at 0 in every turn.
\<close>

definition load_group :: "byte list \<Rightarrow> nat \<Rightarrow> nat \<Rightarrow> byte list \<Rightarrow> byte list go" where
  "load_group data len i chars =
     (let k = (if len - i < 3 then len - i else 3) in
      bind_go (idx data (1 + i)) (\<lambda>b0.
      bind_go (if 1 < k then idx data (1 + i + 1) else Val 0) (\<lambda>b1.
      bind_go (if 2 < k then idx data (1 + i + 2) else Val 0) (\<lambda>b2.
      Val [chars ! 0, b2, b1, b0]))))"

function unpack_loop ::
  "byte list \<Rightarrow> nat \<Rightarrow> nat \<Rightarrow> byte list \<Rightarrow> byte list \<Rightarrow> byte list go" where
  "unpack_loop data len i chars buf1 =
     (if i < len then
        bind_go (load_group data len i chars) (\<lambda>chars.
        bind_go (unpack_group 4 chars buf1 0) (\<lambda>(chars, buf1).
        unpack_loop data len (i + 3) chars buf1))
      else Val buf1)"
  by pat_completeness auto
termination
  by (relation "measure (\<lambda>(data, len, i, chars, buf1). len - i)") auto

declare unpack_loop.simps [simp del]

definition packed_size :: "nat \<Rightarrow> nat" where
  \<comment> \<open>\<open>((length + 2) * 4 / 3) &^ 3\<close>\<close>
  "packed_size len = 4 * (((len + 2) * 4 div 3) div 4)"

definition packed_field :: "byte list \<Rightarrow> uint16 \<Rightarrow> byte list go" where
  "packed_field data len =
     unpack_loop data (unat len) 0 [0, 0, 0, 0] (replicate (packed_size (unat len)) 0)"

definition GetFruAreaString :: "byte list \<Rightarrow> string go" where
  "GetFruAreaString data =
     (if data = [] then Val []
      else
        let typeCode = drop_bit 6 (data ! 0 AND 0xC0);
            len = (ucast (data ! 0) AND 0x3f :: uint16)
        in if of_nat (length data) \<le> 1 + len - 1 then Val []
           else
             bind_go (trim_length data len 0) (\<lambda>len.
             if len = 0 then Val []
             else if typeCode = 3 then
               bind_go (text_field data len) (\<lambda>buf. Val (TrimSpace (string_of_bytes buf)))
             else if typeCode = 2 then
               bind_go (packed_field data len) (\<lambda>buf. Val (TrimSpace (string_of_bytes buf)))
             else if typeCode = 1 then
               bind_go (bcd_field data len) (\<lambda>s. Val (TrimSpace s))
             else Val []))"

section \<open>Six-bit characters\<close>

text \<open>
  The packing of the standard: four characters between \<open>0x20\<close> and \<open>0x5F\<close>, six bits each, in
  three bytes, the lowest bits first.
\<close>

definition unpacked :: "byte \<Rightarrow> byte \<Rightarrow> byte \<Rightarrow> byte list" where
  "unpacked b0 b1 b2 =
     [(b0 AND 0x3f) + 0x20,
      (drop_bit 6 b0 OR push_bit 2 (b1 AND 0x0f)) + 0x20,
      (drop_bit 4 b1 OR push_bit 4 (b2 AND 0x03)) + 0x20,
      drop_bit 2 b2 + 0x20]"

definition packed :: "byte \<Rightarrow> byte \<Rightarrow> byte \<Rightarrow> byte \<Rightarrow> byte list" where
  "packed c0 c1 c2 c3 =
     [(c0 - 0x20) OR push_bit 6 (c1 - 0x20),
      drop_bit 2 (c1 - 0x20) OR push_bit 4 (c2 - 0x20),
      drop_bit 4 (c2 - 0x20) OR push_bit 2 (c3 - 0x20)]"

lemma byte_bits:
  assumes "\<And>n. n \<in> {0, 1, 2, 3, 4, 5, 6, 7} \<Longrightarrow> bit v n = bit w n"
  shows "(v :: byte) = w"
proof (rule bit_word_eqI)
  fix n
  assume "n < LENGTH(8)"
  then have "n \<in> {0, 1, 2, 3, 4, 5, 6, 7}" by auto
  then show "bit v n = bit w n" by (rule assms)
qed

lemma bits_beyond: "8 \<le> n \<Longrightarrow> \<not> bit (v :: byte) n"
  by (auto dest: bit_imp_le_length)

lemma sextet1:
  "shift_chars [0, b2, b1, b0] ! 3 AND 0x3f = drop_bit 6 b0 OR push_bit 2 (b1 AND 0x0f)"
  by (rule byte_bits; auto simp: shift_chars_def bit_simps bits_beyond)

lemma sextet2:
  "shift_chars (shift_chars [0, b2, b1, b0]) ! 3 AND 0x3f = drop_bit 4 b1 OR push_bit 4 (b2 AND 0x03)"
  by (rule byte_bits; auto simp: shift_chars_def bit_simps bits_beyond)

lemma sextet3:
  "shift_chars (shift_chars (shift_chars [0, b2, b1, b0])) ! 3 AND 0x3f = drop_bit 2 b2"
  by (rule byte_bits; auto simp: shift_chars_def bit_simps bits_beyond)

lemmas sextets = sextet1 sextet2 sextet3

lemma shift_chars_done:
  "shift_chars (shift_chars (shift_chars (shift_chars [0, b2, b1, b0]))) = [0, 0, 0, 0]"
proof -
  let ?s = "shift_chars (shift_chars (shift_chars (shift_chars [0, b2, b1, b0])))"
  have "?s ! 0 = 0" "?s ! 1 = 0" "?s ! 2 = 0" "?s ! 3 = 0"
    by (rule byte_bits; auto simp: shift_chars_def bit_simps bits_beyond)+
  moreover have "?s = [?s ! 0, ?s ! 1, ?s ! 2, ?s ! 3]"
    by (simp only: shift_chars_def [of "shift_chars _"] nth_Cons_0 nth_Cons_numeral One_nat_def nth_Cons_Suc)
       (simp add: shift_chars_def)
  ultimately show ?thesis by metis
qed

lemma unpack_group_eq:
  assumes "5 \<le> length buf1"
  shows "unpack_group 4 [0, b2, b1, b0] buf1 0 =
    Val ([0, 0, 0, 0], take 1 buf1 @ unpacked b0 b1 b2 @ drop 5 buf1)"
proof -
  obtain x0 x1 x2 x3 x4 rest where buf: "buf1 = x0 # x1 # x2 # x3 # x4 # rest"
    using assms by (auto simp: numeral_eq_Suc Suc_le_length_iff)
  have four: "(4 :: nat) = Suc (Suc (Suc (Suc 0)))" by simp
  show ?thesis
    unfolding four by (simp add: buf sextets shift_chars_done unpacked_def put_idx_def)
qed

lemma unpack_group_short:
  assumes "length buf1 < 5"
  shows "unpack_group 4 chars buf1 0 = Panic IndexOutOfRange"
proof -
  have four: "(4 :: nat) = Suc (Suc (Suc (Suc 0)))" by simp
  show ?thesis
    unfolding four using assms by (auto simp: put_idx_def)
qed

text \<open>Packing and unpacking are inverse on the characters of the standard.\<close>

lemma packed_sextets:
  fixes d0 d1 d2 d3 :: byte
  assumes "\<not> bit d0 6" "\<not> bit d0 7" "\<not> bit d1 6" "\<not> bit d1 7" "\<not> bit d2 6" "\<not> bit d2 7"
    "\<not> bit d3 6" "\<not> bit d3 7"
  defines "x \<equiv> d0 OR push_bit 6 d1" and "y \<equiv> drop_bit 2 d1 OR push_bit 4 d2"
    and "z \<equiv> drop_bit 4 d2 OR push_bit 2 d3"
  shows "x AND 0x3f = d0" and "drop_bit 6 x OR push_bit 2 (y AND 0x0f) = d1"
    and "drop_bit 4 y OR push_bit 4 (z AND 0x03) = d2" and "drop_bit 2 z = d3"
  unfolding x_def y_def z_def
  by (rule byte_bits; use assms(1-8) in \<open>auto simp: bit_simps bits_beyond simp flip: numeral_2_eq_2 numeral_3_eq_3\<close>)+

lemma sextet_range:
  assumes "0x20 \<le> c" and "c \<le> (0x5f :: byte)"
  shows "\<not> bit (c - 0x20) 6" and "\<not> bit (c - 0x20) 7"
proof -
  have "unat (c - 0x20) < 2 ^ 6" using assms by (simp add: unat_sub word_le_nat_alt)
  then have "take_bit 6 (c - 0x20) = c - 0x20"
    by (intro word_unat_eq_iff [THEN iffD2]) (simp add: unsigned_take_bit_eq take_bit_nat_eq_self)
  then have "bit (c - 0x20) n \<longleftrightarrow> n < 6 \<and> bit (c - 0x20) n" for n
    using bit_take_bit_iff [of 6 "c - 0x20" n] by (simp only:)
  from this [of 6] this [of 7] show "\<not> bit (c - 0x20) 6" "\<not> bit (c - 0x20) 7" by simp_all
qed

definition six_bit_char :: "byte \<Rightarrow> bool" where
  "six_bit_char c \<longleftrightarrow> 0x20 \<le> c \<and> c \<le> 0x5f"

lemma unpacked_packed:
  assumes "six_bit_char c0" "six_bit_char c1" "six_bit_char c2" "six_bit_char c3"
    and "packed c0 c1 c2 c3 = [x, y, z]"
  shows "unpacked x y z = [c0, c1, c2, c3]"
proof -
  have xyz: "x = (c0 - 0x20) OR push_bit 6 (c1 - 0x20)"
      "y = drop_bit 2 (c1 - 0x20) OR push_bit 4 (c2 - 0x20)"
      "z = drop_bit 4 (c2 - 0x20) OR push_bit 2 (c3 - 0x20)"
    using assms(5) by (simp_all add: packed_def)
  note range = assms(1-4) [unfolded six_bit_char_def, THEN conjunct1] assms(1-4) [unfolded six_bit_char_def, THEN conjunct2]
  have "x AND 0x3f = c0 - 0x20" "drop_bit 6 x OR push_bit 2 (y AND 0x0f) = c1 - 0x20"
    "drop_bit 4 y OR push_bit 4 (z AND 0x03) = c2 - 0x20" "drop_bit 2 z = c3 - 0x20"
    unfolding xyz by (rule packed_sextets; rule sextet_range; rule range)+
  then show ?thesis by (simp add: unpacked_def)
qed

section \<open>The bytes of a field\<close>

definition field_size :: "byte list \<Rightarrow> nat" where
  "field_size data = unat (data ! 0) mod 64"

definition field_bytes :: "byte list \<Rightarrow> byte list" where
  \<comment> \<open>the field up to a zero byte or the end mark\<close>
  "field_bytes data = takeWhile (\<lambda>b. b \<noteq> 0 \<and> b \<noteq> 0xFF) (take (field_size data) (drop 1 data))"

lemma length_field_bytes: "length (field_bytes data) \<le> field_size data"
  unfolding field_bytes_def by (rule order_trans [OF length_takeWhile_le]) simp

lemma field_bytes_take: "field_bytes data = take (length (field_bytes data)) (drop 1 data)"
proof -
  have "field_bytes data = take (length (field_bytes data)) (take (field_size data) (drop 1 data))"
    unfolding field_bytes_def by (rule takeWhile_eq_take)
  then show ?thesis
    using length_field_bytes [of data] by (simp add: min_absorb1)
qed

lemma trim_length_eq:
  assumes "unat len < length data" and "unat i \<le> unat len"
  shows "trim_length data len i =
    Val (i + of_nat (length (takeWhile (\<lambda>b. b \<noteq> 0 \<and> b \<noteq> 0xFF) (take (unat len - unat i) (drop (1 + unat i) data)))))"
  using assms
proof (induction data len i rule: trim_length.induct)
  case (1 data len i)
  show ?case
  proof (cases "i < len")
    case False
    with "1.prems" have "unat len - unat i = 0" by (simp add: word_less_nat_alt)
    with False show ?thesis by (simp add: trim_length.simps)
  next
    case True
    then have lt: "unat i < unat len" by (simp add: word_less_nat_alt)
    have one: "unat (1 + i) = Suc (unat i)" and next': "unat (i + 1) = Suc (unat i)"
      using unat_next [OF True] by (simp_all add: add.commute)
    have take: "take (unat len - unat i) (drop (1 + unat i) data)
        = data ! Suc (unat i) # take (unat len - Suc (unat i)) (drop (1 + Suc (unat i)) data)"
      using lt "1.prems"(1)
    proof -
      have "unat len - unat i = Suc (unat len - Suc (unat i))" using lt by simp
      moreover have "drop (Suc (unat i)) data = data ! Suc (unat i) # drop (Suc (Suc (unat i))) data"
        by (rule Cons_nth_drop_Suc [symmetric]) (use lt "1.prems"(1) in simp)
      ultimately show ?thesis by simp
    qed
    show ?thesis
    proof (cases "data ! Suc (unat i) = 0 \<or> data ! Suc (unat i) = 0xFF")
      case stop: True
      have "trim_length data len i = Val i"
        using True stop lt "1.prems"(1) by (subst trim_length.simps) (auto simp: one)
      then show ?thesis unfolding take using stop by auto
    next
      case False
      have "trim_length data len i = trim_length data len (i + 1)"
        using True False lt "1.prems"(1) by (subst trim_length.simps) (simp add: one)
      also have "\<dots> = Val (i + 1 + of_nat (length (takeWhile (\<lambda>b. b \<noteq> 0 \<and> b \<noteq> 0xFF)
          (take (unat len - unat (i + 1)) (drop (1 + unat (i + 1)) data)))))"
        by (rule "1.IH" [OF True _ _ "1.prems"(1)]) (use False lt "1.prems"(1) in \<open>simp_all add: one next'\<close>)
      finally show ?thesis unfolding take using False by (simp add: one next' algebra_simps)
    qed
  qed
qed

lemma unat_low_six: "unat (ucast b AND 0x3f :: uint16) = unat (b :: byte) mod 64"
proof -
  have "unat (ucast b AND 0x3f :: uint16) = unat b AND 63"
    by (simp add: unsigned_and_eq)
  also have "\<dots> = take_bit 6 (unat b)"
    by (simp add: take_bit_eq_mask mask_eq_exp_minus_1)
  finally show ?thesis by (simp add: take_bit_eq_mod)
qed

lemma trim_length_field:
  assumes "field_size data < length data"
  shows "trim_length data (ucast (data ! 0) AND 0x3f) 0 = Val (of_nat (length (field_bytes data)))"
  using trim_length_eq [of "ucast (data ! 0) AND 0x3f" data 0] assms
  by (simp add: unat_low_six field_size_def field_bytes_def)

section \<open>The packed loop\<close>

definition group_chars :: "byte list \<Rightarrow> nat \<Rightarrow> byte list" where
  \<comment> \<open>the four characters of the three bytes at \<open>i\<close>, zeros for missing ones\<close>
  "group_chars xs i =
     unpacked (xs ! i) (if i + 1 < length xs then xs ! (i + 1) else 0)
       (if i + 2 < length xs then xs ! (i + 2) else 0)"

lemma load_group_eq:
  assumes "xs = take len (drop 1 data)" and "length xs = len" and "i < len" and "chars ! 0 = 0"
  shows "load_group data len i chars =
    Val [0, (if i + 2 < length xs then xs ! (i + 2) else 0),
         (if i + 1 < length xs then xs ! (i + 1) else 0), xs ! i]"
proof -
  have nth: "idx data (1 + j) = Val (xs ! j)" if "j < len" for j
    using assms(1,2) that by (auto simp: idx_def)
  show ?thesis
    using assms(2-4) nth [of i] nth [of "i + 1"] nth [of "i + 2"]
    by (auto simp: load_group_def Let_def add.assoc)
qed

lemma unpack_loop_eq:
  assumes "xs = take len (drop 1 data)" and "length xs = len"
    and "i < len" and "chars ! 0 = 0" and "5 \<le> length buf1"
  shows "unpack_loop data len i chars buf1 =
    Val (take 1 buf1 @ group_chars xs (i + 3 * ((len - 1 - i) div 3)) @ drop 5 buf1)"
  using assms(3-5)
proof (induction "len - i" arbitrary: i chars buf1 rule: less_induct)
  case less
  let ?buf = "take 1 buf1 @ group_chars xs i @ drop 5 buf1"
  have four: "length (group_chars xs i) = 4" by (simp add: group_chars_def unpacked_def)
  have step: "unpack_loop data len i chars buf1 = unpack_loop data len (i + 3) [0, 0, 0, 0] ?buf"
    using less.prems load_group_eq [OF assms(1,2) less.prems(1,2)] unpack_group_eq [OF less.prems(3)]
    by (simp add: unpack_loop.simps [of data len i] group_chars_def)
  show ?case
  proof (cases "i + 3 < len")
    case True
    have "take 1 ?buf = take 1 buf1" "drop 5 ?buf = drop 5 buf1" "5 \<le> length ?buf"
      using less.prems(3) four by simp_all
    moreover have "(len - 1 - i) div 3 = Suc ((len - 1 - (i + 3)) div 3)"
      using True by (simp add: div_if)
    moreover have "unpack_loop data len (i + 3) [0, 0, 0, 0] ?buf =
        Val (take 1 ?buf @ group_chars xs (i + 3 + 3 * ((len - 1 - (i + 3)) div 3)) @ drop 5 ?buf)"
      by (rule less.hyps) (use True calculation(3) in simp_all)
    moreover have "i + 3 + 3 * n = i + 3 * Suc n" for n by simp
    ultimately show ?thesis unfolding step by (simp only:)
  next
    case False
    then have "(len - 1 - i) div 3 = 0" by simp
    with False show ?thesis unfolding step by (simp add: unpack_loop.simps)
  qed
qed

lemma packed_size_small: "0 < n \<Longrightarrow> n \<le> 3 \<Longrightarrow> packed_size n = 4"
  by (simp add: packed_size_def)

lemma packed_size_large: "4 \<le> n \<Longrightarrow> 8 \<le> packed_size n"
  by (simp add: packed_size_def)

lemma packed_field_eq:
  assumes "xs = take (unat len) (drop 1 data)" and "length xs = unat len" and "0 < unat len"
  shows "packed_field data len =
    (if unat len \<le> 3 then Panic IndexOutOfRange
     else Val (0 # group_chars xs (3 * ((unat len - 1) div 3)) @ replicate (packed_size (unat len) - 5) 0))"
proof (cases "unat len \<le> 3")
  case True
  have "packed_field data len = Panic IndexOutOfRange"
    using load_group_eq [OF assms, of "[0, 0, 0, 0]"] packed_size_small [OF assms(3) True] assms(3)
    by (simp add: packed_field_def unpack_loop.simps [of _ _ 0] unpack_group_short)
  with True show ?thesis by simp
next
  case False
  then have "8 \<le> packed_size (unat len)" by (intro packed_size_large) simp
  then show ?thesis
    using unpack_loop_eq [OF assms, of "[0, 0, 0, 0]" "replicate (packed_size (unat len)) 0"] False
    by (simp add: packed_field_def take_replicate)
qed

section \<open>What a field reads as\<close>

lemma type_code: "drop_bit 6 (b AND 0xC0 :: byte) = drop_bit 6 b"
  by (rule byte_bits) (auto simp: bit_simps bits_beyond)

lemma unat_type_code: "unat (drop_bit 6 (b :: byte)) = unat b div 64"
  by (simp add: drop_bit_eq_div unat_div)

lemma unat_of_small: "n < 64 \<Longrightarrow> unat (of_nat n :: uint16) = n"
  by (simp add: take_bit_nat_eq_self unsigned_of_nat)

lemma field_size_less: "field_size data < 64"
  by (simp add: field_size_def)

text \<open>What is left of the function once the bytes of the field are known to be there.\<close>

lemma fru_string_run:
  assumes "length data < 65536" and "field_size data < length data"
    and "len = of_nat (length (field_bytes data))"
  shows "GetFruAreaString data =
    (if len = 0 then Val []
     else if drop_bit 6 (data ! 0) = 3 then bind_go (text_field data len) (\<lambda>buf. Val (TrimSpace (string_of_bytes buf)))
     else if drop_bit 6 (data ! 0) = 2 then bind_go (packed_field data len) (\<lambda>buf. Val (TrimSpace (string_of_bytes buf)))
     else if drop_bit 6 (data ! 0) = 1 then bind_go (bcd_field data len) (\<lambda>s. Val (TrimSpace s))
     else Val [])"
proof -
  have "data \<noteq> []" using assms(2) by auto
  have fits: "\<not> of_nat (length data) \<le> (1 + (ucast (data ! 0) AND 0x3f) - 1 :: uint16)"
    using assms(1,2) by (simp add: word_le_nat_alt unat_low_six field_size_def unsigned_of_nat take_bit_nat_eq_self)
  have trim: "trim_length data (ucast (data ! 0) AND 0x3f) 0 = Val len"
    unfolding assms(3) by (rule trim_length_field [OF assms(2)])
  show ?thesis
    using \<open>data \<noteq> []\<close> fits by (simp only: GetFruAreaString_def Let_def type_code trim bind_go.simps) simp
qed

text \<open>The three kinds of field on the bytes of the field.\<close>

lemma fru_field_values:
  assumes "field_bytes data = field" and "field \<noteq> []" and "len = of_nat (length field)"
  shows "text_field data len = Val field"
    and "bcd_field data len = Val (map (\<lambda>b. bcd ! unat (b AND 0x0f)) field)"
    and "packed_field data len = (if length field \<le> 3 then Panic IndexOutOfRange
       else Val (0 # group_chars field (3 * ((length field - 1) div 3)) @ replicate (packed_size (length field) - 5) 0))"
proof -
  have len: "unat len = length field"
    using length_field_bytes [of data] field_size_less [of data] assms(1,3) by (auto intro: unat_of_small)
  have take: "take (unat len) (drop 1 data) = field"
    using len field_bytes_take [of data] assms(1) by simp
  show "text_field data len = Val field"
    unfolding text_field_def take by (simp add: len)
  show "bcd_field data len = Val (map (\<lambda>b. bcd ! unat (b AND 0x0f)) field)"
    unfolding bcd_field_def take by (simp add: len)
  show "packed_field data len = (if length field \<le> 3 then Panic IndexOutOfRange
       else Val (0 # group_chars field (3 * ((length field - 1) div 3)) @ replicate (packed_size (length field) - 5) 0))"
    using packed_field_eq [OF take [symmetric] len [symmetric]] assms(2)
    by (simp only: len length_greater_0_conv not_False_eq_True simp_thms)
qed

lemma fru_string_fields:
  assumes "length data < 65536"
  shows "GetFruAreaString data =
    (let field = field_bytes data; t = unat (data ! 0) div 64 in
     if data = [] \<or> length data \<le> field_size data \<or> field = [] then Val []
     else if t = 3 then Val (TrimSpace (string_of_bytes field))
     else if t = 2 then
       (if length field \<le> 3 then Panic IndexOutOfRange
        else Val (TrimSpace (string_of_bytes
          (0 # group_chars field (3 * ((length field - 1) div 3)) @ replicate (packed_size (length field) - 5) 0))))
     else if t = 1 then Val (TrimSpace (map (\<lambda>b. bcd ! unat (b AND 0x0f)) field))
     else Val [])"
proof (cases "data = [] \<or> length data \<le> field_size data")
  case True
  have "of_nat (length data) \<le> (1 + (ucast (data ! 0) AND 0x3f) - 1 :: uint16) \<longleftrightarrow> length data \<le> field_size data"
    using assms by (simp add: word_le_nat_alt unat_low_six field_size_def unsigned_of_nat take_bit_nat_eq_self)
  with True show ?thesis by (auto simp: GetFruAreaString_def Let_def)
next
  case False
  then have "field_size data < length data" by simp
  note run = fru_string_run [OF assms this refl]
  have codes: "drop_bit 6 (data ! 0) = (3 :: byte) \<longleftrightarrow> unat (data ! 0) div 64 = 3"
    "drop_bit 6 (data ! 0) = (2 :: byte) \<longleftrightarrow> unat (data ! 0) div 64 = 2"
    "drop_bit 6 (data ! 0) = (1 :: byte) \<longleftrightarrow> unat (data ! 0) div 64 = 1"
    by (simp_all add: word_unat_eq_iff unat_type_code)
  show ?thesis
  proof (cases "field_bytes data = []")
    case True
    with run show ?thesis by (simp add: Let_def)
  next
    case nonempty: False
    have "(of_nat (length (field_bytes data)) :: uint16) \<noteq> 0"
      using nonempty length_field_bytes [of data] field_size_less [of data]
      by (metis length_0_conv unat_0 unat_of_small le_less_trans less_imp_le_nat)
    then show ?thesis
      unfolding run codes fru_field_values [OF refl nonempty refl] using False nonempty by (simp add: Let_def)
  qed
qed

text \<open>
  C37. What \<open>GetFruAreaString\<close> returns, for every data and type: nothing for an empty or cut
  field; the trimmed text; for BCD one character per byte, that of the low nibble; for a packed
  field a panic up to three bytes, and otherwise only its last group of four characters, behind
  a NUL and in front of the zeros left in the buffer; and nothing for a binary field.
\<close>

theorem GetFruAreaString_fields:
  assumes "length data < 65536"
  shows "GetFruAreaString data =
    (let field = field_bytes data; t = unat (data ! 0) div 64 in
     if data = [] \<or> length data \<le> field_size data \<or> field = [] then Val []
     else if t = 3 then Val (TrimSpace (string_of_bytes field))
     else if t = 2 then
       (if length field \<le> 3 then Panic IndexOutOfRange
        else Val (TrimSpace (string_of_bytes
          (0 # group_chars field (3 * ((length field - 1) div 3)) @ replicate (packed_size (length field) - 5) 0))))
     else if t = 1 then Val (TrimSpace (map (\<lambda>b. bcd ! unat (b AND 0x0f)) field))
     else Val [])"
  using assms by (rule fru_string_fields)

definition text_record :: "byte list" where
  \<comment> \<open>a text field holding \<open>" Intel"\<close> and the end mark behind it\<close>
  "text_record = [0xC6, 0x20, 0x49, 0x6e, 0x74, 0x65, 0x6c, 0xC1]"

lemma GetFruAreaString_fields_witness:
  "GetFruAreaString text_record = Val (TrimSpace '' Intel'')"
proof -
  have "length text_record < 65536" by (simp add: text_record_def)
  moreover have "field_bytes text_record = [0x20, 0x49, 0x6e, 0x74, 0x65, 0x6c]"
    by (simp add: field_bytes_def field_size_def text_record_def)
  moreover have "string_of_bytes [0x20, 0x49, 0x6e, 0x74, 0x65, 0x6c] = '' Intel''"
    by code_simp
  moreover have "field_size text_record = 6" "unat (text_record ! 0) div 64 = 3" "length text_record = 8"
    by (simp_all add: field_size_def text_record_def)
  moreover have "text_record \<noteq> []" by (simp add: text_record_def)
  ultimately show ?thesis
    using GetFruAreaString_fields [of text_record] by (simp add: Let_def)
qed

text \<open>
  C38. Six-bit text does not survive: four characters of the standard, packed into three bytes,
  are a field that panics, and eight packed into six bytes read as a NUL, the last four of
  them and three NULs.
\<close>

theorem packed_text_is_lost:
  assumes "six_bit_char c0" "six_bit_char c1" "six_bit_char c2" "six_bit_char c3"
    and "six_bit_char d0" "six_bit_char d1" "six_bit_char d2" "six_bit_char d3"
    and "\<forall>b \<in> set (packed c0 c1 c2 c3 @ packed d0 d1 d2 d3). b \<noteq> 0 \<and> b \<noteq> 0xFF"
  shows "GetFruAreaString (0x83 # packed c0 c1 c2 c3) = Panic IndexOutOfRange
    \<and> GetFruAreaString (0x86 # packed c0 c1 c2 c3 @ packed d0 d1 d2 d3)
      = Val (string_of_bytes [0, d0, d1, d2, d3, 0, 0, 0])"
proof -
  obtain x y z where c: "packed c0 c1 c2 c3 = [x, y, z]" by (simp add: packed_def)
  obtain u v w where d: "packed d0 d1 d2 d3 = [u, v, w]" by (simp add: packed_def)
  have solid: "x \<noteq> 0" "x \<noteq> 0xFF" "y \<noteq> 0" "y \<noteq> 0xFF" "z \<noteq> 0" "z \<noteq> 0xFF"
    "u \<noteq> 0" "u \<noteq> 0xFF" "v \<noteq> 0" "v \<noteq> 0xFF" "w \<noteq> 0" "w \<noteq> 0xFF"
    using assms(9) by (simp_all add: c d)
  have "field_bytes [0x83, x, y, z] = [x, y, z]" "field_bytes [0x86, x, y, z, u, v, w] = [x, y, z, u, v, w]"
    using solid by (simp_all add: field_bytes_def field_size_def)
  moreover have "unpacked u v w = [d0, d1, d2, d3]"
    by (rule unpacked_packed [OF assms(5-8) d])
  then have "group_chars [x, y, z, u, v, w] 3 = [d0, d1, d2, d3]"
    by (simp add: group_chars_def)
  moreover have "packed_size (Suc (Suc (Suc (Suc (Suc (Suc 0)))))) = 8" by (simp add: packed_size_def)
  moreover have "replicate 3 (0 :: byte) = [0, 0, 0]" by (simp add: numeral_eq_Suc)
  moreover have "TrimSpace (char_of (0 :: nat) # string_of_bytes xs @ [char_of (0 :: nat)])
      = char_of (0 :: nat) # string_of_bytes xs @ [char_of (0 :: nat)]" for xs
    by (rule TrimSpace_solid) (simp_all add: solid_def)
  from this [of "[d0, d1, d2, d3, 0, 0]"]
  have "TrimSpace (string_of_bytes [0, d0, d1, d2, d3, 0, 0, 0]) = string_of_bytes [0, d0, d1, d2, d3, 0, 0, 0]"
    by (simp add: string_of_bytes_def)
  ultimately show ?thesis
    using GetFruAreaString_fields [of "[0x83, x, y, z]"] GetFruAreaString_fields [of "[0x86, x, y, z, u, v, w]"]
    by (simp add: c d Let_def field_size_def)
qed

lemma packed_text_is_lost_witness:
  "GetFruAreaString (0x83 # packed 0x49 0x4e 0x54 0x45) = Panic IndexOutOfRange"
proof -
  have "\<forall>b \<in> set (packed 0x49 0x4e 0x54 0x45 @ packed 0x49 0x4e 0x54 0x45). b \<noteq> 0 \<and> b \<noteq> 0xFF"
    by (simp add: packed_def)
  from packed_text_is_lost [OF _ _ _ _ _ _ _ _ this] show ?thesis by (simp add: six_bit_char_def)
qed

end
