(* ===== verification/Ipmi_Interface.thy ===== *)
theory Ipmi_Interface
  imports Go_Strings
begin

text \<open>
  \<open>ipmi/interface.go\<close>: requests, responses and request descriptions.

  \<open>ParserFormat\<close> is an interface in Go; its implementers are the eleven package-level
  parsers of \<open>ipmi/formats.go\<close>, which are the constructors here. \<open>IsValid\<close> is 0 or 1
  wherever the sources set it.

  One request description shares its bytes with a package variable that is written later
  (\<open>DcmiThermal.Request.Data\<close>, whose slice is copied with the struct); every other one
  owns its bytes. \<open>request_ref\<close> keeps that aliasing: \<open>SharedThermal\<close> is read through the
  package state at the moment of use.
\<close>

record IpmiRequest =
  ReqData :: "byte list"
  Channel :: "16 word"
  Slave :: byte

record IpmiResponse =
  RespData :: "byte list"
  IsValid :: nat

datatype ParserFormat =
    FormatCUPS
  | FormatCUPSIndex
  | FormatNodeManager
  | FormatTemp
  | FormatPECI
  | FormatPMBus
  | FormatPSU
  | FormatSR
  | FormatPolicy
  | FormatDCMIPower
  | FormatSensorReading

datatype request_ref = Owned IpmiRequest | SharedThermal

record RequestDescription =
  Request :: request_ref
  MetricsRoot :: string
  Format :: ParserFormat

text \<open>\<open>IpmiRequest.Clone\<close>: fresh bytes, copied from the receiver's.\<close>

definition Clone :: "IpmiRequest \<Rightarrow> IpmiRequest" where
  "Clone req =
     (let clonedData = replicate (length (ReqData req)) 0;
          n = min (length clonedData) (length (ReqData req));
          clonedData = take n (ReqData req) @ drop n clonedData
      in \<lparr>ReqData = clonedData, Channel = Channel req, Slave = Slave req\<rparr>)"

lemma Clone_eq [simp]: "Clone req = req"
  by (cases req) (simp add: Clone_def Let_def)

definition request :: "byte list \<Rightarrow> IpmiRequest" where
  \<comment> \<open>\<open>IpmiRequest{data, 0x0, 0x0}\<close>\<close>
  "request bs = \<lparr>ReqData = bs, Channel = 0, Slave = 0\<rparr>"

lemma request_sel [simp]:
  "ReqData (request bs) = bs" "Channel (request bs) = 0" "Slave (request bs) = 0"
  by (simp_all add: request_def)

text \<open>The finitely many formats, so that a statement about all of them is decided by cases.\<close>

instantiation ParserFormat :: enum
begin

definition enum_ParserFormat :: "ParserFormat list" where
  "enum_ParserFormat = [FormatCUPS, FormatCUPSIndex, FormatNodeManager, FormatTemp, FormatPECI,
     FormatPMBus, FormatPSU, FormatSR, FormatPolicy, FormatDCMIPower, FormatSensorReading]"

definition enum_all_ParserFormat :: "(ParserFormat \<Rightarrow> bool) \<Rightarrow> bool" where
  "enum_all_ParserFormat P = list_all P Enum.enum"

definition enum_ex_ParserFormat :: "(ParserFormat \<Rightarrow> bool) \<Rightarrow> bool" where
  "enum_ex_ParserFormat P = list_ex P Enum.enum"

instance
proof
  show univ: "(UNIV :: ParserFormat set) = set enum_class.enum"
    by (auto simp: enum_ParserFormat_def intro: ParserFormat.exhaust)
  show "distinct (enum_class.enum :: ParserFormat list)"
    by (simp add: enum_ParserFormat_def)
  show "enum_class.enum_all P \<longleftrightarrow> Ball UNIV P" for P :: "ParserFormat \<Rightarrow> bool"
    by (simp add: enum_all_ParserFormat_def list_all_iff flip: univ)
  show "enum_class.enum_ex P \<longleftrightarrow> Bex UNIV P" for P :: "ParserFormat \<Rightarrow> bool"
    by (simp add: enum_ex_ParserFormat_def list_ex_iff flip: univ)
qed

end

text \<open>
  A request every backend can send: the network function and the command are there, and it
  fits the buffers of the in-band driver.
\<close>

definition good_request :: "IpmiRequest \<Rightarrow> bool" where
  "good_request r \<longleftrightarrow> 2 \<le> length (ReqData r) \<and> length (ReqData r) \<le> 1024"

end
