(* ===== verification/Formats.thy ===== *)
theory Formats
  imports Ipmi_Interface "HOL-Library.Multiset"
begin

text \<open>
  \<open>ipmi/formats.go\<close>: validation of a response and the eleven parsers.

  \<open>Validate\<close> is the method every parser inherits from \<open>GenericValidator\<close>; \<open>GetMetrics\<close>
  and \<open>Parse\<close> dispatch on the format as Go's dynamic dispatch does. A parser reads the
  response without checking its length, so reading past the end is a panic of the model.
  A literal map that is ranged over (\<open>names\<close>) is the association list of the literal; Go
  fixes no order, and \<open>for_names_permutes\<close> shows that none is needed.

  The locale \<open>parser_format\<close> states the contract of the Go interface \<open>ParserFormat\<close> that
  the collector relies on: a valid response of the format's full length is parsed without a
  panic, into a map that holds every advertised metric.
\<close>

section \<open>Validation and reading\<close>

definition Validate :: "IpmiResponse \<Rightarrow> unit go" where
  "Validate response =
     (if IsValid response = 1
      then if 0 < length (RespData response)
           then bind_go (idx (RespData response) 0) (\<lambda>code.
                  if code = 0 then Val () else Err (UnexpectedErrorCode code))
           else Err ZeroLengthResponse
      else Val ())"

definition GetUint16FromByteArray :: "byte list \<Rightarrow> nat \<Rightarrow> uint16 go" where
  "GetUint16FromByteArray data offset =
     bind_go (idx data (offset + 1)) (\<lambda>h.
     bind_go (idx data offset) (\<lambda>l.
     Val (push_bit 8 (ucast h) OR ucast l)))"

definition read_byte :: "byte list \<Rightarrow> nat \<Rightarrow> uint16 go" where
  \<comment> \<open>\<open>uint16(data[i])\<close>\<close>
  "read_byte data i = bind_go (idx data i) (\<lambda>b. Val (ucast b))"

text \<open>\<open>for metricName, i := range names { m[metricName] = rd(i) }\<close>\<close>

fun for_names :: "(string \<times> nat) list \<Rightarrow> (nat \<Rightarrow> uint16 go) \<Rightarrow> (string, uint16) gomap
    \<Rightarrow> (string, uint16) gomap go" where
  "for_names [] rd m = Val m"
| "for_names ((k, i) # rest) rd m =
     bind_go (rd i) (\<lambda>v. for_names rest rd (AList.update k v m))"

section \<open>The parsers\<close>

definition names_CUPS :: "(string \<times> nat) list" where
  "names_CUPS = [(''cpu_bandwith'', 4), (''memory_bandwith'', 6), (''io_bandwith'', 8)]"

definition Parse_CUPS :: "IpmiResponse \<Rightarrow> (string, uint16) gomap go" where
  "Parse_CUPS response = for_names names_CUPS
     (\<lambda>startIndex. if IsValid response = 1
        then GetUint16FromByteArray (RespData response) startIndex else Val 0xFFFF) []"

definition Parse_CUPSIndex :: "IpmiResponse \<Rightarrow> (string, uint16) gomap go" where
  "Parse_CUPSIndex response =
     bind_go (GetUint16FromByteArray (RespData response) 4) (\<lambda>v. Val (AList.update ''index'' v []))"

definition names_NodeManager :: "(string \<times> nat) list" where
  "names_NodeManager = [(''cur'', 4), (''min'', 6), (''max'', 8), (''avg'', 10)]"

definition Parse_NodeManager :: "IpmiResponse \<Rightarrow> (string, uint16) gomap go" where
  "Parse_NodeManager response = for_names names_NodeManager
     (\<lambda>startIndex. if IsValid response = 1
        then GetUint16FromByteArray (RespData response) startIndex else Val 0xFFFF) []"

definition dimm_name :: "nat \<Rightarrow> string" where
  "dimm_name i = ''memory/dimm/'' @ Dec i"

definition cpu_names :: "string list" where
  "cpu_names = [''cpu/0'', ''cpu/1'', ''cpu/2'', ''cpu/3'']"

text \<open>
  \<open>m["cpu/k"] = \<dots>\<close> for the four sockets, then \<open>for i := 8; i < len(Data); i++\<close> over
  the memory modules.
\<close>

definition Parse_Temp :: "IpmiResponse \<Rightarrow> (string, uint16) gomap go" where
  "Parse_Temp response =
     (let data = RespData response;
          rd = (\<lambda>i. if IsValid response = 1 then read_byte data i else Val 0xFFFF)
      in bind_go (for_names (zip cpu_names [4, 5, 6, 7]) rd []) (\<lambda>m.
         for_names (map (\<lambda>i. (dimm_name (i - 8), i)) [8 ..< length data]) rd m))"

definition Parse_PECI :: "IpmiResponse \<Rightarrow> (string, uint16) gomap go" where
  "Parse_PECI response =
     (if IsValid response = 1
      then bind_go (read_byte (RespData response) 6) (\<lambda>offset.
           bind_go (GetUint16FromByteArray (RespData response) 7) (\<lambda>tj.
           Val (AList.update [] tj (AList.update ''margin_offset'' offset []))))
      else Val (AList.update [] 0xFFFF (AList.update ''margin_offset'' 0xFFFF [])))"

definition names_PMBus :: "(string \<times> nat) list" where
  "names_PMBus = [(''VR0'', 4), (''VR1'', 6), (''VR2'', 8), (''VR3'', 10), (''VR4'', 12),
     (''VR5'', 14)]"

definition Parse_PMBus :: "IpmiResponse \<Rightarrow> (string, uint16) gomap go" where
  "Parse_PMBus response =
     (if length (RespData response) < 14
      then for_names names_PMBus (\<lambda>_. Val 0xFFFE) []
      else for_names names_PMBus
             (\<lambda>startIndex. if IsValid response = 1
                then GetUint16FromByteArray (RespData response) startIndex else Val 0xFFFF) [])"

definition Parse_PSU :: "IpmiResponse \<Rightarrow> (string, uint16) gomap go" where
  "Parse_PSU response =
     bind_go (GetUint16FromByteArray (RespData response) 4) (\<lambda>v0.
     bind_go (GetUint16FromByteArray (RespData response) 6) (\<lambda>v1.
     Val (AList.update ''1'' v1 (AList.update ''0'' v0 []))))"

definition Parse_SR :: "IpmiResponse \<Rightarrow> (string, uint16) gomap go" where
  "Parse_SR response = bind_go (read_byte (RespData response) 1) (\<lambda>v. Val (AList.update [] v []))"

definition Parse_Policy :: "IpmiResponse \<Rightarrow> (string, uint16) gomap go" where
  "Parse_Policy response =
     bind_go (GetUint16FromByteArray (RespData response) 13) (\<lambda>v.
     Val (AList.update ''power_limit'' v []))"

definition names_DCMIPower :: "(string \<times> nat) list" where
  "names_DCMIPower = [(''cur'', 2), (''min'', 4), (''max'', 6), (''avg'', 8)]"

definition Parse_DCMIPower :: "IpmiResponse \<Rightarrow> (string, uint16) gomap go" where
  "Parse_DCMIPower response = for_names names_DCMIPower
     (\<lambda>startIndex. if IsValid response = 1
        then GetUint16FromByteArray (RespData response) startIndex else Val 0xFFFF) []"

definition Parse_Sensor :: "IpmiResponse \<Rightarrow> (string, uint16) gomap go" where
  "Parse_Sensor response =
     bind_go (read_byte (RespData response) 1) (\<lambda>v. Val (AList.update ''cur'' v []))"

section \<open>Dispatch\<close>

definition GetMetrics_CUPS :: "string list" where
  "GetMetrics_CUPS = [''cpu_bandwith'', ''memory_bandwith'', ''io_bandwith'']"

definition GetMetrics_CUPSIndex :: "string list" where
  "GetMetrics_CUPSIndex = [''index'']"

definition GetMetrics_NodeManager :: "string list" where
  "GetMetrics_NodeManager = [''cur'', ''min'', ''max'', ''avg'']"

definition GetMetrics_Temp :: "string list" where
  "GetMetrics_Temp = cpu_names @ map dimm_name [0 ..< 64]"

definition GetMetrics_PECI :: "string list" where
  "GetMetrics_PECI = [[], ''margin_offset'']"

definition GetMetrics_PMBus :: "string list" where
  "GetMetrics_PMBus = [''VR0'', ''VR1'', ''VR2'', ''VR3'', ''VR4'', ''VR5'']"

definition GetMetrics_PSU :: "string list" where
  "GetMetrics_PSU = [''0'', ''1'']"

definition GetMetrics_SR :: "string list" where
  "GetMetrics_SR = [[]]"

definition GetMetrics_Policy :: "string list" where
  "GetMetrics_Policy = [''power_limit'']"

definition GetMetrics_DCMIPower :: "string list" where
  "GetMetrics_DCMIPower = [''cur'', ''min'', ''max'', ''avg'']"

definition GetMetrics_Sensor :: "string list" where
  "GetMetrics_Sensor = [''cur'']"

lemmas metric_lists [simp] = GetMetrics_CUPS_def GetMetrics_CUPSIndex_def GetMetrics_NodeManager_def
  GetMetrics_Temp_def GetMetrics_PECI_def GetMetrics_PMBus_def
  GetMetrics_PSU_def GetMetrics_SR_def GetMetrics_Policy_def
  GetMetrics_DCMIPower_def GetMetrics_Sensor_def

primrec GetMetrics :: "ParserFormat \<Rightarrow> string list" where
  "GetMetrics FormatCUPS = GetMetrics_CUPS"
| "GetMetrics FormatCUPSIndex = GetMetrics_CUPSIndex"
| "GetMetrics FormatNodeManager = GetMetrics_NodeManager"
| "GetMetrics FormatTemp = GetMetrics_Temp"
| "GetMetrics FormatPECI = GetMetrics_PECI"
| "GetMetrics FormatPMBus = GetMetrics_PMBus"
| "GetMetrics FormatPSU = GetMetrics_PSU"
| "GetMetrics FormatSR = GetMetrics_SR"
| "GetMetrics FormatPolicy = GetMetrics_Policy"
| "GetMetrics FormatDCMIPower = GetMetrics_DCMIPower"
| "GetMetrics FormatSensorReading = GetMetrics_Sensor"

primrec Parse :: "ParserFormat \<Rightarrow> IpmiResponse \<Rightarrow> (string, uint16) gomap go" where
  "Parse FormatCUPS = Parse_CUPS"
| "Parse FormatCUPSIndex = Parse_CUPSIndex"
| "Parse FormatNodeManager = Parse_NodeManager"
| "Parse FormatTemp = Parse_Temp"
| "Parse FormatPECI = Parse_PECI"
| "Parse FormatPMBus = Parse_PMBus"
| "Parse FormatPSU = Parse_PSU"
| "Parse FormatSR = Parse_SR"
| "Parse FormatPolicy = Parse_Policy"
| "Parse FormatDCMIPower = Parse_DCMIPower"
| "Parse FormatSensorReading = Parse_Sensor"

section \<open>Reading words and filling maps\<close>

lemma GetUint16_Val [simp]:
  "offset + 1 < length data \<Longrightarrow>
     GetUint16FromByteArray data offset = Val (le16 (data ! offset) (data ! (offset + 1)))"
  by (simp add: GetUint16FromByteArray_def le16_def)

lemma GetUint16_Panic [simp]:
  "length data \<le> offset + 1 \<Longrightarrow> GetUint16FromByteArray data offset = Panic IndexOutOfRange"
  by (simp add: GetUint16FromByteArray_def)

lemma read_byte_Val [simp]: "i < length data \<Longrightarrow> read_byte data i = Val (ucast (data ! i))"
  by (simp add: read_byte_def)

lemma read_byte_Panic [simp]: "length data \<le> i \<Longrightarrow> read_byte data i = Panic IndexOutOfRange"
  by (simp add: read_byte_def)

lemma is_panic_GetUint16 [simp]:
  "is_panic (GetUint16FromByteArray data offset) \<longleftrightarrow> length data \<le> offset + 1"
  by (cases "offset + 1 < length data") simp_all

lemma is_panic_read_byte [simp]: "is_panic (read_byte data i) \<longleftrightarrow> length data \<le> i"
  by (cases "i < length data") simp_all

lemma for_names_Val:
  "(\<And>k i. (k, i) \<in> set names \<Longrightarrow> rd i = Val (v i)) \<Longrightarrow>
     for_names names rd m = Val (fold (\<lambda>(k, i). AList.update k (v i)) names m)"
proof (induction names arbitrary: m)
  case Nil
  then show ?case by simp
next
  case (Cons ki names)
  then have "rd (snd ki) = Val (v (snd ki))" by (cases ki) auto
  with Cons show ?case by (cases ki) auto
qed

lemma for_names_ValD:
  "for_names names rd m = Val m' \<Longrightarrow> (k, i) \<in> set names \<Longrightarrow> \<exists>v. rd i = Val v"
  by (induction names rd m rule: for_names.induct) (auto simp: bind_go_eq_Val)

lemma for_names_keys:
  "for_names names rd m = Val m' \<Longrightarrow> fst ` set m' = fst ` set names \<union> fst ` set m"
proof (induction names rd m rule: for_names.induct)
  case (1 rd m)
  then show ?case by simp
next
  case (2 k i rest rd m)
  then obtain v where "rd i = Val v" and "for_names rest rd (AList.update k v m) = Val m'"
    by (auto simp: bind_go_eq_Val)
  with "2.IH" have "fst ` set m' = fst ` set rest \<union> insert k (fst ` set m)"
    by (metis keys_update)
  then show ?case by (simp add: Un_commute)
qed

lemma for_names_distinct:
  "for_names names rd m = Val m' \<Longrightarrow> distinct (map fst m) \<Longrightarrow> distinct (map fst m')"
  by (induction names rd m rule: for_names.induct) (auto simp: bind_go_eq_Val distinct_update)

lemma for_names_lookup:
  "for_names names rd m = Val m' \<Longrightarrow> distinct (map fst names) \<Longrightarrow>
     map_of m' k = (case map_of names k of None \<Rightarrow> map_of m k
                    | Some i \<Rightarrow> (case rd i of Val v \<Rightarrow> Some v | _ \<Rightarrow> None))"
proof (induction names rd m rule: for_names.induct)
  case (1 rd m)
  then show ?case by simp
next
  case (2 k0 i rest rd m)
  then obtain v where "rd i = Val v" and "for_names rest rd (AList.update k0 v m) = Val m'"
    by (auto simp: bind_go_eq_Val)
  moreover from "2.prems" have "map_of rest k0 = None"
    by (auto simp: map_of_eq_None_iff)
  ultimately show ?case
    using 2 by (auto split: option.splits)
qed

lemma for_names_panic_iff:
  "(\<And>k i. (k, i) \<in> set names \<Longrightarrow> \<not> (\<exists>e. rd i = Err e)) \<Longrightarrow>
     is_panic (for_names names rd m) \<longleftrightarrow> (\<exists>(k, i) \<in> set names. is_panic (rd i))"
proof (induction names rd m rule: for_names.induct)
  case (1 rd m)
  then show ?case by simp
next
  case (2 k i rest rd m)
  then show ?case by (cases "rd i") auto
qed

lemma GetUint16_not_Err [simp]: "GetUint16FromByteArray data offset \<noteq> Err e"
  by (cases "offset + 1 < length data") simp_all

lemma read_byte_not_Err [simp]: "read_byte data i \<noteq> Err e"
  by (cases "i < length data") simp_all

text \<open>Ranging over the literal in another order reads the same map, or panics too.\<close>

lemma for_names_permutes:
  assumes "distinct (map fst names)" and "mset names' = mset names"
    and "for_names names rd [] = Val m"
  shows "\<exists>m'. for_names names' rd [] = Val m' \<and> map_of m' = map_of m"
proof -
  have set: "set names' = set names" using assms(2) by (metis set_mset_mset)
  have dist: "distinct (map fst names')"
    using assms(1,2) by (metis mset_eq_imp_distinct_iff mset_map)
  have "\<exists>v. rd i = Val v" if "(k, i) \<in> set names'" for k i
    using for_names_ValD [OF assms(3)] that set by auto
  then have "\<And>k i. (k, i) \<in> set names' \<Longrightarrow> rd i = Val (case rd i of Val v \<Rightarrow> v | _ \<Rightarrow> 0)"
    by fastforce
  then obtain m' where m': "for_names names' rd [] = Val m'"
    using for_names_Val [of names' rd "\<lambda>i. case rd i of Val v \<Rightarrow> v | _ \<Rightarrow> 0"] by blast
  have "map_of names' = map_of names"
    using dist assms(1) set by (simp add: map_of_inject_set)
  then have "map_of m' = map_of m"
    using for_names_lookup [OF m' dist] for_names_lookup [OF assms(3,1)] by auto
  with m' show ?thesis by blast
qed

section \<open>The wire layouts\<close>

text \<open>
  \<open>layout\<close> says, per format, which response bytes hold which metric, without the guards and the loops
  of the parsers. For CUPS, NodeManager, Temp, PECI and DCMIPower the rows are those of the comments of
  \<open>formats.go\<close>, which count from one and include the completion code. For PMBus the row is that of
  \<open>TestPMBusParsing\<close>; the comment, which has the data in bytes 9:N, contradicts both the test and the
  code. For CUPSIndex, PSU, SR, Policy and Sensor neither a comment nor a test gives an offset: these
  rows record which bytes the program reads.
\<close>

datatype field = Byte nat | Word16 nat

primrec decode_field :: "byte list \<Rightarrow> field \<Rightarrow> uint16" where
  "decode_field data (Byte i) = ucast (data ! i)"
| "decode_field data (Word16 i) = le16 (data ! i) (data ! (i + 1))"

primrec layout :: "ParserFormat \<Rightarrow> (string \<times> field) list" where
  "layout FormatCUPS =
     [(''cpu_bandwith'', Word16 4), (''memory_bandwith'', Word16 6), (''io_bandwith'', Word16 8)]"
| "layout FormatCUPSIndex = [(''index'', Word16 4)]"
| "layout FormatNodeManager =
     [(''cur'', Word16 4), (''min'', Word16 6), (''max'', Word16 8), (''avg'', Word16 10)]"
| "layout FormatTemp =
     [(''cpu/0'', Byte 4), (''cpu/1'', Byte 5), (''cpu/2'', Byte 6), (''cpu/3'', Byte 7)]
     @ map (\<lambda>i. (dimm_name i, Byte (8 + i))) [0 ..< 64]"
| "layout FormatPECI = [([], Word16 7), (''margin_offset'', Byte 6)]"
| "layout FormatPMBus =
     [(''VR0'', Word16 4), (''VR1'', Word16 6), (''VR2'', Word16 8), (''VR3'', Word16 10),
      (''VR4'', Word16 12), (''VR5'', Word16 14)]"
| "layout FormatPSU = [(''0'', Word16 4), (''1'', Word16 6)]"
| "layout FormatSR = [([], Byte 1)]"
| "layout FormatPolicy = [(''power_limit'', Word16 13)]"
| "layout FormatDCMIPower =
     [(''cur'', Word16 2), (''min'', Word16 4), (''max'', Word16 6), (''avg'', Word16 8)]"
| "layout FormatSensorReading = [(''cur'', Byte 1)]"

primrec full_length :: "ParserFormat \<Rightarrow> nat" where
  "full_length FormatCUPS = 10"
| "full_length FormatCUPSIndex = 6"
| "full_length FormatNodeManager = 12"
| "full_length FormatTemp = 72"
| "full_length FormatPECI = 9"
| "full_length FormatPMBus = 16"
| "full_length FormatPSU = 8"
| "full_length FormatSR = 2"
| "full_length FormatPolicy = 15"
| "full_length FormatDCMIPower = 10"
| "full_length FormatSensorReading = 2"

section \<open>Facts about single parsers\<close>

lemmas parse_defs = Parse_CUPS_def Parse_CUPSIndex_def Parse_NodeManager_def Parse_PECI_def
  Parse_PMBus_def Parse_PSU_def Parse_SR_def Parse_Policy_def Parse_DCMIPower_def Parse_Sensor_def
  names_CUPS_def names_NodeManager_def names_PMBus_def names_DCMIPower_def

lemma dimm_name_inject [simp]: "dimm_name i = dimm_name j \<longleftrightarrow> i = j"
  by (simp add: dimm_name_def)

lemma dimm_name_not_cpu [simp]: "dimm_name i \<notin> set cpu_names"
  by (simp add: dimm_name_def cpu_names_def)

lemma distinct_cpu_names: "distinct cpu_names"
  by (simp add: cpu_names_def)

lemma distinct_dimm_names:
  "distinct (map fst (map (\<lambda>i. (dimm_name (i - 8), i)) [8 ..< n]))"
  by (auto simp: distinct_map inj_on_def comp_def)

lemma map_of_dimm:
  "8 \<le> i \<Longrightarrow> i < n \<Longrightarrow>
     map_of (map (\<lambda>i. (dimm_name (i - 8), i)) [8 ..< n]) (dimm_name (i - 8)) = Some i"
  by (rule map_of_is_SomeI) (use distinct_dimm_names [of n] in \<open>auto simp: comp_def\<close>)

lemma map_of_dimm_cpu:
  "c \<in> set cpu_names \<Longrightarrow> map_of (map (\<lambda>i. (dimm_name (i - 8), i)) [8 ..< n]) c = None"
  using dimm_name_not_cpu by (auto simp: map_of_eq_None_iff)

text \<open>The temperature parser: one entry per socket and one per byte after the eighth.\<close>

lemma Parse_Temp_Val:
  assumes "IsValid r = 1" and "8 \<le> length (RespData r)"
  shows "\<exists>m. Parse_Temp r = Val m \<and> distinct (map fst m)
     \<and> map_of m ''cpu/0'' = Some (ucast (RespData r ! 4))
     \<and> map_of m ''cpu/1'' = Some (ucast (RespData r ! 5))
     \<and> map_of m ''cpu/2'' = Some (ucast (RespData r ! 6))
     \<and> map_of m ''cpu/3'' = Some (ucast (RespData r ! 7))
     \<and> (\<forall>i. 8 \<le> i \<and> i < length (RespData r) \<longrightarrow>
          map_of m (dimm_name (i - 8)) = Some (ucast (RespData r ! i)))"
proof -
  let ?data = "RespData r"
  let ?rd = "read_byte ?data"
  let ?names = "map (\<lambda>i. (dimm_name (i - 8), i)) [8 ..< length ?data]"
  define m0 where "m0 = fold (\<lambda>(k, i). AList.update k (ucast (?data ! i) :: uint16))
     (zip cpu_names [4, 5, 6, 7]) []"
  have m0: "for_names (zip cpu_names [4, 5, 6, 7]) ?rd [] = Val m0"
    using assms(2) unfolding m0_def by (intro for_names_Val) (auto simp: cpu_names_def)
  have "\<And>k i. (k, i) \<in> set ?names \<Longrightarrow> ?rd i = Val (ucast (?data ! i))" by auto
  then obtain m where m: "for_names ?names ?rd m0 = Val m"
    using for_names_Val [of ?names ?rd "\<lambda>i. ucast (?data ! i)" m0] by blast
  have look: "map_of m k = (case map_of ?names k of None \<Rightarrow> map_of m0 k
      | Some i \<Rightarrow> (case ?rd i of Val v \<Rightarrow> Some v | _ \<Rightarrow> None))" for k
    using m distinct_dimm_names by (rule for_names_lookup)
  have run: "Parse_Temp r = Val m"
    using assms(1) m0 m by (simp add: Parse_Temp_def Let_def)
  have "distinct (map fst m)"
    using for_names_distinct [OF m for_names_distinct [OF m0]] by simp
  moreover have "map_of m c = map_of m0 c" if "c \<in> set cpu_names" for c
    using look [of c] map_of_dimm_cpu [OF that] by simp
  moreover have "map_of m (dimm_name (i - 8)) = Some (ucast (?data ! i))"
    if "8 \<le> i" "i < length ?data" for i
    using look [of "dimm_name (i - 8)"] map_of_dimm [OF that] that by simp
  moreover have "map_of m0 ''cpu/0'' = Some (ucast (?data ! 4))"
    "map_of m0 ''cpu/1'' = Some (ucast (?data ! 5))"
    "map_of m0 ''cpu/2'' = Some (ucast (?data ! 6))"
    "map_of m0 ''cpu/3'' = Some (ucast (?data ! 7))"
    by (simp_all add: m0_def cpu_names_def)
  ultimately show ?thesis using run by (simp add: cpu_names_def)
qed

lemma Parse_Temp_panic_iff:
  "IsValid r = 1 \<Longrightarrow> is_panic (Parse_Temp r) \<longleftrightarrow> length (RespData r) < 8"
proof (cases "length (RespData r) < 8")
  case True
  assume "IsValid r = 1"
  moreover have "is_panic (for_names (zip cpu_names [4, 5, 6, 7]) (read_byte (RespData r)) [])"
    using True by (subst for_names_panic_iff) (auto simp: cpu_names_def)
  ultimately show ?thesis
    using True by (simp add: Parse_Temp_def Let_def bind_go_panic_iff)
next
  case False
  assume "IsValid r = 1"
  with False Parse_Temp_Val [of r] show ?thesis by auto
qed

lemma Parse_Temp_invalid:
  assumes "IsValid r \<noteq> 1"
  shows "\<exists>m. Parse_Temp r = Val m \<and> (\<forall>v \<in> ran (map_of m). v = 0xFFFF)"
proof -
  let ?names = "map (\<lambda>i. (dimm_name (i - 8), i)) [8 ..< length (RespData r)]"
  let ?rd = "\<lambda>_ :: nat. Val 0xFFFF :: uint16 go"
  obtain m0 where m0: "for_names (zip cpu_names [4, 5, 6, 7]) ?rd [] = Val m0"
    using for_names_Val [of "zip cpu_names [4, 5, 6, 7]" ?rd "\<lambda>_. 0xFFFF" "[]"] by blast
  obtain m where m: "for_names ?names ?rd m0 = Val m"
    using for_names_Val [of ?names ?rd "\<lambda>_. 0xFFFF" m0] by blast
  have "distinct (map fst (zip cpu_names [4 :: nat, 5, 6, 7]))"
    by (simp add: cpu_names_def)
  note look = for_names_lookup [OF m distinct_dimm_names] for_names_lookup [OF m0 this]
  have "Parse_Temp r = Val m"
    using assms m0 m by (simp add: Parse_Temp_def Let_def)
  moreover have "v = 0xFFFF" if "map_of m k = Some v" for k v
    using that look by (auto split: option.splits)
  ultimately show ?thesis by (auto simp: ran_def)
qed

section \<open>All formats\<close>

lemma layout_keys: "map fst (layout f) = GetMetrics f"
  by (cases f) (simp_all add: cpu_names_def comp_def)

text \<open>
  The test vectors of \<open>formats_test.go\<close>, read through the tables: CUPS, NodeManager, PECI, PMBus and
  the temperatures, of which the test expects the bytes from the fifth on in the order of the metrics.
\<close>

definition layout_values :: "ParserFormat \<Rightarrow> byte list \<Rightarrow> (string \<times> uint16) list" where
  "layout_values f data = map (\<lambda>(k, fld). (k, decode_field data fld)) (layout f)"

lemma layout_test_vectors:
  "layout_values FormatCUPS [0x00, 0x57, 0x01, 0x00, 0x64, 0x00, 0x50, 0x00, 0x00, 0x01] =
     [(''cpu_bandwith'', 100), (''memory_bandwith'', 80), (''io_bandwith'', 256)]"
  "layout_values FormatNodeManager [0x00, 0x57, 0x01, 0x00, 0x69, 0x00, 0x03, 0x00, 0x7d, 0x01, 0x6E, 0x00,
       0xC7, 0x3F, 0x05, 0x56, 0xB9, 0xAD, 0x0C, 0x00, 0x50] =
     [(''cur'', 105), (''min'', 3), (''max'', 381), (''avg'', 110)]"
  "layout_values FormatPECI [0x00, 0x57, 0x01, 0x00, 0x40, 0x00, 0x0A, 0x59, 0x00] =
     [([], 89), (''margin_offset'', 10)]"
  "layout_values FormatPMBus [0x00, 0x57, 0x01, 0x00, 0x25, 0x00, 0x2A, 0x00, 0x1F, 0x00, 0x21, 0x00,
       0x20, 0x00, 0x1F, 0x00] =
     [(''VR0'', 37), (''VR1'', 42), (''VR2'', 31), (''VR3'', 33), (''VR4'', 32), (''VR5'', 31)]"
  by (simp_all add: layout_values_def le16_def)

lemma layout_Temp_in_order:
  "map snd (layout_values FormatTemp data) = map (\<lambda>i. ucast (data ! (i + 4))) [0 ..< 68]"
proof -
  have "[0 ..< 68] = [0 ..< 4] @ [4 ..< 68 :: nat]" by (simp add: upt_add_eq_append [of 0 4 64, simplified])
  also have "[4 ..< 68] = map (\<lambda>i. i + 4) [0 ..< 64 :: nat]" by (simp add: map_add_upt)
  also have "[0 ..< 4] = [0, 1, 2, 3 :: nat]" by (simp add: upt_rec)
  finally have "[0 ..< 68] = [0, 1, 2, 3] @ map (\<lambda>i. i + 4) [0 ..< 64 :: nat]" .
  then show ?thesis by (simp add: layout_values_def comp_def add.commute)
qed

lemma GetMetrics_distinct: "distinct (GetMetrics f)"
  using distinct_cpu_names dimm_name_not_cpu
  by (cases f) (auto simp: distinct_map inj_on_def)

lemma Parse_distinct:
  assumes "Parse f r = Val m"
  shows "distinct (map fst m)"
proof (cases f)
  case FormatTemp
  with assms show ?thesis
    by (auto simp: Parse_Temp_def Let_def bind_go_eq_Val split: if_splits
        dest!: for_names_distinct)
qed (use assms in \<open>auto simp: parse_defs bind_go_eq_Val distinct_update split: if_splits\<close>)

lemma Parse_layout_short:
  assumes "IsValid r = 1" and "full_length f \<le> length (RespData r)" and "f \<noteq> FormatTemp"
  shows "\<exists>m. Parse f r = Val m \<and>
     (\<forall>(k, fld) \<in> set (layout f). map_of m k = Some (decode_field (RespData r) fld))"
  using assms by (cases f) (simp_all add: parse_defs)

lemma Parse_layout_Temp:
  assumes "IsValid r = 1" and "72 \<le> length (RespData r)"
  shows "\<exists>m. Parse FormatTemp r = Val m \<and>
     (\<forall>(k, fld) \<in> set (layout FormatTemp). map_of m k = Some (decode_field (RespData r) fld))"
proof -
  from assms obtain m where m: "Parse_Temp r = Val m"
    "map_of m ''cpu/0'' = Some (ucast (RespData r ! 4))"
    "map_of m ''cpu/1'' = Some (ucast (RespData r ! 5))"
    "map_of m ''cpu/2'' = Some (ucast (RespData r ! 6))"
    "map_of m ''cpu/3'' = Some (ucast (RespData r ! 7))"
    and dimm: "\<And>i. 8 \<le> i \<Longrightarrow> i < length (RespData r) \<Longrightarrow>
      map_of m (dimm_name (i - 8)) = Some (ucast (RespData r ! i))"
    using Parse_Temp_Val [of r] by fastforce
  have "map_of m (dimm_name i) = Some (ucast (RespData r ! (8 + i)))" if "i < 64" for i
    using dimm [of "8 + i"] that assms(2) by simp
  with m show ?thesis by auto
qed

lemma Parse_layout:
  assumes "IsValid r = 1" and "full_length f \<le> length (RespData r)"
  shows "\<exists>m. Parse f r = Val m \<and> distinct (map fst m) \<and>
     (\<forall>(k, fld) \<in> set (layout f). map_of m k = Some (decode_field (RespData r) fld))"
proof (cases "f = FormatTemp")
  case True
  with assms Parse_layout_Temp [of r] show ?thesis by (metis Parse_distinct full_length.simps(4))
next
  case False
  with assms Parse_layout_short [of r f] show ?thesis by (blast dest: Parse_distinct)
qed

text \<open>
  C18: a valid response of at least the format's full length is parsed without a panic, and
  every metric of the format's wire layout holds the bytes the layout assigns to it: the
  parsers implement the layout tables. The tables give the values that the repository's tests
  expect (\<open>layout_test_vectors\<close>), except that \<open>TestNodeManagerParsing\<close> asks for the current value
  under the empty name, where the code has \<open>cur\<close>; and the comment of the PMBus parser gives other
  bytes than its code and its test.
\<close>

theorem Parse_matches_layout:
  assumes "IsValid r = 1" and "full_length f \<le> length (RespData r)"
  shows "\<exists>m. Parse f r = Val m \<and> distinct (map fst m) \<and>
     (\<forall>(k, fld) \<in> set (layout f). map_of m k = Some (decode_field (RespData r) fld))"
  using assms by (rule Parse_layout)

definition sample_cups :: IpmiResponse where
  \<comment> \<open>the response of \<open>TestCUPSParsing\<close>\<close>
  "sample_cups = \<lparr>RespData = [0x00, 0x57, 0x01, 0x00, 0x64, 0x00, 0x50, 0x00, 0x00, 0x01],
     IsValid = 1\<rparr>"

theorem Parse_matches_layout_witness:
  "\<exists>m. Parse FormatCUPS sample_cups = Val m \<and> map_of m ''cpu_bandwith'' = Some 100
     \<and> map_of m ''memory_bandwith'' = Some 80 \<and> map_of m ''io_bandwith'' = Some 256"
proof -
  have "IsValid sample_cups = 1" and "full_length FormatCUPS \<le> length (RespData sample_cups)"
    by (simp_all add: sample_cups_def)
  from Parse_matches_layout [OF this] show ?thesis
    by (auto simp: sample_cups_def le16_def)
qed

text \<open>
  C19: a parser panics on a valid response exactly when the response is shorter than the
  format's full length, with two exceptions: the temperature parser accepts any number of
  memory modules, and the voltage-regulator parser, whose own length test compares with 14
  although it reads up to byte 15, panics on exactly the lengths 14 and 15.
\<close>

theorem Parse_panic_iff:
  assumes "IsValid r = 1"
  shows "is_panic (Parse f r) \<longleftrightarrow>
     (let n = length (RespData r) in
      if f = FormatTemp then n < 8
      else if f = FormatPMBus then 14 \<le> n \<and> n < 16
      else n < full_length f)"
proof (cases "f = FormatTemp \<or> f = FormatPMBus")
  case False
  show ?thesis
  proof (cases "full_length f \<le> length (RespData r)")
    case True
    with assms False Parse_layout_short [of r f] show ?thesis by (auto simp: Let_def)
  next
    case short: False
    have "is_panic (Parse f r)"
      using False short assms
      by (cases f) (auto simp: parse_defs bind_go_panic_iff GetUint16FromByteArray_def read_byte_def)
    with False short show ?thesis by (simp add: Let_def)
  qed
next
  case True
  then show ?thesis
  proof
    assume "f = FormatTemp"
    with assms show ?thesis by (simp add: Parse_Temp_panic_iff Let_def)
  next
    assume "f = FormatPMBus"
    with assms show ?thesis
      by (auto simp: parse_defs Let_def bind_go_panic_iff GetUint16FromByteArray_def)
  qed
qed

theorem Parse_panic_iff_witness:
  "is_panic (Parse FormatPMBus \<lparr>RespData = replicate 15 0, IsValid = 1\<rparr>)"
  using Parse_panic_iff [of "\<lparr>RespData = replicate 15 0, IsValid = 1\<rparr>" FormatPMBus]
  by simp

text \<open>
  The two reactions to a response the device marked invalid. Five parsers return the
  placeholder 0xFFFF for every metric, whatever the bytes.
\<close>

theorem Parse_invalid_placeholder:
  assumes "IsValid r \<noteq> 1"
    and "f \<in> {FormatCUPS, FormatNodeManager, FormatTemp, FormatPECI, FormatDCMIPower}"
  shows "\<exists>m. Parse f r = Val m \<and> ran (map_of m) \<subseteq> {0xFFFF} \<and>
     (f \<noteq> FormatTemp \<longrightarrow> dom (map_of m) = set (GetMetrics f))"
proof (cases "f = FormatTemp")
  case True
  with Parse_Temp_invalid [OF assms(1)] show ?thesis by auto
next
  case False
  with assms show ?thesis by (auto simp: parse_defs ran_def dom_def split: if_splits)
qed

text \<open>
  The other formats do not look at the validity flag. An invalid response carries no
  bytes (the in-band driver leaves them empty), passes \<open>Validate\<close>, and then makes the
  parser panic.
\<close>

theorem invalid_response_panics:
  assumes "IsValid r \<noteq> 1" and "RespData r = []"
    and "f \<in> {FormatCUPSIndex, FormatPSU, FormatSR, FormatPolicy, FormatSensorReading}"
  shows "Validate r = Val () \<and> Parse f r = Panic IndexOutOfRange"
  using assms by (auto simp: Validate_def parse_defs)

theorem invalid_response_panics_witness:
  "Validate \<lparr>RespData = [], IsValid = 0\<rparr> = Val () \<and>
   Parse FormatPolicy \<lparr>RespData = [], IsValid = 0\<rparr> = Panic IndexOutOfRange"
  by (rule invalid_response_panics) simp_all

text \<open>
  A response is rejected exactly when it is marked valid and does not begin with the
  completion code 0.
\<close>

theorem Validate_rejects_iff:
  "Validate r \<noteq> Val () \<longleftrightarrow> IsValid r = 1 \<and> (\<nexists>bs. RespData r = 0 # bs)"
  by (cases "RespData r") (auto simp: Validate_def)

text \<open>
  A two-byte metric is little-endian: its value is the byte at the offset plus 256 times
  the next one, with no loss.
\<close>

theorem GetUint16_little_endian:
  assumes "offset + 1 < length data"
  shows "\<exists>v. GetUint16FromByteArray data offset = Val v \<and>
     unat v = unat (data ! offset) + 256 * unat (data ! (offset + 1))"
  using assms by (simp add: unat_le16)

section \<open>The contract of the interface\<close>

text \<open>
  \<open>parser_format\<close>: what the collector may rely on of any \<open>ParserFormat\<close>, in terms of
  the length \<open>need\<close> from which a response is complete.
\<close>

locale parser_format =
  fixes metrics :: "string list"
    and parse :: "IpmiResponse \<Rightarrow> (string, uint16) gomap go"
    and need :: nat
  assumes metrics_distinct: "distinct metrics"
    and parse_total: "IsValid r = 1 \<Longrightarrow> need \<le> length (RespData r) \<Longrightarrow>
      \<exists>m. parse r = Val m \<and> set metrics \<subseteq> fst ` set m"
    and parse_distinct: "parse r = Val m \<Longrightarrow> distinct (map fst m)"
begin

lemma advertised_present:
  assumes "IsValid r = 1" and "need \<le> length (RespData r)" and "k \<in> set metrics"
  shows "\<exists>m v. parse r = Val m \<and> map_of m k = Some v"
proof -
  obtain m where "parse r = Val m" and "set metrics \<subseteq> fst ` set m"
    using parse_total [OF assms(1,2)] by blast
  then have "k \<in> fst ` set m" using assms(3) by blast
  then have "map_of m k \<noteq> None" by (simp add: map_of_eq_None_iff)
  with \<open>parse r = Val m\<close> show ?thesis by auto
qed

lemma no_panic:
  "IsValid r = 1 \<Longrightarrow> need \<le> length (RespData r) \<Longrightarrow> \<not> is_panic (parse r)"
  using parse_total [of r] by auto

end

interpretation fmt: parser_format "GetMetrics f" "Parse f" "full_length f" for f
proof unfold_locales
  show "distinct (GetMetrics f)" by (rule GetMetrics_distinct)
next
  fix r :: IpmiResponse
  assume "IsValid r = 1" and "full_length f \<le> length (RespData r)"
  then obtain m where "Parse f r = Val m"
    and "\<forall>(k, fld) \<in> set (layout f). map_of m k = Some (decode_field (RespData r) fld)"
    using Parse_layout_short [of r f] Parse_layout_Temp [of r] by (cases "f = FormatTemp") auto
  then have "set (map fst (layout f)) \<subseteq> fst ` set m"
    by (force dest: map_of_SomeD)
  with \<open>Parse f r = Val m\<close> show "\<exists>m. Parse f r = Val m \<and> set (GetMetrics f) \<subseteq> fst ` set m"
    by (auto simp only: layout_keys)
next
  fix r :: IpmiResponse and m
  assume "Parse f r = Val m"
  then show "distinct (map fst m)" by (rule Parse_distinct)
qed

end
