(* ===== verification/Vendor.thy ===== *)
theory Vendor
  imports Formats
begin

text \<open>
  \<open>ipmi/vendor.go\<close>: the tables of supported requests and the metric names that do not
  come from them, and the mutable package variables they hold.

  Three package-level byte slices are written while the plugin runs: \<open>CmdSDR\<close> and
  \<open>DcmiThermal.Request.Data\<close> here and \<open>CmdFruData.Data\<close> of \<open>ipmi/fru.go\<close>; \<open>ipmi/sdr.go\<close>
  caches its sensor scan in \<open>sdrInfos\<close>, whose record type is declared with it. They are
  the record \<open>globals\<close>, together with their initial values.
\<close>

definition nm_request :: "byte list \<Rightarrow> IpmiRequest" where
  \<comment> \<open>\<open>IpmiRequest{data, 6, 0x2c}\<close>\<close>
  "nm_request bs = \<lparr>ReqData = bs, Channel = 6, Slave = 0x2c\<rparr>"

definition describe :: "byte list \<Rightarrow> string \<Rightarrow> ParserFormat \<Rightarrow> RequestDescription" where
  "describe bs root fmt = \<lparr>Request = Owned (nm_request bs), MetricsRoot = root, Format = fmt\<rparr>"

definition GenericVendor :: "RequestDescription list" where
  "GenericVendor =
    [describe [0x2e, 0x65, 0x57, 0x01, 0x00, 0x02] ''cups'' FormatCUPS,
     describe [0x2e, 0x65, 0x57, 0x01, 0x00, 0x01] ''cups'' FormatCUPSIndex,
     describe [0x2e, 0xc8, 0x57, 0x01, 0x00, 0x01, 0x00, 0x00] ''power/system'' FormatNodeManager,
     describe [0x2e, 0xc8, 0x57, 0x01, 0x00, 0x01, 0x01, 0x00] ''power/cpu'' FormatNodeManager,
     describe [0x2e, 0xc8, 0x57, 0x01, 0x00, 0x01, 0x02, 0x00] ''power/memory'' FormatNodeManager,
     describe [0x2e, 0xc8, 0x57, 0x01, 0x00, 0x02, 0x00, 0x00] ''thermal/inlet'' FormatNodeManager,
     describe [0x2e, 0xc8, 0x57, 0x01, 0x00, 0x05, 0x00, 0x00] ''thermal/outlet'' FormatNodeManager,
     describe [0x2e, 0x4b, 0x57, 0x01, 0x00, 0x03, 0xff, 0xff, 0xff, 0xff, 0xff, 0xff, 0xff, 0xff]
       ''thermal'' FormatTemp,
     describe [0x2e, 0xc8, 0x57, 0x01, 0x00, 0x04, 0x00, 0x00] ''airflow'' FormatNodeManager,
     describe [0x2e, 0x40, 0x57, 0x01, 0x00, 0x30, 0x05, 0x05, 0xa1, 0x00, 0x10, 0x00, 0x00]
       ''margin/cpu/tj'' FormatPECI,
     describe [0x04, 0x2d, 0x08] ''thermal/chipset'' FormatSR,
     describe [0x2e, 0xc2, 0x57, 0x01, 0x00, 0x0, 0x1] ''power/policy'' FormatPolicy]"

definition DCMIVendor :: "RequestDescription list" where
  "DCMIVendor =
    [\<lparr>Request = Owned (request [0x2c, 0x02, 0xdc, 0x01, 0x00, 0x00]),
      MetricsRoot = ''power/system'', Format = FormatDCMIPower\<rparr>]"

definition DcmiThermal :: RequestDescription where
  \<comment> \<open>its request bytes are \<open>dcmiThermalData\<close> of the package state\<close>
  "DcmiThermal =
     \<lparr>Request = SharedThermal, MetricsRoot = ''thermal/inlet'', Format = FormatSensorReading\<rparr>"

definition CmdDCMIThermalCap :: "byte list" where
  "CmdDCMIThermalCap = [0x2c, 0x7, 0xdc, 0x01, 0x40, 0x0, 0x0]"

definition InventoryMetrics :: "string list" where
  "InventoryMetrics =
    [''inventory/firmware_version'', ''inventory/bmc_mac'', ''inventory/product_manufacturer'',
     ''inventory/product_name'', ''inventory/product_serial'']"

definition HealthMetrics :: "string list" where
  "HealthMetrics =
    [''health/temperature'', ''health/voltage'', ''health/fan'', ''health/processor'',
     ''health/powersupply'', ''health/memory'', ''health/storage'', ''health/battery'']"

section \<open>Package state\<close>

record SdrHeader =
  NextRecordId :: uint16
  RecordId :: uint16
  SdrVersion :: uint16
  RecordType :: uint16
  RecordLength :: uint16

record SdrInfo =
  Header :: SdrHeader
  SensorNumber :: uint16
  SensorType :: uint16
  EventReadingType :: uint16

record globals =
  cmdFruData :: "byte list"
  cmdSDR :: "byte list"
  dcmiThermalData :: "byte list"
  sdrInfos :: "SdrInfo list option"

definition init_globals :: globals where
  "init_globals =
     \<lparr>cmdFruData = [0xa, 0x11, 0x0, 0x0, 0x0, 0x0],
      cmdSDR = [0xa, 0x23, 0x00, 0x00, 0x00, 0x00, 0x00, 0x08],
      dcmiThermalData = [0x4, 0x2d, 0x00],
      sdrInfos = None\<rparr>"

text \<open>Go never changes the length of these slices; every store into them is in range.\<close>

definition wf_globals :: "globals \<Rightarrow> bool" where
  "wf_globals g \<longleftrightarrow> length (cmdFruData g) = 6 \<and> length (cmdSDR g) = 8
     \<and> length (dcmiThermalData g) = 3"

lemma wf_init_globals: "wf_globals init_globals"
  by (simp add: wf_globals_def init_globals_def)

definition resolve :: "globals \<Rightarrow> request_ref \<Rightarrow> IpmiRequest" where
  \<comment> \<open>the bytes a description's request has now\<close>
  "resolve g r = (case r of Owned q \<Rightarrow> q | SharedThermal \<Rightarrow> request (dcmiThermalData g))"

end
