(* ===== verification/Sdr.thy ===== *)
theory Sdr
  imports Vendor
begin

text \<open>
  \<open>ipmi/sdr.go\<close>, first half: the commands on the sensor data repository and the scan that
  lists its sensors.

  \<open>SdrParser\<close> holds the backend it runs commands with; here that is the argument \<open>exec\<close>, the
  backend's \<open>ExecRaw\<close>, over any state \<open>'s\<close>. The two loops whose end depends on what the
  device answers are \<open>partial_function\<close>s: \<open>None\<close> when they do not end. The indices of
  \<open>GetSdrBytes\<close> are 16-bit and wrap as they do in Go.
\<close>

type_synonym 's exec = "IpmiRequest \<Rightarrow> string \<Rightarrow> ('s, IpmiResponse) act"

definition CmdGetDeviceId :: IpmiRequest where "CmdGetDeviceId = request [0x6, 0x1]"
definition CmdStorageSdrInfo :: IpmiRequest where "CmdStorageSdrInfo = request [0xa, 0x20]"
definition CmdDeviceSdrInfo :: IpmiRequest where "CmdDeviceSdrInfo = request [0x4, 0x20]"
definition CmdReserveStorageSdr :: IpmiRequest where "CmdReserveStorageSdr = request [0xa, 0x22]"
definition CmdReserveDeviceSdr :: IpmiRequest where "CmdReserveDeviceSdr = request [0x4, 0x22]"
definition CmdGetSdrRepositoryAllocationInfo :: IpmiRequest where
  "CmdGetSdrRepositoryAllocationInfo = request [0xa, 0x21]"
definition CmdGetStorageSdr :: IpmiRequest where
  "CmdGetStorageSdr = request [0xa, 0x23, 0x0, 0x0, 0x0, 0x0, 0x0, 0x0]"
definition CmdGetDeviceSdr :: IpmiRequest where
  "CmdGetDeviceSdr = request [0x4, 0x21, 0x0, 0x0, 0x0, 0x0, 0x0, 0x0]"
definition CmdGetSensorReading :: IpmiRequest where
  "CmdGetSensorReading = request [0x4, 0x2d, 0x0]"

lemmas sdr_commands = CmdGetDeviceId_def CmdStorageSdrInfo_def CmdDeviceSdrInfo_def
  CmdReserveStorageSdr_def CmdReserveDeviceSdr_def CmdGetSdrRepositoryAllocationInfo_def
  CmdGetStorageSdr_def CmdGetDeviceSdr_def CmdGetSensorReading_def

record DeviceId =
  IsDeviceSdr :: bool

text \<open>
  Every command below ends in the same lines: an error is passed on, an empty response is one,
  and the completion code is cut off.
\<close>

definition response_data :: "IpmiResponse \<Rightarrow> byte list go" where
  "response_data response =
     (if length (RespData response) < 1 then Err NoAddData else slice_from (RespData response) 1)"

definition exec_data :: "'s exec \<Rightarrow> IpmiRequest \<Rightarrow> string \<Rightarrow> ('s, byte list) act" where
  "exec_data exec cmd host =
     bind_act (exec cmd host) (\<lambda>response. lift_go (response_data response))"

definition device_id :: "byte list \<Rightarrow> DeviceId go" where
  "device_id data =
     bind_go (idx data 1) (\<lambda>support.
     if support AND 0x80 \<noteq> 0 then
       bind_go (idx data 5) (\<lambda>additional.
       if additional AND 0x2 \<noteq> 0 then Val \<lparr>IsDeviceSdr = False\<rparr>
       else if additional AND 0x1 \<noteq> 0 then Val \<lparr>IsDeviceSdr = True\<rparr>
       else Err NoValuableSdr)
     else Val \<lparr>IsDeviceSdr = False\<rparr>)"

definition GetDeviceId :: "'s exec \<Rightarrow> string \<Rightarrow> ('s, DeviceId) act" where
  "GetDeviceId exec host =
     bind_act (exec_data exec CmdGetDeviceId host) (\<lambda>data. lift_go (device_id data))"

definition GetSdrInfo :: "'s exec \<Rightarrow> bool \<Rightarrow> string \<Rightarrow> ('s, unit) act" where
  "GetSdrInfo exec isDeviceSdr host =
     bind_act (exec (if \<not> isDeviceSdr then CmdStorageSdrInfo else CmdDeviceSdrInfo) host)
       (\<lambda>_. return_act ())"

definition ReserveSdr :: "'s exec \<Rightarrow> bool \<Rightarrow> string \<Rightarrow> ('s, byte list) act" where
  "ReserveSdr exec isDeviceSdr host =
     exec_data exec (if \<not> isDeviceSdr then CmdReserveStorageSdr else CmdReserveDeviceSdr) host"

definition allocation_unit :: "byte list \<Rightarrow> uint16 go" where
  "allocation_unit data =
     (if length data \<noteq> 9 then Err AdditionalDataUnexpected
      else bind_go (idx data 3) (\<lambda>hi. bind_go (idx data 2) (\<lambda>lo.
        let allocationUnitSize = push_bit 8 (ucast hi) + ucast lo
        in Val (if allocationUnitSize \<noteq> 0 then allocationUnitSize else 16))))"

definition GetSdrRepositoryAllocationInfo :: "'s exec \<Rightarrow> string \<Rightarrow> ('s, uint16) act" where
  "GetSdrRepositoryAllocationInfo exec host =
     bind_act (exec_data exec CmdGetSdrRepositoryAllocationInfo host)
       (\<lambda>data. lift_go (allocation_unit data))"

text \<open>
  The request of \<open>GetSdr\<close>: the reservation, when there is one, is two bytes of a slice that
  may be too short; the record number is split over two bytes and the other two arguments
  are cut to their low byte.
\<close>

definition get_sdr_request ::
  "byte list option \<Rightarrow> uint16 \<Rightarrow> uint16 \<Rightarrow> uint16 \<Rightarrow> bool \<Rightarrow> IpmiRequest go" where
  "get_sdr_request reservationId recordId offsetIntoRecord byetsToRead isDeviceSdr =
     (let cmd = (if \<not> isDeviceSdr then Clone CmdGetStorageSdr else Clone CmdGetDeviceSdr) in
      bind_go (case reservationId of None \<Rightarrow> Val (ReqData cmd)
               | Some r \<Rightarrow> bind_go (idx r 0) (\<lambda>r0. bind_go (put_idx (ReqData cmd) 2 r0) (\<lambda>d.
                            bind_go (idx r 1) (\<lambda>r1. put_idx d 3 r1)))) (\<lambda>d.
      Val (cmd\<lparr>ReqData := d[4 := ucast recordId, 5 := ucast (drop_bit 8 recordId),
                           6 := ucast offsetIntoRecord, 7 := ucast byetsToRead]\<rparr>)))"

definition GetSdr ::
  "'s exec \<Rightarrow> byte list option \<Rightarrow> uint16 \<Rightarrow> uint16 \<Rightarrow> uint16 \<Rightarrow> bool \<Rightarrow> string
     \<Rightarrow> ('s, byte list) act" where
  "GetSdr exec reservationId recordId offsetIntoRecord byetsToRead isDeviceSdr host =
     bind_act (lift_go (get_sdr_request reservationId recordId offsetIntoRecord byetsToRead isDeviceSdr))
       (\<lambda>cmd. exec_data exec cmd host)"

definition reading_request :: "byte \<Rightarrow> IpmiRequest" where
  "reading_request n = (let cmd = Clone CmdGetSensorReading in cmd\<lparr>ReqData := (ReqData cmd)[2 := n]\<rparr>)"

definition GetSensorReading :: "'s exec \<Rightarrow> int \<Rightarrow> string \<Rightarrow> ('s, byte list) act" where
  "GetSensorReading exec sensorNum host =
     exec_data exec (reading_request (word_of_int sensorNum)) host"

section \<open>Reading a record\<close>

text \<open>The inner loop of \<open>GetSdrBytes\<close>, with \<open>k\<close> bytes left to copy, and the lines around it.\<close>

primrec copy_chunk ::
  "byte list \<Rightarrow> byte list \<Rightarrow> uint16 \<Rightarrow> uint16 \<Rightarrow> nat \<Rightarrow> byte list go" where
  "copy_chunk data currentSdr bytesRead i 0 = Val data"
| "copy_chunk data currentSdr bytesRead i (Suc k) =
     bind_go (idx currentSdr (unat (2 + i))) (\<lambda>b.
     bind_go (put_idx data (unat (2 + bytesRead + i)) b) (\<lambda>data.
     copy_chunk data currentSdr bytesRead (i + 1) k))"

definition store_chunk :: "byte list \<Rightarrow> byte list \<Rightarrow> uint16 \<Rightarrow> uint16 \<Rightarrow> byte list go" where
  "store_chunk data currentSdr bytesRead currentBytesToRead =
     bind_go (idx currentSdr 0) (\<lambda>b0. bind_go (put_idx data 0 b0) (\<lambda>data.
     bind_go (idx currentSdr 1) (\<lambda>b1. bind_go (put_idx data 1 b1) (\<lambda>data.
     copy_chunk data currentSdr bytesRead 0 (unat currentBytesToRead)))))"

partial_function (option) sdr_bytes_loop ::
  "'s exec \<Rightarrow> byte list option \<Rightarrow> uint16 \<Rightarrow> uint16 \<Rightarrow> uint16 \<Rightarrow> bool \<Rightarrow> string
     \<Rightarrow> byte list \<Rightarrow> uint16 \<Rightarrow> uint16 \<Rightarrow> 's \<Rightarrow> (byte list go \<times> 's) option" where
  "sdr_bytes_loop exec reservationId recordId totalBytesToRead sdrMaxReadLen isDeviceSdr host
       data bytesLeftToRead bytesRead s =
     (if bytesRead < bytesLeftToRead then
        bind_act (GetSdr exec reservationId recordId bytesRead
            (if sdrMaxReadLen < totalBytesToRead - bytesRead then sdrMaxReadLen
             else totalBytesToRead - bytesRead) isDeviceSdr host) (\<lambda>currentSdr.
        bind_act (lift_go (store_chunk data currentSdr bytesRead
            (if sdrMaxReadLen < totalBytesToRead - bytesRead then sdrMaxReadLen
             else totalBytesToRead - bytesRead))) (\<lambda>data.
        sdr_bytes_loop exec reservationId recordId totalBytesToRead sdrMaxReadLen isDeviceSdr host
          data (totalBytesToRead - bytesRead)
          (bytesRead + (if sdrMaxReadLen < totalBytesToRead - bytesRead then sdrMaxReadLen
                        else totalBytesToRead - bytesRead)))) s
      else return_act data s)"

definition GetSdrBytes ::
  "'s exec \<Rightarrow> byte list option \<Rightarrow> uint16 \<Rightarrow> uint16 \<Rightarrow> uint16 \<Rightarrow> bool \<Rightarrow> string
     \<Rightarrow> ('s, byte list) act" where
  "GetSdrBytes exec reservationId recordId totalBytesToRead sdrMaxReadLen isDeviceSdr host =
     sdr_bytes_loop exec reservationId recordId totalBytesToRead sdrMaxReadLen isDeviceSdr host
       (replicate (unat (totalBytesToRead + 2)) 0) totalBytesToRead 0"

text \<open>The header fields both readers take from the bytes.\<close>

definition sdr_header :: "byte list \<Rightarrow> SdrHeader go" where
  "sdr_header b =
     bind_go (idx b 0) (\<lambda>b0. bind_go (idx b 1) (\<lambda>b1. bind_go (idx b 2) (\<lambda>b2.
     bind_go (idx b 3) (\<lambda>b3. bind_go (idx b 4) (\<lambda>b4. bind_go (idx b 5) (\<lambda>b5.
     bind_go (idx b 6) (\<lambda>b6.
       Val \<lparr>NextRecordId = ucast b0 OR push_bit 8 (ucast b1),
            RecordId = ucast b2 OR push_bit 8 (ucast b3),
            SdrVersion = ucast b4, RecordType = ucast b5, RecordLength = ucast b6\<rparr>)))))))"

definition GetSdrHeader ::
  "'s exec \<Rightarrow> byte list option \<Rightarrow> uint16 \<Rightarrow> bool \<Rightarrow> string \<Rightarrow> ('s, SdrHeader) act" where
  "GetSdrHeader exec reservationId recordId isDeviceSdr host =
     bind_act (GetSdrBytes exec reservationId recordId 5 16 isDeviceSdr host)
       (\<lambda>b. lift_go (sdr_header b))"

definition is_sensor_type :: "uint16 \<Rightarrow> bool" where
  \<comment> \<open>\<open>SDR_TYPE_FULL\<close>, \<open>SDR_TYPE_COMPACT\<close>\<close>
  "is_sensor_type t \<longleftrightarrow> t = 0x01 \<or> t = 0x02"

definition sdr_info :: "byte list \<Rightarrow> SdrInfo go" where
  "sdr_info b =
     bind_go (sdr_header b) (\<lambda>h.
     if is_sensor_type (RecordType h) then
       bind_go (idx b 9) (\<lambda>n. bind_go (idx b 14) (\<lambda>t. bind_go (idx b 15) (\<lambda>e.
         Val \<lparr>Header = h, SensorNumber = ucast n, SensorType = ucast t, EventReadingType = ucast e\<rparr>)))
     else Err UnexpectedRecordType)"

definition GetSdrByHeader ::
  "'s exec \<Rightarrow> byte list option \<Rightarrow> SdrHeader \<Rightarrow> uint16 \<Rightarrow> bool \<Rightarrow> string \<Rightarrow> ('s, SdrInfo) act" where
  "GetSdrByHeader exec reservationId header sdrMaxReadLen isDeviceSdr host =
     bind_act (GetSdrBytes exec reservationId (RecordId header) (RecordLength header + 5)
         sdrMaxReadLen isDeviceSdr host) (\<lambda>sdrBytes.
     lift_go (sdr_info sdrBytes))"

section \<open>The scan\<close>

text \<open>What one turn of the loop does with a header: \<open>Some\<close> of a sensor to append, or nothing.\<close>

definition scan_record ::
  "'s exec \<Rightarrow> byte list option \<Rightarrow> uint16 \<Rightarrow> uint16 \<Rightarrow> bool \<Rightarrow> string \<Rightarrow> SdrHeader
     \<Rightarrow> ('s, SdrInfo list) act" where
  "scan_record exec reservationId recordId sdrMaxReadLen isDeviceSdr host header =
     (if (recordId = 0 \<or> RecordId header = recordId) \<and> is_sensor_type (RecordType header) then
        bind_act (GetSdrByHeader exec reservationId header sdrMaxReadLen isDeviceSdr host) (\<lambda>sdr.
        return_act (if is_sensor_type (RecordType (Header sdr)) then [sdr] else []))
      else return_act [])"

partial_function (option) scan_loop ::
  "'s exec \<Rightarrow> byte list option \<Rightarrow> uint16 \<Rightarrow> uint16 \<Rightarrow> bool \<Rightarrow> string
     \<Rightarrow> uint16 \<Rightarrow> SdrInfo list \<Rightarrow> 's \<Rightarrow> (SdrInfo list go \<times> 's) option" where
  "scan_loop exec reservationId recordId sdrMaxReadLen isDeviceSdr host recId sdrSet s =
     bind_act (GetSdrHeader exec reservationId recId isDeviceSdr host) (\<lambda>header.
     bind_act (scan_record exec reservationId recordId sdrMaxReadLen isDeviceSdr host header) (\<lambda>new t.
     if NextRecordId header = 0xFFFF then return_act (sdrSet @ new) t
     else scan_loop exec reservationId recordId sdrMaxReadLen isDeviceSdr host
            (NextRecordId header) (sdrSet @ new) t)) s"

definition ScanSdrLoop ::
  "'s exec \<Rightarrow> byte list option \<Rightarrow> uint16 \<Rightarrow> uint16 \<Rightarrow> bool \<Rightarrow> string \<Rightarrow> ('s, SdrInfo list) act" where
  "ScanSdrLoop exec reservationId recordId sdrMaxReadLen isDeviceSdr host =
     scan_loop exec reservationId recordId sdrMaxReadLen isDeviceSdr host recordId []"

definition ScanSdr :: "'s exec \<Rightarrow> bool \<Rightarrow> string \<Rightarrow> ('s, SdrInfo list) act" where
  "ScanSdr exec isDeviceSdr host =
     bind_act (GetSdrInfo exec isDeviceSdr host) (\<lambda>_.
     bind_act (ReserveSdr exec isDeviceSdr host) (\<lambda>reservationId.
     bind_act (if \<not> isDeviceSdr then GetSdrRepositoryAllocationInfo exec host else return_act 16)
       (\<lambda>sdrMaxReadLen.
     ScanSdrLoop exec (Some reservationId) 0 sdrMaxReadLen isDeviceSdr host)))"

end
