(* ===== verification/Sdr_Scan.thy ===== *)
theory Sdr_Scan
  imports Sdr
begin

text \<open>
  What the scan of the sensor data repository does. The locale \<open>ipmi_exec\<close> is what
  \<open>SdrParser\<close> asks of a backend, and proves that every operation but the scan itself
  returns. \<open>answers\<close> describes a device whose answers depend on the command only; under it
  \<open>GetSdrBytes\<close> is computed exactly (\<open>filled\<close>, \<open>sdr_read_count\<close>), and the scan is compared with
  the repository the device holds (\<open>serves_repo\<close>). Record offsets travel in one byte, so a
  device can serve a record of at most 255 bytes faithfully.
\<close>

section \<open>Offsets\<close>

lemma unat_remaining:
  fixes tot off :: uint16
  assumes "off \<le> tot"
  shows "unat (tot - off) = unat tot - unat off"
  using assms by (simp add: unat_sub)

lemma unat_advance:
  fixes tot off c :: uint16
  assumes "off \<le> tot" and "c \<le> tot - off"
  shows "unat (off + c) = unat off + unat c" and "off + c \<le> tot"
proof -
  have le: "unat off + unat c \<le> unat tot"
    using assms unat_remaining [OF assms(1)] by (simp add: word_le_nat_alt)
  then show 1: "unat (off + c) = unat off + unat c"
    using unat_uint16_less [of tot] by (simp add: unat_word_ariths del: unat_uint16_less)
  from le show "off + c \<le> tot" by (simp add: word_le_nat_alt 1)
qed

section \<open>The contract of a backend\<close>

text \<open>
  What \<open>SdrParser\<close> needs of \<open>IpmiLayer\<close>: \<open>ExecRaw\<close> returns, and keeps the invariant of the
  backend. Every operation then returns, the two loops under their conditions.
\<close>

locale ipmi_exec =
  fixes exec :: "'s exec" and I :: "'s \<Rightarrow> bool"
  assumes exec_returns: "returns I (exec cmd host)"
begin

lemma returns_exec_data: "returns I (exec_data exec cmd host)"
  unfolding exec_data_def by (intro act_intros exec_returns)

lemma returns_GetDeviceId: "returns I (GetDeviceId exec host)"
  unfolding GetDeviceId_def by (intro act_intros returns_exec_data)

lemma returns_GetSdrInfo: "returns I (GetSdrInfo exec isDeviceSdr host)"
  unfolding GetSdrInfo_def by (intro act_intros exec_returns)

lemma returns_ReserveSdr: "returns I (ReserveSdr exec isDeviceSdr host)"
  unfolding ReserveSdr_def by (rule returns_exec_data)

lemma returns_AllocationInfo: "returns I (GetSdrRepositoryAllocationInfo exec host)"
  unfolding GetSdrRepositoryAllocationInfo_def by (intro act_intros returns_exec_data)

lemma returns_GetSdr: "returns I (GetSdr exec r recordId off n isDeviceSdr host)"
  unfolding GetSdr_def by (intro act_intros returns_exec_data)

lemma returns_GetSensorReading: "returns I (GetSensorReading exec n host)"
  unfolding GetSensorReading_def by (rule returns_exec_data)

lemma returns_sdr_bytes_loop:
  assumes "0 < mx" and "bytesRead \<le> tot"
  shows "returns I (sdr_bytes_loop exec r recordId tot mx isDeviceSdr host data left bytesRead)"
  using assms(2)
proof (induction "unat (tot - bytesRead)" arbitrary: data left bytesRead rule: less_induct)
  case less
  let ?cur = "if mx < tot - bytesRead then mx else tot - bytesRead"
  show ?case
  proof (cases "bytesRead < left")
    case False
    then show ?thesis
      by (simp add: returns_def sdr_bytes_loop.simps act_simps)
  next
    case True
    have rest: "returns I (sdr_bytes_loop exec r recordId tot mx isDeviceSdr host data'
        (tot - bytesRead) (bytesRead + ?cur))" for data'
    proof (cases "bytesRead = tot")
      case True
      then show ?thesis
        by (simp add: returns_def sdr_bytes_loop.simps act_simps)
    next
      case False
      with less.prems have lt: "bytesRead < tot" by simp
      then have pos: "0 < ?cur" using assms(1) by (auto simp: word_gt_0)
      have cur: "?cur \<le> tot - bytesRead" by auto
      note adv = unat_advance [OF less.prems cur]
      have "unat (tot - (bytesRead + ?cur)) < unat (tot - bytesRead)"
        unfolding unat_remaining [OF adv(2)] unat_remaining [OF less.prems] adv(1)
        using lt pos by (simp only: word_less_nat_alt unat_0)
      with adv(2) show ?thesis by (intro less.hyps)
    qed
    have "returns I (bind_act (GetSdr exec r recordId bytesRead ?cur isDeviceSdr host) (\<lambda>currentSdr.
        bind_act (lift_go (store_chunk data currentSdr bytesRead ?cur)) (\<lambda>data.
        sdr_bytes_loop exec r recordId tot mx isDeviceSdr host data (tot - bytesRead)
          (bytesRead + ?cur))))"
      by (intro returns_bind returns_GetSdr returns_lift rest)
    with True show ?thesis
      unfolding returns_def by (subst sdr_bytes_loop.simps) simp
  qed
qed


lemma returns_GetSdrBytes:
  "0 < mx \<Longrightarrow> returns I (GetSdrBytes exec r recordId tot mx isDeviceSdr host)"
  unfolding GetSdrBytes_def by (rule returns_sdr_bytes_loop) simp_all

lemma returns_GetSdrHeader: "returns I (GetSdrHeader exec r recordId isDeviceSdr host)"
  unfolding GetSdrHeader_def by (intro act_intros returns_GetSdrBytes) simp

lemma returns_GetSdrByHeader:
  "0 < mx \<Longrightarrow> returns I (GetSdrByHeader exec r h mx isDeviceSdr host)"
  unfolding GetSdrByHeader_def by (intro act_intros returns_GetSdrBytes)

lemma returns_scan_record:
  "0 < mx \<Longrightarrow> returns I (scan_record exec r recordId mx isDeviceSdr host h)"
  unfolding scan_record_def by (intro act_intros returns_GetSdrByHeader)

end

section \<open>Devices whose answers depend on the command only\<close>

text \<open>
  \<open>answers I exec host f\<close>: a command sent with \<open>exec\<close> is answered with the bytes \<open>f\<close> gives
  for its bytes, behind a completion code.
\<close>

definition answers ::
  "('s \<Rightarrow> bool) \<Rightarrow> 's exec \<Rightarrow> string \<Rightarrow> (byte list \<Rightarrow> byte list) \<Rightarrow> bool" where
  "answers I exec host f \<longleftrightarrow>
     (\<forall>cmd. good_request cmd \<longrightarrow>
        yields I (exec cmd host) (Val \<lparr>RespData = 0 # f (ReqData cmd), IsValid = 1\<rparr>))"

lemma answersD:
  "answers I exec host f \<Longrightarrow> good_request cmd \<Longrightarrow>
     yields I (exec cmd host) (Val \<lparr>RespData = 0 # f (ReqData cmd), IsValid = 1\<rparr>)"
  by (simp add: answers_def)

lemma yields_exec_data:
  assumes "answers I exec host f" and "good_request cmd"
  shows "yields I (exec_data exec cmd host) (Val (f (ReqData cmd)))"
  unfolding exec_data_def
  by (rule yields_bind)
     (use assms in \<open>auto simp: answers_def response_data_def yields_lift slice_from_def\<close>)

definition sdr_command :: "byte list \<Rightarrow> bool \<Rightarrow> uint16 \<Rightarrow> uint16 \<Rightarrow> uint16 \<Rightarrow> byte list" where
  \<comment> \<open>the bytes of a \<open>GetSdr\<close> command under the reservation \<open>r\<close>\<close>
  "sdr_command r isDeviceSdr recordId off n =
     (if isDeviceSdr then [0x4, 0x21] else [0xa, 0x23])
     @ [r ! 0, r ! 1, ucast recordId, ucast (drop_bit 8 recordId), ucast off, ucast n]"

lemma get_sdr_request_eq:
  assumes "2 \<le> length r"
  shows "get_sdr_request (Some r) recordId off n isDeviceSdr =
    Val (request (sdr_command r isDeviceSdr recordId off n))"
proof -
  have "0 < length r" "Suc 0 < length r" using assms by linarith+
  then show ?thesis
    by (simp add: get_sdr_request_def sdr_command_def sdr_commands request_def)
qed

lemma yields_GetSdr:
  assumes "answers I exec host f" and "2 \<le> length r"
  shows "yields I (GetSdr exec (Some r) recordId off n isDeviceSdr host)
    (Val (f (sdr_command r isDeviceSdr recordId off n)))"
proof -
  have "good_request (request (sdr_command r isDeviceSdr recordId off n))"
    by (simp add: good_request_def sdr_command_def)
  from yields_exec_data [OF assms(1) this] show ?thesis
    by (simp add: GetSdr_def get_sdr_request_eq [OF assms(2)] act_simps)
qed

subsection \<open>Chunks\<close>

lemma copy_chunk_eq:
  assumes "unat off + unat i + k + 2 \<le> length data" and "unat i + k + 2 \<le> length sdr"
    and "length data < 65536"
  shows "copy_chunk data sdr off i k =
    Val (take (2 + unat off + unat i) data @ take k (drop (2 + unat i) sdr)
         @ drop (2 + unat off + unat i + k) data)"
  using assms
proof (induction k arbitrary: data i)
  case 0
  then show ?case by simp
next
  case (Suc k)
  have 1: "unat (2 + i) = 2 + unat i" "unat (2 + off + i) = 2 + unat off + unat i"
    "unat (i + 1) = unat i + 1"
    using Suc.prems by (simp_all add: unat_word_ariths)
  let ?p = "2 + unat off + unat i"
  let ?d = "data[?p := sdr ! (2 + unat i)]"
  have "copy_chunk data sdr off i (Suc k) = copy_chunk ?d sdr off (i + 1) k"
    using Suc.prems 1 by simp
  also have "\<dots> = Val (take (?p + 1) ?d @ take k (drop (2 + unat i + 1) sdr) @ drop (?p + 1 + k) ?d)"
    using Suc.IH [of "i + 1" ?d] Suc.prems 1 by (simp add: add.assoc)
  also have "take (?p + 1) ?d = take ?p data @ [sdr ! (2 + unat i)]"
    using Suc.prems by (simp add: take_Suc_conv_app_nth)
  also have "(take ?p data @ [sdr ! (2 + unat i)]) @ take k (drop (2 + unat i + 1) sdr) @ drop (?p + 1 + k) ?d
      = take ?p data @ take (Suc k) (drop (2 + unat i) sdr) @ drop (?p + Suc k) data"
    using Suc.prems by (simp add: Cons_nth_drop_Suc [symmetric])
  finally show ?case .
qed

text \<open>
  The buffer once \<open>n\<close> bytes of the record \<open>rec\<close> are in, behind the two bytes of the next
  record's number.
\<close>

definition filled :: "byte list \<Rightarrow> byte list \<Rightarrow> nat \<Rightarrow> nat \<Rightarrow> byte list" where
  "filled nxt rec tot n = (if n = 0 then [0, 0] else nxt) @ take n rec @ replicate (tot - n) 0"

lemma store_chunk_filled:
  assumes "length nxt = 2" and "n + unat c \<le> length rec" and "n + unat c \<le> tot" and "0 < unat c"
    and "unat off = n" and "tot + 2 < 65536"
  shows "store_chunk (filled nxt rec tot n) (nxt @ take (unat c) (drop n rec)) off c =
    Val (filled nxt rec tot (n + unat c))"
proof -
  obtain a b where ab: "nxt = [a, b]"
    using assms(1) by (metis (no_types, opaque_lifting) One_nat_def Suc_1 length_0_conv length_Suc_conv)
  let ?rest = "take n rec @ replicate (tot - n) 0"
  have pre: "n \<le> length rec" "n \<le> tot" using assms(2,3) by linarith+
  have len: "length ?rest = tot" using pre by simp
  obtain x y where xy: "filled nxt rec tot n = x # y # ?rest"
    by (cases "n = 0") (auto simp: filled_def ab)
  let ?sdr = "a # b # take (unat c) (drop n rec)"
  have "store_chunk (x # y # ?rest) ?sdr off c = copy_chunk (a # b # ?rest) ?sdr off 0 (unat c)"
    by (simp add: store_chunk_def)
  also have "\<dots> = Val (take (2 + unat off + unat (0 :: uint16)) (a # b # ?rest)
      @ take (unat c) (drop (2 + unat (0 :: uint16)) ?sdr)
      @ drop (2 + unat off + unat (0 :: uint16) + unat c) (a # b # ?rest))"
    by (rule copy_chunk_eq) (use assms len in simp_all)
  also have "\<dots> = Val (a # b # take n rec @ take (unat c) (drop n rec) @ replicate (tot - (n + unat c)) 0)"
    using assms(5) pre by simp
  also have "take n rec @ take (unat c) (drop n rec) @ zs = take (n + unat c) rec @ zs" for zs
    by (simp add: take_add)
  finally show ?thesis using assms(4) xy by (simp add: filled_def ab)
qed

subsection \<open>The reading loop\<close>

text \<open>How many bytes the loop reads: its two counters, without the buffer.\<close>

function sdr_read_count :: "nat \<Rightarrow> nat \<Rightarrow> nat \<Rightarrow> nat \<Rightarrow> nat" where
  "sdr_read_count tot mx left n =
     (if n < left \<and> n < tot \<and> 0 < mx
      then sdr_read_count tot mx (tot - n) (n + min mx (tot - n)) else n)"
  by pat_completeness auto
termination
  by (relation "measure (\<lambda>(tot, mx, left, n). tot - n)") auto

declare sdr_read_count.simps [simp del]

text \<open>One turn of the loop: a chunk is read and stored, and the rest is read behind it.\<close>

lemma yields_sdr_step:
  assumes "answers I exec host f" and "2 \<le> length r" and "off < left"
    and "c = (if mx < tot - off then mx else tot - off)"
    and "store_chunk data (f (sdr_command r isDeviceSdr recordId off c)) off c = Val data'"
    and "yields I (sdr_bytes_loop exec (Some r) recordId tot mx isDeviceSdr host data' (tot - off) (off + c)) res"
  shows "yields I (sdr_bytes_loop exec (Some r) recordId tot mx isDeviceSdr host data left off) res"
proof -
  have "yields I (bind_act (GetSdr exec (Some r) recordId off c isDeviceSdr host) (\<lambda>currentSdr.
      bind_act (lift_go (store_chunk data currentSdr off c)) (\<lambda>data.
      sdr_bytes_loop exec (Some r) recordId tot mx isDeviceSdr host data (tot - off) (off + c)))) res"
    by (rule yields_bind [OF yields_GetSdr [OF assms(1,2)]]) (simp only: assms(5,6) bind_lift_Val)
  then show ?thesis
    using assms(3) unfolding yields_def assms(4) by (subst sdr_bytes_loop.simps) simp
qed

lemma yields_loop:
  assumes "answers I exec host f" and "2 \<le> length r" and "length nxt = 2"
    and "unat tot \<le> length rec" and "unat tot < 65534" and "0 < mx"
    and "\<And>off n. off < tot \<Longrightarrow> unat off + unat n \<le> unat tot \<Longrightarrow>
      f (sdr_command r isDeviceSdr recordId off n) = nxt @ take (unat n) (drop (unat off) rec)"
    and "off \<le> tot" and "left \<le> tot"
  shows "yields I (sdr_bytes_loop exec (Some r) recordId tot mx isDeviceSdr host
      (filled nxt rec (unat tot) (unat off)) left off)
    (Val (filled nxt rec (unat tot) (sdr_read_count (unat tot) (unat mx) (unat left) (unat off))))"
  using assms(8,9)
proof (induction "unat tot - unat off" arbitrary: off left rule: less_induct)
  case less
  let ?c = "if mx < tot - off then mx else tot - off"
  note [simp] = word_less_nat_alt
  show ?case
  proof (cases "off < left")
    case False
    then show ?thesis
      by (simp add: yields_def sdr_bytes_loop.simps act_simps sdr_read_count.simps [of _ _ _ "unat off"])
  next
    case True
    then have lt: "off < tot" using less.prems(2) by (rule order_less_le_trans)
    have cur: "?c \<le> tot - off" by (auto simp: word_le_nat_alt)
    note adv = unat_advance [OF less.prems(1) cur]
    note rem = unat_remaining [OF less.prems(1)]
    have c: "unat ?c = min (unat mx) (unat tot - unat off)"
      using rem by (auto simp: min_def)
    have pos: "0 < unat ?c" using c lt assms(6) by simp
    have top: "unat off + unat ?c \<le> unat tot" using c lt by simp
    show ?thesis
    proof (rule yields_sdr_step [OF assms(1,2) True refl])
      show "store_chunk (filled nxt rec (unat tot) (unat off)) (f (sdr_command r isDeviceSdr recordId off ?c)) off ?c
          = Val (filled nxt rec (unat tot) (unat (off + ?c)))"
        unfolding adv(1) assms(7) [OF lt top] by (rule store_chunk_filled) (use assms(3-5) top pos in simp_all)
      have "sdr_read_count (unat tot) (unat mx) (unat left) (unat off)
          = sdr_read_count (unat tot) (unat mx) (unat (tot - off)) (unat (off + ?c))"
        unfolding adv(1) c rem using True lt assms(6) by (simp add: sdr_read_count.simps [of _ _ _ "unat off"])
      moreover have "unat tot - unat (off + ?c) < unat tot - unat off"
        unfolding adv(1) using pos lt by (simp only: word_less_nat_alt)
      moreover have "tot - off \<le> tot" using rem by (simp add: word_le_nat_alt)
      ultimately show "yields I (sdr_bytes_loop exec (Some r) recordId tot mx isDeviceSdr host
          (filled nxt rec (unat tot) (unat (off + ?c))) (tot - off) (off + ?c))
        (Val (filled nxt rec (unat tot) (sdr_read_count (unat tot) (unat mx) (unat left) (unat off))))"
        using less.hyps [OF _ adv(2)] by simp
    qed
  qed
qed

lemma read_count_zero_left [simp]: "sdr_read_count tot mx 0 n = n"
  by (simp add: sdr_read_count.simps)

lemma read_count_complete:
  assumes "0 < mx" and "0 < tot" and "tot \<le> 2 * mx"
  shows "sdr_read_count tot mx tot 0 = tot"
proof -
  have "sdr_read_count tot mx tot 0 = sdr_read_count tot mx tot (min mx tot)"
    using assms by (simp add: sdr_read_count.simps [of tot mx tot 0])
  also have "\<dots> = tot"
  proof (cases "mx < tot")
    case True
    then have "sdr_read_count tot mx tot mx = sdr_read_count tot mx (tot - mx) tot"
    proof -
      have "mx + min mx (tot - mx) = tot" using True assms(3) by simp
      with True assms(1) show ?thesis by (simp add: sdr_read_count.simps [of tot mx tot mx])
    qed
    also have "\<dots> = tot" by (simp add: sdr_read_count.simps [of _ _ _ tot])
    finally show ?thesis using True by simp
  qed (simp add: sdr_read_count.simps)
  finally show ?thesis .
qed

lemma read_count_half:
  assumes "0 < mx" and "2 * mx < tot" and "n + left = tot + mx" and "n = mx \<or> 2 * mx \<le> n"
    and "n < tot" and "2 * n < tot + 3 * mx"
  shows "sdr_read_count tot mx left n < tot \<and> tot + mx \<le> 2 * sdr_read_count tot mx left n
    \<and> 2 * sdr_read_count tot mx left n < tot + 3 * mx"
  using assms
proof (induction tot mx left n rule: sdr_read_count.induct)
  case (1 tot mx left n)
  show ?case
  proof (cases "n < left")
    case True
    then have more: "n + mx < tot" and "2 * n < tot + mx" using "1.prems" by auto
    then have cur: "min mx (tot - n) = mx" by simp
    have "sdr_read_count tot mx (tot - n) (n + mx) < tot \<and> tot + mx \<le> 2 * sdr_read_count tot mx (tot - n) (n + mx)
        \<and> 2 * sdr_read_count tot mx (tot - n) (n + mx) < tot + 3 * mx"
      by (rule "1.IH" [unfolded cur]) (use True "1.prems" more in auto)
    then show ?thesis
      using True "1.prems" cur by (simp add: sdr_read_count.simps [of tot mx left n])
  next
    case False
    then show ?thesis using "1.prems" by (simp add: sdr_read_count.simps [of tot mx left n])
  qed
qed

lemma read_count_truncated:
  assumes "0 < mx" and "2 * mx < tot"
  shows "sdr_read_count tot mx tot 0 < tot \<and> tot + mx \<le> 2 * sdr_read_count tot mx tot 0
    \<and> 2 * sdr_read_count tot mx tot 0 < tot + 3 * mx"
proof -
  have "sdr_read_count tot mx tot 0 = sdr_read_count tot mx tot mx"
    using assms by (simp add: sdr_read_count.simps [of tot mx tot 0] min_def)
  then show ?thesis using read_count_half [of mx tot mx tot] assms by simp
qed

subsection \<open>What GetSdrBytes returns\<close>

text \<open>
  The device side of a read: asked for \<open>n\<close> bytes of the record from \<open>off\<close> on, it gives the two
  bytes of the next record's number and those bytes.
\<close>

definition serves_record ::
  "(byte list \<Rightarrow> byte list) \<Rightarrow> byte list \<Rightarrow> bool \<Rightarrow> uint16 \<Rightarrow> byte list \<Rightarrow> byte list \<Rightarrow> bool" where
  "serves_record f r isDeviceSdr recordId nxt rec \<longleftrightarrow>
     length nxt = 2 \<and>
     (\<forall>off n. unat off + unat n \<le> length rec \<longrightarrow>
        f (sdr_command r isDeviceSdr recordId off n) = nxt @ take (unat n) (drop (unat off) rec))"

lemma yields_GetSdrBytes:
  assumes "answers I exec host f" and "2 \<le> length r"
    and "serves_record f r isDeviceSdr recordId nxt rec"
    and "unat tot \<le> length rec" and "unat tot < 65534" and "0 < mx"
  shows "yields I (GetSdrBytes exec (Some r) recordId tot mx isDeviceSdr host)
    (Val (filled nxt rec (unat tot) (sdr_read_count (unat tot) (unat mx) (unat tot) 0)))"
proof -
  have "unat (tot + 2) = unat tot + 2"
    using assms(5) by (simp add: unat_word_ariths)
  then have "replicate (unat (tot + 2)) 0 = filled nxt rec (unat tot) (unat (0 :: uint16))"
    by (simp add: filled_def)
  then show ?thesis
    using yields_loop [OF assms(1,2) _ assms(4-6), of nxt isDeviceSdr recordId 0 tot] assms(3,4)
    by (simp add: GetSdrBytes_def serves_record_def)
qed

section \<open>What the scan returns\<close>

definition word_of_bytes :: "byte list \<Rightarrow> nat \<Rightarrow> uint16" where
  \<comment> \<open>the 16-bit number at an offset, low byte first\<close>
  "word_of_bytes b i = ucast (b ! i) OR push_bit 8 (ucast (b ! (i + 1)))"

definition wf_record :: "byte list \<Rightarrow> bool" where
  \<comment> \<open>a record as the standard has it: five bytes of header, the last of which counts the rest\<close>
  "wf_record rec \<longleftrightarrow> 5 \<le> length rec \<and> length rec = 5 + unat (rec ! 4) \<and> length rec < 256
     \<and> (is_sensor_type (ucast (rec ! 3)) \<longrightarrow> 14 \<le> length rec)"

definition header_of :: "byte list \<Rightarrow> byte list \<Rightarrow> SdrHeader" where
  "header_of nxt rec =
     \<lparr>NextRecordId = word_of_bytes nxt 0, RecordId = word_of_bytes rec 0, SdrVersion = ucast (rec ! 2),
      RecordType = ucast (rec ! 3), RecordLength = ucast (rec ! 4)\<rparr>"

definition info_of :: "byte list \<Rightarrow> byte list \<Rightarrow> SdrInfo" where
  "info_of nxt rec =
     \<lparr>Header = header_of nxt rec, SensorNumber = ucast (rec ! 7), SensorType = ucast (rec ! 12),
      EventReadingType = ucast (rec ! 13)\<rparr>"

lemma header_sel [simp]:
  "NextRecordId (header_of nxt rec) = word_of_bytes nxt 0"
  "RecordType (header_of nxt rec) = ucast (rec ! 3)"
  "RecordId (header_of nxt rec) = word_of_bytes rec 0"
  "RecordLength (header_of nxt rec) = ucast (rec ! 4)"
  by (simp_all add: header_of_def)

lemma sdr_header_filled:
  assumes "length nxt = 2" and "5 \<le> n" and "n \<le> tot" and "n \<le> length rec"
  shows "sdr_header (filled nxt rec tot n) = Val (header_of nxt rec)"
proof -
  obtain a b where ab: "nxt = [a, b]"
    using assms(1) by (metis (no_types, opaque_lifting) One_nat_def Suc_1 length_0_conv length_Suc_conv)
  show ?thesis
    using assms(2-4)
    by (simp add: sdr_header_def filled_def ab idx_def nth_append header_of_def word_of_bytes_def
        numeral_eq_Suc)
qed

lemma sdr_info_filled:
  assumes "length nxt = 2" and "14 \<le> n" and "n \<le> tot" and "n \<le> length rec"
    and "is_sensor_type (ucast (rec ! 3))"
  shows "sdr_info (filled nxt rec tot n) = Val (info_of nxt rec)"
proof -
  obtain a b where ab: "nxt = [a, b]"
    using assms(1) by (metis (no_types, opaque_lifting) One_nat_def Suc_1 length_0_conv length_Suc_conv)
  have "sdr_header (filled nxt rec tot n) = Val (header_of nxt rec)"
    by (rule sdr_header_filled) (use assms in simp_all)
  moreover have "idx (filled nxt rec tot n) (i + 2) = Val (rec ! i)" if "i < n" for i
    using that assms(3,4) by (simp add: filled_def ab idx_def nth_append)
  from this [of 7] this [of 12] this [of 13]
  have "idx (filled nxt rec tot n) 9 = Val (rec ! 7)" "idx (filled nxt rec tot n) 14 = Val (rec ! 12)"
    "idx (filled nxt rec tot n) 15 = Val (rec ! 13)"
    using assms(2) by simp_all
  ultimately show ?thesis using assms(5) by (simp add: sdr_info_def info_of_def)
qed

lemma read_count_le:
  "n \<le> tot \<Longrightarrow> sdr_read_count tot mx left n \<le> tot"
proof (induction tot mx left n rule: sdr_read_count.induct)
  case (1 tot mx left n)
  have "n + min mx (tot - n) \<le> tot" using "1.prems" by simp
  with 1 show ?case by (subst sdr_read_count.simps) simp
qed

lemma read_count_enough:
  assumes "10 \<le> mx" and "14 \<le> tot"
  shows "14 \<le> sdr_read_count tot mx tot 0"
proof (cases "tot \<le> 2 * mx")
  case True
  then show ?thesis using read_count_complete [of mx tot] assms by simp
next
  case False
  then show ?thesis using read_count_truncated [of mx tot] assms by linarith
qed

lemma yields_GetSdrHeader:
  assumes dev: "answers I exec host f" and res: "2 \<le> length r"
    and "serves_record f r isDeviceSdr recordId nxt rec" and "wf_record rec"
  shows "yields I (GetSdrHeader exec (Some r) recordId isDeviceSdr host) (Val (header_of nxt rec))"
proof -
  have "yields I (GetSdrBytes exec (Some r) recordId 5 16 isDeviceSdr host) (Val (filled nxt rec 5 5))"
    using yields_GetSdrBytes [OF dev res assms(3), of 5 16] assms(4)
    by (simp add: wf_record_def read_count_complete)
  moreover have "sdr_header (filled nxt rec 5 5) = Val (header_of nxt rec)"
    by (rule sdr_header_filled) (use assms(3,4) in \<open>auto simp: serves_record_def wf_record_def\<close>)
  ultimately show ?thesis
    unfolding GetSdrHeader_def by (metis yields_bind yields_lift)
qed

lemma yields_GetSdrByHeader:
  assumes dev: "answers I exec host f" and res: "2 \<le> length r"
    and "serves_record f r isDeviceSdr (word_of_bytes rec 0) nxt rec" and "wf_record rec"
    and "is_sensor_type (ucast (rec ! 3))" and "10 \<le> unat mx"
  shows "yields I (GetSdrByHeader exec (Some r) (header_of nxt rec) mx isDeviceSdr host)
    (Val (info_of nxt rec))"
proof -
  let ?tot = "ucast (rec ! 4) + 5 :: uint16"
  have tot: "unat ?tot = length rec"
    using assms(4) by (simp add: wf_record_def unat_word_ariths)
  let ?n = "sdr_read_count (unat ?tot) (unat mx) (unat ?tot) 0"
  have n: "14 \<le> ?n" "?n \<le> length rec"
    using read_count_enough [OF assms(6), of "length rec"] read_count_le [of 0 "length rec"] assms(4,5)
    by (simp_all add: tot wf_record_def)
  have "0 < mx" using assms(6) by (simp add: word_less_nat_alt)
  then have "yields I (GetSdrBytes exec (Some r) (word_of_bytes rec 0) ?tot mx isDeviceSdr host)
      (Val (filled nxt rec (unat ?tot) ?n))"
    using yields_GetSdrBytes [OF dev res assms(3), of ?tot mx] assms(4) by (simp add: tot wf_record_def)
  moreover have "sdr_info (filled nxt rec (unat ?tot) ?n) = Val (info_of nxt rec)"
    by (rule sdr_info_filled) (use assms(3,5) n in \<open>auto simp: serves_record_def tot\<close>)
  ultimately show ?thesis
    unfolding GetSdrByHeader_def by (simp, metis yields_bind yields_lift)
qed

lemma yields_scan_record:
  assumes dev: "answers I exec host f" and res: "2 \<le> length r"
    and "serves_record f r isDeviceSdr (word_of_bytes rec 0) nxt rec" and "wf_record rec"
    and "10 \<le> unat mx"
  shows "yields I (scan_record exec (Some r) 0 mx isDeviceSdr host (header_of nxt rec))
    (Val (if is_sensor_type (ucast (rec ! 3)) then [info_of nxt rec] else []))"
proof (cases "is_sensor_type (ucast (rec ! 3))")
  case True
  note read = yields_GetSdrByHeader [OF dev res assms(3,4) True assms(5)]
  show ?thesis
    using True by (simp add: scan_record_def, intro yields_bind [OF read])
      (simp add: info_of_def yields_return)
next
  case False
  then show ?thesis by (simp add: scan_record_def yields_return)
qed

subsection \<open>A repository\<close>

text \<open>
  A repository is the list of its records; each is answered with the number of the next one,
  the last with \<open>0xFFFF\<close>, and the number 0 also asks for the first.
\<close>

definition bytes_of_word :: "uint16 \<Rightarrow> byte list" where
  "bytes_of_word w = [ucast w, ucast (drop_bit 8 w)]"

lemma word_of_bytes_of_word [simp]: "word_of_bytes (bytes_of_word w) 0 = w"
  by (rule bit_word_eqI)
     (auto simp: word_of_bytes_def bytes_of_word_def bit_simps not_less dest: bit_imp_le_length
       elim: less_natE)

definition next_number :: "byte list list \<Rightarrow> nat \<Rightarrow> uint16" where
  "next_number repo i = (if Suc i < length repo then word_of_bytes (repo ! Suc i) 0 else 0xFFFF)"

definition wf_repo :: "byte list list \<Rightarrow> bool" where
  "wf_repo repo \<longleftrightarrow> repo \<noteq> [] \<and> (\<forall>rec \<in> set repo. wf_record rec \<and> word_of_bytes rec 0 \<noteq> 0xFFFF)"

definition serves_repo ::
  "(byte list \<Rightarrow> byte list) \<Rightarrow> byte list \<Rightarrow> bool \<Rightarrow> byte list list \<Rightarrow> bool" where
  "serves_repo f r isDeviceSdr repo \<longleftrightarrow>
     (\<forall>i < length repo. serves_record f r isDeviceSdr (word_of_bytes (repo ! i) 0)
        (bytes_of_word (next_number repo i)) (repo ! i)) \<and>
     serves_record f r isDeviceSdr 0 (bytes_of_word (next_number repo 0)) (repo ! 0)"

text \<open>What a scan should list: the sensors of the repository, in its order.\<close>

definition sensors_from :: "byte list list \<Rightarrow> nat \<Rightarrow> SdrInfo list" where
  "sensors_from repo i =
     map (\<lambda>j. info_of (bytes_of_word (next_number repo j)) (repo ! j))
       (filter (\<lambda>j. is_sensor_type (ucast (repo ! j ! 3))) [i ..< length repo])"

lemma scan_loop_yields:
  assumes dev: "answers I exec host f" and res: "2 \<le> length r"
    and "wf_repo repo" and "serves_repo f r isDeviceSdr repo" and "10 \<le> unat mx"
    and "i < length repo" and "recId = word_of_bytes (repo ! i) 0 \<or> i = 0 \<and> recId = 0"
  shows "yields I (scan_loop exec (Some r) 0 mx isDeviceSdr host recId acc)
    (Val (acc @ sensors_from repo i))"
  using assms(6,7)
proof (induction "length repo - i" arbitrary: i recId acc rule: less_induct)
  case less
  let ?nxt = "bytes_of_word (next_number repo i)" and ?rec = "repo ! i"
  let ?new = "if is_sensor_type (ucast (?rec ! 3)) then [info_of ?nxt ?rec] else []"
  have wf: "wf_record ?rec" "word_of_bytes ?rec 0 \<noteq> 0xFFFF"
    using assms(3) less.prems(1) by (auto simp: wf_repo_def)
  have serves: "serves_record f r isDeviceSdr (word_of_bytes ?rec 0) ?nxt ?rec"
    "serves_record f r isDeviceSdr recId ?nxt ?rec"
    using assms(4) less.prems by (auto simp: serves_repo_def)
  note header = yields_GetSdrHeader [OF dev res serves(2) wf(1)]
  note new = yields_scan_record [OF dev res serves(1) wf(1) assms(5)]
  have rest: "sensors_from repo i = ?new @ sensors_from repo (Suc i)"
    using less.prems(1) by (simp add: sensors_from_def upt_conv_Cons)
  let ?go = "\<lambda>t. if next_number repo i = 0xFFFF then return_act (acc @ ?new) t
     else scan_loop exec (Some r) 0 mx isDeviceSdr host (next_number repo i) (acc @ ?new) t"
  have "yields I ?go (Val (acc @ sensors_from repo i))"
  proof (cases "Suc i < length repo")
    case True
    then have "next_number repo i = word_of_bytes (repo ! Suc i) 0" and "next_number repo i \<noteq> 0xFFFF"
      using assms(3) by (auto simp: next_number_def wf_repo_def)
    moreover have "yields I (scan_loop exec (Some r) 0 mx isDeviceSdr host (next_number repo i) (acc @ ?new))
        (Val ((acc @ ?new) @ sensors_from repo (Suc i)))"
      by (rule less.hyps) (use True calculation less.prems in auto)
    ultimately show ?thesis by (simp add: rest)
  next
    case False
    then have "next_number repo i = 0xFFFF" and "sensors_from repo (Suc i) = []"
      by (simp_all add: next_number_def sensors_from_def)
    then show ?thesis by (simp add: rest yields_return)
  qed
  then have "yields I (bind_act (GetSdrHeader exec (Some r) recId isDeviceSdr host) (\<lambda>header.
      bind_act (scan_record exec (Some r) 0 mx isDeviceSdr host header) (\<lambda>new t.
      if NextRecordId header = 0xFFFF then return_act (acc @ new) t
      else scan_loop exec (Some r) 0 mx isDeviceSdr host (NextRecordId header) (acc @ new) t)))
    (Val (acc @ sensors_from repo i))"
    by (intro yields_bind [OF header] yields_bind [OF new]) (simp only: header_sel word_of_bytes_of_word)
  then show ?case
    unfolding yields_def by (subst scan_loop.simps)
qed

subsection \<open>Chains that do not end\<close>

text \<open>
  A chain of records: every number of \<open>S\<close> is that of a record whose successor's is in \<open>S\<close>.
\<close>

definition endless_chain ::
  "(byte list \<Rightarrow> byte list) \<Rightarrow> byte list \<Rightarrow> bool \<Rightarrow> uint16 set \<Rightarrow> bool" where
  "endless_chain f r isDeviceSdr S \<longleftrightarrow>
     0xFFFF \<notin> S \<and>
     (\<forall>recId \<in> S. \<exists>nxt rec. wf_record rec \<and> word_of_bytes nxt 0 \<in> S
        \<and> serves_record f r isDeviceSdr recId nxt rec
        \<and> serves_record f r isDeviceSdr (word_of_bytes rec 0) nxt rec)"

lemma scan_loop_diverges:
  assumes dev: "answers I exec host f" and res: "2 \<le> length r"
    and "endless_chain f r isDeviceSdr S" and "10 \<le> unat mx"
    and "recId \<in> S" and "I s"
  shows "scan_loop exec (Some r) 0 mx isDeviceSdr host recId acc s = None"
proof (rule ccontr)
  assume "scan_loop exec (Some r) 0 mx isDeviceSdr host recId acc s \<noteq> None"
  then obtain y where run: "scan_loop exec (Some r) 0 mx isDeviceSdr host recId acc s = Some y"
    by blast
  define P where "P = (\<lambda>exec' r' id0 mx' d' host' recId (acc :: SdrInfo list) s (y :: SdrInfo list go \<times> 'a).
    \<not> (exec' = exec \<and> r' = Some r \<and> id0 = (0 :: uint16) \<and> mx' = mx \<and> d' = isDeviceSdr \<and> host' = host
       \<and> recId \<in> S \<and> I s))"
  have "P exec (Some r) 0 mx isDeviceSdr host recId acc s y"
    using run
  proof (rule scan_loop.raw_induct [rotated])
    fix loop and exec' :: "'a exec" and r' id0 mx' d' host' recId acc s y
    assume IH: "\<And>exec r' id0 mx' d' host' recId acc s y.
        loop exec r' id0 mx' d' host' recId acc s = Some y \<Longrightarrow> P exec r' id0 mx' d' host' recId acc s y"
      and step: "bind_act (GetSdrHeader exec' r' recId d' host') (\<lambda>header.
        bind_act (scan_record exec' r' id0 mx' d' host' header) (\<lambda>new t.
        if NextRecordId header = 0xFFFF then return_act (acc @ new) t
        else loop exec' r' id0 mx' d' host' (NextRecordId header) (acc @ new) t)) s = Some y"
    show "P exec' r' id0 mx' d' host' recId acc s y"
      unfolding P_def
    proof (intro notI, elim conjE)
      assume eq: "exec' = exec" "r' = Some r" "id0 = 0" "mx' = mx" "d' = isDeviceSdr" "host' = host"
        and here: "recId \<in> S" "I s"
      obtain nxt rec where rec: "wf_record rec" "word_of_bytes nxt 0 \<in> S" "word_of_bytes nxt 0 \<noteq> 0xFFFF"
        "serves_record f r isDeviceSdr recId nxt rec"
        "serves_record f r isDeviceSdr (word_of_bytes rec 0) nxt rec"
        using assms(3) here(1) unfolding endless_chain_def by metis
      obtain t where 1: "GetSdrHeader exec (Some r) recId isDeviceSdr host s = Some (Val (header_of nxt rec), t)" "I t"
        using yieldsD [OF yields_GetSdrHeader [OF dev res rec(4,1)] here(2)] by blast
      obtain new u where 2: "scan_record exec (Some r) 0 mx isDeviceSdr host (header_of nxt rec) t = Some (Val new, u)" "I u"
        using yieldsD [OF yields_scan_record [OF dev res rec(5,1) assms(4)] 1(2)] by blast
      from step have "loop exec (Some r) 0 mx isDeviceSdr host (word_of_bytes nxt 0) (acc @ new) u = Some y"
        unfolding eq by (simp add: 1(1) 2(1) act_simps rec(3))
      from IH [OF this] show False using rec(2) 2(2) by (simp add: P_def)
    qed
  qed
  then show False using assms(5,6) by (simp add: P_def)
qed

section \<open>The properties\<close>

text \<open>What the commands before the loop give: the reservation and the longest read.\<close>

definition scan_ready :: "(byte list \<Rightarrow> byte list) \<Rightarrow> bool \<Rightarrow> byte list \<Rightarrow> uint16 \<Rightarrow> bool" where
  "scan_ready f isDeviceSdr r mx \<longleftrightarrow>
     r = f (if isDeviceSdr then [0x4, 0x22] else [0xa, 0x22]) \<and> 2 \<le> length r \<and>
     (if isDeviceSdr then mx = 16 else allocation_unit (f [0xa, 0x21]) = Val mx)"

lemma yields_after:
  "yields I m r \<Longrightarrow> (\<And>s. I s \<Longrightarrow> \<exists>t. I t \<and> m' s = m t) \<Longrightarrow> yields I m' r"
  unfolding yields_def by fastforce

lemma scan_ready_length: "scan_ready f isDeviceSdr r mx \<Longrightarrow> 2 \<le> length r"
  unfolding scan_ready_def by (elim conjE)

lemma ScanSdr_ready:
  assumes "answers I exec host f" and "scan_ready f isDeviceSdr r mx" and "I s"
  shows "\<exists>t. I t \<and> ScanSdr exec isDeviceSdr host s = ScanSdrLoop exec (Some r) 0 mx isDeviceSdr host t"
proof -
  have info: "\<exists>t. GetSdrInfo exec isDeviceSdr host s = Some (Val (), t) \<and> I t"
  proof -
    have "good_request (if \<not> isDeviceSdr then CmdStorageSdrInfo else CmdDeviceSdrInfo)"
      by (simp add: good_request_def sdr_commands)
    from yields_bind [OF answersD [OF assms(1) this] yields_return]
    have "yields I (GetSdrInfo exec isDeviceSdr host) (Val ())" by (simp only: GetSdrInfo_def)
    then show ?thesis using assms(3) by (rule yieldsD)
  qed
  then obtain t1 where t1: "GetSdrInfo exec isDeviceSdr host s = Some (Val (), t1)" "I t1" by blast
  have "yields I (ReserveSdr exec isDeviceSdr host) (Val r)"
    using assms(2) yields_exec_data [OF assms(1), of CmdReserveStorageSdr] yields_exec_data [OF assms(1), of CmdReserveDeviceSdr]
    by (auto simp: ReserveSdr_def scan_ready_def good_request_def sdr_commands)
  from yieldsD [OF this t1(2)] obtain t2 where t2: "ReserveSdr exec isDeviceSdr host t1 = Some (Val r, t2)" "I t2" by blast
  have "yields I (if \<not> isDeviceSdr then GetSdrRepositoryAllocationInfo exec host else return_act 16) (Val mx)"
  proof (cases isDeviceSdr)
    case True
    then show ?thesis using assms(2) by (simp add: scan_ready_def yields_return)
  next
    case False
    have "yields I (exec_data exec CmdGetSdrRepositoryAllocationInfo host) (Val (f [0xa, 0x21]))"
      using yields_exec_data [OF assms(1), of CmdGetSdrRepositoryAllocationInfo]
      by (simp add: good_request_def sdr_commands)
    moreover have "allocation_unit (f [0xa, 0x21]) = Val mx"
      using assms(2) False by (simp add: scan_ready_def)
    ultimately show ?thesis
      using False by (simp add: GetSdrRepositoryAllocationInfo_def) (metis yields_bind yields_lift)
  qed
  from yieldsD [OF this t2(2)] obtain t3 where "(if \<not> isDeviceSdr then GetSdrRepositoryAllocationInfo exec host
      else return_act 16) t2 = Some (Val mx, t3)" and "I t3" by blast
  then show ?thesis
    using t1(1) t2(1) by (intro exI [of _ t3]) (simp add: ScanSdr_def act_simps)
qed

text \<open>A device for the witnesses: a repository of three records, two of them sensors.\<close>

definition sample_repo :: "byte list list" where
  "sample_repo =
     [[1, 0, 0x51, 1, 11, 0x20, 0, 0x30, 3, 1, 0x7f, 0x68, 1, 1, 0, 0],
      [4, 0, 0x51, 0x12, 3, 0, 0, 0],
      [9, 1, 0x51, 2, 10, 0x20, 0, 0x44, 4, 1, 0, 0, 4, 0x6f, 0]]"

primrec find_number :: "byte list list \<Rightarrow> uint16 \<Rightarrow> nat option" where
  "find_number [] recId = None"
| "find_number (rec # repo) recId =
     (if word_of_bytes rec 0 = recId then Some 0 else map_option Suc (find_number repo recId))"

definition repo_find :: "byte list list \<Rightarrow> uint16 \<Rightarrow> nat option" where
  "repo_find repo recId = (if recId = 0 then Some 0 else find_number repo recId)"

definition repo_device :: "byte list list \<Rightarrow> byte list \<Rightarrow> byte list" where
  "repo_device repo cmd =
     (if length cmd = 8 then
        (case repo_find repo (word_of_bytes cmd 4) of None \<Rightarrow> []
         | Some i \<Rightarrow> bytes_of_word (next_number repo i)
             @ take (unat (cmd ! 7)) (drop (unat (cmd ! 6)) (repo ! i)))
      else if cmd ! 1 = 0x22 then [7, 0]
      else if cmd ! 1 = 0x21 then [0, 1, 16, 0, 0, 0, 0, 0, 0]
      else [])"

definition plain_exec :: "(byte list \<Rightarrow> byte list) \<Rightarrow> unit exec" where
  "plain_exec f cmd host = return_act \<lparr>RespData = 0 # f (ReqData cmd), IsValid = 1\<rparr>"

lemma plain_answers: "answers (\<lambda>_. True) (plain_exec f) host f"
  by (simp add: answers_def plain_exec_def yields_return)

lemma word_of_sdr_command [simp]:
  "word_of_bytes (sdr_command r isDeviceSdr recId off n) 4 = recId"
  using word_of_bytes_of_word [of recId]
  by (simp add: word_of_bytes_def bytes_of_word_def sdr_command_def)

lemma unat_ucast_short:
  "unat (w :: uint16) < 256 \<Longrightarrow> unat (ucast w :: byte) = unat w"
  by (simp add: unsigned_ucast_eq take_bit_nat_eq_self)

lemma repo_device_serves:
  assumes "repo_find repo recId = Some i" and "length (repo ! i) < 256"
  shows "serves_record (repo_device repo) r isDeviceSdr recId (bytes_of_word (next_number repo i)) (repo ! i)"
  unfolding serves_record_def
proof (intro conjI allI impI)
  show "length (bytes_of_word (next_number repo i)) = 2" by (simp add: bytes_of_word_def)
  fix off n :: uint16
  assume "unat off + unat n \<le> length (repo ! i)"
  then have "unat (ucast off :: byte) = unat off" "unat (ucast n :: byte) = unat n"
    using assms(2) by (simp_all add: unat_ucast_short)
  moreover have "sdr_command r isDeviceSdr recId off n ! 6 = ucast off"
    "sdr_command r isDeviceSdr recId off n ! 7 = ucast n"
    "length (sdr_command r isDeviceSdr recId off n) = 8"
    by (simp_all add: sdr_command_def)
  ultimately show "repo_device repo (sdr_command r isDeviceSdr recId off n)
      = bytes_of_word (next_number repo i) @ take (unat n) (drop (unat off) (repo ! i))"
    using assms(1) by (simp add: repo_device_def)
qed

lemma sample_repo_wf: "wf_repo sample_repo"
  by (simp add: wf_repo_def sample_repo_def wf_record_def is_sensor_type_def word_of_bytes_def)

lemma sample_repo_served: "serves_repo (repo_device sample_repo) r isDeviceSdr sample_repo"
proof -
  have find: "repo_find sample_repo 0 = Some 0" "repo_find sample_repo 1 = Some 0"
    "repo_find sample_repo 4 = Some 1" "repo_find sample_repo 265 = Some 2"
    by (simp_all add: repo_find_def sample_repo_def word_of_bytes_def)
  have num: "word_of_bytes (sample_repo ! 0) 0 = 1" "word_of_bytes (sample_repo ! 1) 0 = 4"
    "word_of_bytes (sample_repo ! 2) 0 = 265"
    by (simp_all add: sample_repo_def word_of_bytes_def)
  have len: "length sample_repo = 3" and short: "length (sample_repo ! 0) < 256"
    "length (sample_repo ! 1) < 256" "length (sample_repo ! 2) < 256"
    by (simp_all add: sample_repo_def)
  note serve = repo_device_serves [of sample_repo]
  have "serves_record (repo_device sample_repo) r isDeviceSdr (word_of_bytes (sample_repo ! i) 0)
      (bytes_of_word (next_number sample_repo i)) (sample_repo ! i)" if "i < 3" for i
  proof -
    consider "i = 0" | "i = 1" | "i = 2" using \<open>i < 3\<close> by linarith
    then show ?thesis by cases (use serve find num short in auto)
  qed
  then show ?thesis
    using serve [OF find(1) short(1)] by (simp add: serves_repo_def len)
qed

text \<open>
  C27. \<open>GetSdrBytes\<close> reads the whole record exactly when it is at most two reads long. A longer
  one is cut short, and the buffer is zero behind the part that was read, which is a little
  over its half: the loop compares the bytes read with the bytes left.
\<close>

theorem GetSdrBytes_reads:
  assumes "answers I exec host f" and "2 \<le> length r"
    and "serves_record f r isDeviceSdr recordId nxt rec"
    and "length rec = unat tot" and "unat tot < 65534" and "0 < mx" and "0 < tot"
  shows "\<exists>n \<le> unat tot.
    yields I (GetSdrBytes exec (Some r) recordId tot mx isDeviceSdr host)
      (Val (nxt @ take n rec @ replicate (unat tot - n) 0))
    \<and> (n = unat tot \<longleftrightarrow> unat tot \<le> 2 * unat mx)
    \<and> (n < unat tot \<longrightarrow> unat tot + unat mx \<le> 2 * n \<and> 2 * n < unat tot + 3 * unat mx)"
proof -
  let ?n = "sdr_read_count (unat tot) (unat mx) (unat tot) 0"
  have pos: "0 < unat mx" "0 < unat tot" using assms(6,7) by (simp_all add: word_less_nat_alt)
  have "yields I (GetSdrBytes exec (Some r) recordId tot mx isDeviceSdr host) (Val (filled nxt rec (unat tot) ?n))"
    by (rule yields_GetSdrBytes [OF assms(1-3) _ assms(5,6)]) (simp add: assms(4))
  moreover have "?n \<noteq> 0"
    using read_count_complete [OF pos] read_count_truncated [OF pos(1), of "unat tot"] pos by linarith
  moreover have "?n = unat tot \<longleftrightarrow> unat tot \<le> 2 * unat mx"
    "?n < unat tot \<longrightarrow> unat tot + unat mx \<le> 2 * ?n \<and> 2 * ?n < unat tot + 3 * unat mx"
    using read_count_complete [OF pos] read_count_truncated [OF pos(1), of "unat tot"] by linarith+
  ultimately show ?thesis
    using read_count_le [of 0 "unat tot"] by (intro exI [of _ ?n]) (simp add: filled_def)
qed

definition long_record :: "byte list" where
  "long_record = [2, 0, 0x51, 1, 43] @ replicate 43 0x20"

lemma GetSdrBytes_reads_witness:
  "\<exists>n < 48. yields (\<lambda>_. True) (GetSdrBytes (plain_exec (repo_device [long_record])) (Some [7, 0]) 0 48 16 False ''bmc'')
     (Val ([0xFF, 0xFF] @ take n long_record @ replicate (48 - n) 0))"
proof -
  have len: "length long_record = 48" by (simp add: long_record_def)
  then have "serves_record (repo_device [long_record]) [7, 0] False 0 (bytes_of_word (next_number [long_record] 0)) long_record"
    using repo_device_serves [of "[long_record]" 0 0 "[7, 0]" False] by (simp add: repo_find_def)
  moreover have "bytes_of_word (next_number [long_record] 0) = [0xFF, 0xFF]"
    by (simp add: next_number_def) (simp add: bytes_of_word_def word_eq_iff_unsigned)
  ultimately have serves: "serves_record (repo_device [long_record]) [7, 0] False 0 [0xFF, 0xFF] long_record"
    by simp
  from GetSdrBytes_reads [OF plain_answers _ serves, of "48" "16" "''bmc''"] len
  obtain n where "n \<le> 48" "n = 48 \<longleftrightarrow> (48 :: nat) \<le> 2 * 16"
    and "yields (\<lambda>_. True) (GetSdrBytes (plain_exec (repo_device [long_record])) (Some [7, 0]) 0 48 16 False ''bmc'')
     (Val ([0xFF, 0xFF] @ take n long_record @ replicate (48 - n) 0))"
    by auto
  then show ?thesis by (intro exI [of _ n]) simp
qed

lemma ScanSdr_lists:
  assumes "answers I exec host f" and "scan_ready f isDeviceSdr r mx"
    and "wf_repo repo" and "serves_repo f r isDeviceSdr repo" and "10 \<le> unat mx"
  shows "yields I (ScanSdr exec isDeviceSdr host) (Val (sensors_from repo 0))"
proof -
  have "2 \<le> length r" by (rule scan_ready_length [OF assms(2)])
  have "0 < length repo" using assms(3) by (simp add: wf_repo_def)
  have "yields I (ScanSdrLoop exec (Some r) 0 mx isDeviceSdr host) (Val (sensors_from repo 0))"
    unfolding ScanSdrLoop_def
    using scan_loop_yields [where acc = "[]", OF assms(1) \<open>2 \<le> length r\<close> assms(3-5) \<open>0 < length repo\<close>]
    by simp
  then show ?thesis using ScanSdr_ready [OF assms(1,2)] by (rule yields_after)
qed

text \<open>
  C26. \<open>ScanSdr\<close> lists exactly the sensor records (full and compact) of a well-formed
  repository, in its order, with the fields of each, and returns: for a device that answers,
  a reservation of two bytes and reads of at least ten bytes.
\<close>

theorem ScanSdr_lists_sensors:
  assumes "answers I exec host f" and "scan_ready f isDeviceSdr r mx"
    and "wf_repo repo" and "serves_repo f r isDeviceSdr repo" and "10 \<le> unat mx"
  shows "yields I (ScanSdr exec isDeviceSdr host)
    (Val (map (\<lambda>j. info_of (bytes_of_word (next_number repo j)) (repo ! j))
      (filter (\<lambda>j. is_sensor_type (ucast (repo ! j ! 3))) [0 ..< length repo])))"
  using ScanSdr_lists [OF assms] by (simp only: sensors_from_def)

lemma sample_scan_ready: "scan_ready (repo_device sample_repo) False [7, 0] 16"
  by (simp add: scan_ready_def repo_device_def allocation_unit_def)

lemma ScanSdr_lists_sensors_witness:
  "\<exists>sensors. yields (\<lambda>_. True) (ScanSdr (plain_exec (repo_device sample_repo)) False ''bmc'') (Val sensors)
     \<and> map SensorNumber sensors = [0x30, 0x44] \<and> map SensorType sensors = [1, 4]
     \<and> map EventReadingType sensors = [1, 0x6f]"
proof -
  let ?sensors = "map (\<lambda>j. info_of (bytes_of_word (next_number sample_repo j)) (sample_repo ! j))
      (filter (\<lambda>j. is_sensor_type (ucast (sample_repo ! j ! 3))) [0 ..< length sample_repo])"
  have "length sample_repo = Suc (Suc (Suc 0))" by (simp add: sample_repo_def)
  then have "filter (\<lambda>j. is_sensor_type (ucast (sample_repo ! j ! 3))) [0 ..< length sample_repo] = [0, 2]"
    by (simp add: sample_repo_def is_sensor_type_def)
  moreover have "yields (\<lambda>_. True) (ScanSdr (plain_exec (repo_device sample_repo)) False ''bmc'') (Val ?sensors)"
    by (rule ScanSdr_lists_sensors [OF plain_answers sample_scan_ready sample_repo_wf sample_repo_served]) simp
  ultimately show ?thesis
    by (intro exI [of _ ?sensors]) (simp add: info_of_def sample_repo_def)
qed

text \<open>
  C28. The scan never returns on a repository whose chain of record numbers does not end:
  nothing bounds the number of turns or remembers the records seen.
\<close>

theorem ScanSdr_endless_chain:
  assumes "answers I exec host f" and "scan_ready f isDeviceSdr r mx" and "10 \<le> unat mx"
    and "endless_chain f r isDeviceSdr S" and "0 \<in> S" and "I s"
  shows "ScanSdr exec isDeviceSdr host s = None"
proof -
  have res: "2 \<le> length r" by (rule scan_ready_length [OF assms(2)])
  obtain t where t: "I t" "ScanSdr exec isDeviceSdr host s = ScanSdrLoop exec (Some r) 0 mx isDeviceSdr host t"
    using ScanSdr_ready [OF assms(1,2,6)] by blast
  then show ?thesis
    using scan_loop_diverges [OF assms(1) res assms(4,3,5) t(1)] by (simp add: ScanSdrLoop_def)
qed

definition cyclic_device :: "byte list \<Rightarrow> byte list" where
  \<comment> \<open>one record, which names itself as the next one\<close>
  "cyclic_device cmd =
     (if length cmd = 8 then [1, 0] @ take (unat (cmd ! 7)) (drop (unat (cmd ! 6)) (sample_repo ! 0))
      else repo_device sample_repo cmd)"

lemma cyclic_device_serves:
  "serves_record cyclic_device r isDeviceSdr recId [1, 0] (sample_repo ! 0)"
proof -
  have "length (sample_repo ! 0) = 16" by (simp add: sample_repo_def)
  then show ?thesis
    by (simp add: serves_record_def cyclic_device_def sdr_command_def unat_ucast_short)
qed

lemma ScanSdr_endless_chain_witness:
  "ScanSdr (plain_exec cyclic_device) False ''bmc'' () = None"
proof (rule ScanSdr_endless_chain [OF plain_answers, of _ _ "[7, 0]" 16 "{0, 1}"])
  show "scan_ready cyclic_device False [7, 0] 16"
    by (simp add: scan_ready_def cyclic_device_def repo_device_def allocation_unit_def)
  have "wf_record (sample_repo ! 0)"
    by (simp add: wf_record_def sample_repo_def is_sensor_type_def)
  moreover have "word_of_bytes [1, 0] 0 = 1" by (simp add: word_of_bytes_def)
  ultimately show "endless_chain cyclic_device [7, 0] False {0, 1}"
    unfolding endless_chain_def using cyclic_device_serves by fastforce
qed simp_all

end
