(* ===== verification/Ipmitool.thy ===== *)
theory Ipmitool
  imports Vendor
begin

text \<open>
  \<open>ipmi/ipmitool.go\<close>: running the \<open>ipmitool\<close> program and reading the bytes it prints.

  The operating system is a parameter: \<open>os\<close> says whether \<open>ipmitool\<close> is on the path, what
  a process run prints (\<open>None\<close> when it fails) and how it changes the state of the world,
  and the host name. The world's state has any type \<open>'w\<close>.
\<close>

record 'w os =
  LookPath :: "string \<Rightarrow> string option"
  RunCommand :: "string \<Rightarrow> string list \<Rightarrow> 'w \<Rightarrow> string option \<times> 'w"
  Hostname :: string

record LinuxInBandIpmitool =
  LocalDevice :: string
  LocalChannel :: string
  LocalSlave :: string
  LocalProtocol :: string

record LinuxOutOfBand =
  OobDevice :: string
  OobChannel :: string
  OobSlave :: string
  User :: string
  Pass :: string
  OobProtocol :: string

definition hex_args :: "byte list \<Rightarrow> string list" where
  \<comment> \<open>\<open>fmt.Sprintf("0x%02x", request[i])\<close> for every byte\<close>
  "hex_args req = map (\<lambda>b. ''0x'' @ Hex02x b) req"

definition parse_output :: "string \<Rightarrow> byte list" where
  "parse_output ret =
     map (\<lambda>el. word_of_int (ParseInt_hex (TrimSpace el))) (Split CHR '' '' ret)"

definition local_args :: "byte list \<Rightarrow> LinuxInBandIpmitool \<Rightarrow> bool \<Rightarrow> string list" where
  "local_args req strct isBridged =
     (if isBridged \<and> LocalSlave strct \<noteq> ''0''
      then [''-b'', LocalChannel strct, ''-t'', LocalSlave strct, ''raw''] else [''raw''])
     @ hex_args req"

definition remote_args :: "byte list \<Rightarrow> LinuxOutOfBand \<Rightarrow> string \<Rightarrow> bool \<Rightarrow> string list" where
  "remote_args req strct addr isBridged =
     (if isBridged \<and> OobSlave strct \<noteq> ''0''
      then [''-I'', ''lanplus'', ''-H'', addr, ''-U'', User strct, ''-P'', Pass strct,
            ''-b'', OobChannel strct, ''-t'', OobSlave strct, ''raw'']
      else [''-I'', ''lanplus'', ''-H'', addr, ''-U'', User strct, ''-P'', Pass strct, ''raw''])
     @ hex_args req"

text \<open>
  A missing program or a failed run gives a nil slice, which Go reads as an empty one: no
  error reaches the caller.
\<close>

definition run_ipmitool :: "'w os \<Rightarrow> string list \<Rightarrow> 'w \<Rightarrow> byte list \<times> 'w" where
  "run_ipmitool os args w =
     (case LookPath os ''ipmitool'' of None \<Rightarrow> ([], w)
      | Some c \<Rightarrow> (case RunCommand os c args w of
            (None, w') \<Rightarrow> ([], w')
          | (Some ret, w') \<Rightarrow> (parse_output ret, w')))"

definition ExecIpmiToolLocal ::
  "'w os \<Rightarrow> byte list \<Rightarrow> LinuxInBandIpmitool \<Rightarrow> bool \<Rightarrow> 'w \<Rightarrow> byte list \<times> 'w" where
  "ExecIpmiToolLocal os req strct isBridged = run_ipmitool os (local_args req strct isBridged)"

definition ExecIpmiToolRemote ::
  "'w os \<Rightarrow> byte list \<Rightarrow> LinuxOutOfBand \<Rightarrow> string \<Rightarrow> bool \<Rightarrow> 'w \<Rightarrow> byte list \<times> 'w" where
  "ExecIpmiToolRemote os req strct addr isBridged =
     run_ipmitool os (remote_args req strct addr isBridged)"

section \<open>Reading what ipmitool prints\<close>

text \<open>
  \<open>ipmitool raw\<close> prints the response without its completion code: every byte is a space
  and two lower-case digits, a line holds sixteen bytes and ends with a newline.
\<close>

fun print_bytes :: "nat \<Rightarrow> byte list \<Rightarrow> string" where
  "print_bytes col [] = [CHR 0x0A]"
| "print_bytes col (b # bs) =
     (if col = 16 then CHR 0x0A # CHR '' '' # Hex02x b @ print_bytes 1 bs
      else CHR '' '' # Hex02x b @ print_bytes (col + 1) bs)"

lemma Hex02x_chars:
  obtains c d where "Hex02x b = [c, d]" and "solid c" and "solid d"
    and "c \<noteq> CHR '' ''" and "d \<noteq> CHR '' ''"
proof
  have lt: "unat b div 16 < 16" "unat b mod 16 < 16"
    using unat_byte_less [of b] by linarith+
  show "Hex02x b = [hex_lower (unat b div 16), hex_lower (unat b mod 16)]"
    by (simp add: Hex02x_def)
  show "solid (hex_lower (unat b div 16))" and "solid (hex_lower (unat b mod 16))"
    using lt by simp_all
  show "hex_lower (unat b div 16) \<noteq> CHR '' ''" and "hex_lower (unat b mod 16) \<noteq> CHR '' ''"
    using lt by (simp_all add: hex_lower_not_sign)
qed

lemma Hex02x_no_space: "CHR '' '' \<notin> set (Hex02x b)"
  by (rule Hex02x_chars [of b]) auto

lemma parse_Hex02x: "(word_of_int (ParseInt_hex (TrimSpace (Hex02x b))) :: byte) = b"
proof (rule Hex02x_chars [of b])
  fix c d
  assume "Hex02x b = [c, d]" and "solid c" and "solid d"
  then have "TrimSpace (Hex02x b) = Hex02x b" using TrimSpace_solid [of c d "[]"] by simp
  then show ?thesis by (simp add: ParseInt_Hex02x)
qed

lemma parse_Hex02x_newline:
  "(word_of_int (ParseInt_hex (TrimSpace (Hex02x b @ [CHR 0x0A]))) :: byte) = b"
proof (rule Hex02x_chars [of b])
  fix c d
  assume "Hex02x b = [c, d]" and "solid c" and "solid d"
  then have "TrimSpace (Hex02x b @ [CHR 0x0A]) = Hex02x b"
    using TrimSpace_solid_newline [of c d "[]"] by simp
  then show ?thesis by (simp add: ParseInt_Hex02x)
qed

text \<open>The bytes after a byte already printed on the current line.\<close>

lemma parse_after_byte:
  "map (\<lambda>el. word_of_int (ParseInt_hex (TrimSpace el)) :: byte)
     (Split CHR '' '' (Hex02x b @ print_bytes col bs)) = b # bs"
proof (induction bs arbitrary: b col)
  case Nil
  have "CHR '' '' \<notin> set (Hex02x b @ [CHR 0x0A])" using Hex02x_no_space by simp
  then show ?case by (simp add: Split_no_sep parse_Hex02x_newline)
next
  case (Cons a bs)
  have "CHR '' '' \<notin> set (Hex02x b @ [CHR 0x0A])" using Hex02x_no_space by simp
  then have "Split CHR '' '' ((Hex02x b @ [CHR 0x0A]) @ CHR '' '' # t)
      = (Hex02x b @ [CHR 0x0A]) # Split CHR '' '' t" for t
    by (rule Split_append_sep)
  moreover have "Split CHR '' '' (Hex02x b @ CHR '' '' # t) = Hex02x b # Split CHR '' '' t" for t
    using Hex02x_no_space by (rule Split_append_sep)
  ultimately show ?case
    by (simp add: Cons.IH parse_Hex02x parse_Hex02x_newline)
qed

lemma parse_output_print_eq: "parse_output (print_bytes 0 (b # bs)) = 0 # b # bs"
  using parse_after_byte [of b 1 bs] by (simp add: parse_output_def ParseInt_hex_def)

text \<open>
  C39: reading back what \<open>ipmitool\<close> prints gives the printed bytes behind one zero byte. The
  zero comes from the empty string before the first space; it stands where the completion
  code of the other backends is, so every parser's offsets fit all backends.
\<close>

theorem parse_output_print:
  assumes "bs \<noteq> []"
  shows "parse_output (print_bytes 0 bs) = 0 # bs"
  using assms by (cases bs) (simp_all add: parse_output_print_eq del: print_bytes.simps)

theorem parse_output_print_witness:
  "parse_output (print_bytes 0 [0x57, 0x01]) = [0, 0x57, 0x01]"
  by (rule parse_output_print) simp

lemma run_ipmitool_missing: "LookPath os ''ipmitool'' = None \<Longrightarrow> run_ipmitool os args w = ([], w)"
  by (simp add: run_ipmitool_def)

lemma run_ipmitool_ok:
  "LookPath os ''ipmitool'' = Some c \<Longrightarrow> RunCommand os c args w = (Some ret, w') \<Longrightarrow>
     run_ipmitool os args w = (parse_output ret, w')"
  by (simp add: run_ipmitool_def)

end
