(* ===== verification/Inband_Ipmitool.thy ===== *)
theory Inband_Ipmitool
  imports Ipmitool
begin

text \<open>
  \<open>ipmi/inbandipmitool.go\<close>: the backend that runs \<open>ipmitool\<close> on the local machine.

  \<open>world\<close> is the state of a running plugin outside its collector: the operating system and
  hardware (\<open>env\<close>), the package variables (\<open>globs\<close>) and the mutex of the out-of-band
  backend in use (\<open>oobLocked\<close>; only that backend touches it).
\<close>

record 'w world =
  env :: 'w
  globs :: globals
  oobLocked :: bool

definition on_env :: "('w \<Rightarrow> 'a \<times> 'w) \<Rightarrow> ('w world, 'a) act" where
  "on_env f = (\<lambda>s. let (x, w) = f (env s) in Some (Val x, s\<lparr>env := w\<rparr>))"

definition get_globs :: "('w world, globals) act" where
  "get_globs = (\<lambda>s. Some (Val (globs s), s))"

definition modify_globs :: "(globals \<Rightarrow> globals) \<Rightarrow> ('w world, unit) act" where
  "modify_globs f = (\<lambda>s. Some (Val (), s\<lparr>globs := f (globs s)\<rparr>))"

definition wf_world :: "'w world \<Rightarrow> bool" where
  "wf_world s \<longleftrightarrow> wf_globals (globs s)"

lemma on_env_apply [act_simps]:
  "f (env s) = (x, w) \<Longrightarrow> on_env f s = Some (Val x, s\<lparr>env := w\<rparr>)"
  by (simp add: on_env_def)

lemma get_globs_apply [act_simps]: "get_globs s = Some (Val (globs s), s)"
  by (simp add: get_globs_def)

lemma modify_globs_apply [act_simps]:
  "modify_globs f s = Some (Val (), s\<lparr>globs := f (globs s)\<rparr>)"
  by (simp add: modify_globs_def)

lemma returns_on_env [act_intros]:
  "(\<And>s w. I s \<Longrightarrow> I (s\<lparr>env := w\<rparr>)) \<Longrightarrow> returns I (on_env f)"
  by (auto simp: returns_def on_env_def split: prod.splits)

lemma returns_get_globs [act_intros]: "returns I get_globs"
  by (simp add: returns_def get_globs_def)

lemma returns_modify_globs [act_intros]:
  "(\<And>s. I s \<Longrightarrow> I (s\<lparr>globs := f (globs s)\<rparr>)) \<Longrightarrow> returns I (modify_globs f)"
  by (simp add: returns_def modify_globs_def)

section \<open>The backend\<close>

definition Local_ExecRaw ::
  "'w os \<Rightarrow> LinuxInBandIpmitool \<Rightarrow> IpmiRequest \<Rightarrow> string \<Rightarrow> ('w world, IpmiResponse) act" where
  "Local_ExecRaw os al req host =
     bind_act (on_env (ExecIpmiToolLocal os (ReqData req) al False)) (\<lambda>data.
     return_act \<lparr>RespData = data, IsValid = 1\<rparr>)"

definition Local_BatchExecRaw ::
  "'w os \<Rightarrow> LinuxInBandIpmitool \<Rightarrow> IpmiRequest list \<Rightarrow> string
     \<Rightarrow> ('w world, IpmiResponse list) act" where
  "Local_BatchExecRaw os al requests host =
     map_act (\<lambda>r. bind_act (on_env (ExecIpmiToolLocal os (ReqData r) al True)) (\<lambda>data.
       return_act \<lparr>RespData = data, IsValid = 1\<rparr>)) requests"

definition has_data :: "byte list \<Rightarrow> bool" where
  \<comment> \<open>the loop counts the zero bytes; a response of zeros only, or none, is a refusal\<close>
  "has_data a \<longleftrightarrow> length (filter (\<lambda>b. b = 0) a) \<noteq> length a"

fun local_probe ::
  "'w os \<Rightarrow> LinuxInBandIpmitool \<Rightarrow> RequestDescription list \<Rightarrow> RequestDescription list
     \<Rightarrow> ('w world, RequestDescription list) act" where
  "local_probe os al [] validRequests = return_act validRequests"
| "local_probe os al (rd # rds) validRequests =
     bind_act get_globs (\<lambda>g.
     bind_act (on_env (ExecIpmiToolLocal os (ReqData (resolve g (Request rd))) al True)) (\<lambda>response.
     local_probe os al rds (if has_data response then validRequests @ [rd] else validRequests)))"

text \<open>
  The DCMI thermal probe, with the way a command is executed as an argument, since the
  ipmitool backends share its text: \<open>Some\<close> of the description to append, if any. The two
  commands go through the package variables.
\<close>

definition thermal_probe ::
  "(byte list \<Rightarrow> ('w world, byte list) act) \<Rightarrow> ('w world, RequestDescription option) act" where
  "thermal_probe run =
     bind_act (run CmdDCMIThermalCap) (\<lambda>resp.
     if 5 < length resp then
       let data = drop 1 resp in
       bind_act (modify_globs (\<lambda>g. g\<lparr>cmdSDR := (cmdSDR g)[4 := data ! 3, 5 := data ! 4]\<rparr>)) (\<lambda>_.
       bind_act get_globs (\<lambda>g.
       bind_act (run (cmdSDR g)) (\<lambda>resp.
       if 10 < length resp then
         let data = drop 1 resp in
         bind_act (modify_globs (\<lambda>g. g\<lparr>dcmiThermalData := (dcmiThermalData g)[2 := data ! 9]\<rparr>))
           (\<lambda>_. return_act (Some DcmiThermal))
       else return_act None)))
     else return_act None)"

definition Local_GetPlatformCapabilities ::
  "'w os \<Rightarrow> LinuxInBandIpmitool \<Rightarrow> RequestDescription list \<Rightarrow> string list
     \<Rightarrow> ('w world, (string, RequestDescription list) gomap) act" where
  "Local_GetPlatformCapabilities os al requests hosts =
     bind_act (local_probe os al requests []) (\<lambda>validRequests.
     if LocalProtocol al = ''dcmi'' then
       bind_act (thermal_probe (\<lambda>req. on_env (ExecIpmiToolLocal os req al False))) (\<lambda>thermal.
       return_act [(Hostname os, validRequests @ (case thermal of None \<Rightarrow> [] | Some rd \<Rightarrow> [rd]))])
     else return_act [(Hostname os, validRequests)])"

section \<open>What the backend promises\<close>

lemma has_data_iff: "has_data a \<longleftrightarrow> (\<exists>b \<in> set a. b \<noteq> 0)"
proof -
  have "length (filter P a) = length a \<longleftrightarrow> (\<forall>b \<in> set a. P b)" for P
  proof (induction a)
    case (Cons x a)
    have "length (filter P a) \<noteq> Suc (length a)"
      by (metis Suc_n_not_le_n length_filter_le)
    with Cons show ?case by auto
  qed simp
  then show ?thesis by (auto simp: has_data_def)
qed

lemma wf_world_env [simp]: "wf_world (s\<lparr>env := w\<rparr>) = wf_world s"
  by (simp add: wf_world_def)

lemma wf_world_thermal:
  "wf_world s \<Longrightarrow> wf_world (s\<lparr>globs := (globs s)\<lparr>cmdSDR := (cmdSDR (globs s))[i := a, j := b]\<rparr>\<rparr>)"
  "wf_world s \<Longrightarrow> wf_world (s\<lparr>globs := (globs s)\<lparr>dcmiThermalData := (dcmiThermalData (globs s))[i := a]\<rparr>\<rparr>)"
  by (simp_all add: wf_world_def wf_globals_def)

lemma returns_Local_ExecRaw [act_intros]: "returns wf_world (Local_ExecRaw os al req host)"
  unfolding Local_ExecRaw_def by (intro act_intros) simp_all

lemma returns_Local_Batch [act_intros]:
  "returns wf_world (Local_BatchExecRaw os al requests host)"
  unfolding Local_BatchExecRaw_def by (intro act_intros) simp_all

lemma returns_local_probe [act_intros]: "returns wf_world (local_probe os al rds acc)"
  by (induction rds arbitrary: acc) (auto intro!: act_intros)

lemma returns_thermal_probe [act_intros]:
  "(\<And>req. returns wf_world (run req)) \<Longrightarrow> returns wf_world (thermal_probe run)"
  unfolding thermal_probe_def Let_def
  by (intro act_intros wf_world_thermal)

lemma returns_Local_Caps [act_intros]:
  "returns wf_world (Local_GetPlatformCapabilities os al requests hosts)"
  unfolding Local_GetPlatformCapabilities_def by (intro act_intros) simp_all

text \<open>
  With answers that do not depend on earlier commands, probing keeps exactly the requests
  whose answer has a nonzero byte, in the order of the table.
\<close>

lemma local_probe_filter:
  assumes "\<And>rd g w. rd \<in> set rds \<Longrightarrow>
     fst (ExecIpmiToolLocal os (ReqData (resolve g (Request rd))) al True w) = answer rd"
  shows "\<exists>w. local_probe os al rds acc s =
     Some (Val (acc @ filter (\<lambda>rd. has_data (answer rd)) rds), s\<lparr>env := w\<rparr>)"
  using assms
proof (induction rds arbitrary: acc s)
  case Nil
  show ?case by (intro exI [of _ "env s"]) (simp add: act_simps)
next
  case (Cons rd rds)
  let ?run = "ExecIpmiToolLocal os (ReqData (resolve (globs s) (Request rd))) al True (env s)"
  have a: "fst ?run = answer rd" using Cons.prems by simp
  obtain w where run: "?run = (answer rd, w)" using a by (metis prod.collapse)
  obtain w' where "local_probe os al rds
      (if has_data (answer rd) then acc @ [rd] else acc) (s\<lparr>env := w\<rparr>)
      = Some (Val ((if has_data (answer rd) then acc @ [rd] else acc)
          @ filter (\<lambda>rd. has_data (answer rd)) rds), (s\<lparr>env := w\<rparr>)\<lparr>env := w'\<rparr>)"
    using Cons.IH Cons.prems by (metis list.set_intros(2))
  with run show ?case by (auto simp: act_simps)
qed

end
