(* ===== verification/Sdr_Health.thy ===== *)
theory Sdr_Health
  imports Sdr_Scan Inband_Ipmitool
begin

text \<open>
  \<open>ipmi/sdr.go\<close>, second half: reading the sensors the scan found and judging the health of
  the components they belong to.

  The two tables are association lists with the keys of the Go maps. A lookup of a missing key
  gives the zero value; the address of a local variable is never nil, so the two guards
  \<open>&x != nil\<close> are always true and are left out. \<open>sdrInfos\<close> of the package state keeps the
  scan of the first host for every later call.
\<close>

record SensorStatus =
  StatusSensorNumber :: uint16
  Status :: uint16
  StateUnavailable :: bool
  StatusSensorType :: uint16
  ReadingType :: uint16

record SensorHealthSetting =
  SettingSensorType :: uint16
  SettingReadingType :: uint16
  SettingStatus :: "uint16 list"

record ComponentDescription =
  ComponentType :: string
  Metrics :: string

record SensorInfo =
  SensorName :: string
  ErrorCode :: uint16
  ErrorDescription :: string
  Severity :: string

text \<open>The key of a setting, \<open>fmt.Sprintf("%v:%v", sensorType, readingType)\<close>.\<close>

definition config_key :: "uint16 \<Rightarrow> uint16 \<Rightarrow> string" where
  "config_key sensorType readingType = Dec (unat sensorType) @ '':'' @ Dec (unat readingType)"

definition setting :: "nat \<Rightarrow> nat \<Rightarrow> nat list \<Rightarrow> string \<times> SensorHealthSetting" where
  \<comment> \<open>one entry of the table: its key is written from the same two numbers\<close>
  "setting t r st =
     (Dec t @ '':'' @ Dec r,
      \<lparr>SettingSensorType = of_nat t, SettingReadingType = of_nat r, SettingStatus = map of_nat st\<rparr>)"

definition SensorHealthConfig :: "(string, SensorHealthSetting) gomap" where
  "SensorHealthConfig =
    [setting 1 1 [0, 1, 2, 3, 4, 5, 6, 7, 8, 9, 10, 11, 12],
     setting 1 3 [1],
     setting 1 5 [1],
     setting 2 1 [0, 1, 2, 3, 4, 5, 6, 7, 8, 9, 10, 11, 12],
     setting 2 3 [1],
     setting 4 1 [0, 1, 2, 3, 4, 5, 6, 7, 8, 9, 10, 11, 12],
     setting 4 3 [1],
     setting 4 7 [2, 3, 5],
     setting 4 11 [1, 5],
     setting 7 1 [0, 1, 2, 3, 4, 5, 6, 7, 8, 9, 10, 11, 12],
     setting 7 3 [1],
     setting 7 111 [0, 1, 2, 3, 4, 5, 6, 11],
     setting 8 3 [1],
     setting 8 7 [2, 3, 5],
     setting 8 11 [1, 5],
     setting 8 111 [1, 2, 3, 4, 5, 6],
     setting 12 1 [0, 1, 2, 3, 4, 5, 6, 7, 8, 9, 10, 11, 12],
     setting 12 111 [1, 3, 7, 10],
     setting 12 3 [1],
     setting 13 111 [1, 2, 5, 6, 8],
     setting 13 3 [1],
     setting 41 111 [0, 1]]"

definition SensorTypeComponentMap :: "(uint16, ComponentDescription) gomap" where
  "SensorTypeComponentMap =
    [(1, \<lparr>ComponentType = ''TEMPERATURE_HEALTH'', Metrics = ''health/temperature''\<rparr>),
     (2, \<lparr>ComponentType = ''VOLTAGE_HEALTH'', Metrics = ''health/voltage''\<rparr>),
     (4, \<lparr>ComponentType = ''FAN_HEALTH'', Metrics = ''health/fan''\<rparr>),
     (7, \<lparr>ComponentType = ''PROCESSOR_HEALTH'', Metrics = ''health/processor''\<rparr>),
     (8, \<lparr>ComponentType = ''POWERSUPPLY_HEALTH'', Metrics = ''health/powersupply''\<rparr>),
     (12, \<lparr>ComponentType = ''MEMORY_HEALTH'', Metrics = ''health/memory''\<rparr>),
     (13, \<lparr>ComponentType = ''STORAGE_HEALTH'', Metrics = ''health/storage''\<rparr>),
     (41, \<lparr>ComponentType = ''BATTERY_HEALTH'', Metrics = ''health/battery''\<rparr>)]"

section \<open>Sensor readings\<close>

definition no_status :: SensorStatus where
  "no_status = \<lparr>StatusSensorNumber = 0, Status = 0, StateUnavailable = False, StatusSensorType = 0, ReadingType = 0\<rparr>"

definition is_discrete :: "uint16 \<Rightarrow> bool" where
  "is_discrete readingType \<longleftrightarrow> readingType = 0x6F \<or> 0x02 \<le> readingType \<and> readingType \<le> 0x0C"

text \<open>One turn of the loop of \<open>GetSdrData\<close>, on the bytes behind the completion code.\<close>

definition sensor_status :: "SdrInfo \<Rightarrow> byte list \<Rightarrow> SensorStatus go" where
  "sensor_status sdr data =
     bind_go (idx data 1) (\<lambda>flags.
     if flags AND 0x20 \<noteq> 0 \<or> flags AND 0x40 = 0 then Val (no_status\<lparr>StateUnavailable := True\<rparr>)
     else
       bind_go (if is_discrete (EventReadingType sdr) then
                  bind_go (idx data 2) (\<lambda>d2.
                  if 4 \<le> length data then
                    bind_go (idx data 3) (\<lambda>d3. Val (ucast d2 OR push_bit 8 (ucast d3 AND 0x7F)))
                  else Val (ucast d2))
                else if EventReadingType sdr = 0x01 then bind_go (idx data 2) (\<lambda>d2. Val (ucast d2 AND 0x3F))
                else Val 0) (\<lambda>status.
       Val \<lparr>StatusSensorNumber = SensorNumber sdr, Status = status, StateUnavailable = False,
            StatusSensorType = SensorType sdr, ReadingType = EventReadingType sdr\<rparr>))"

definition GetSdrData :: "'s exec \<Rightarrow> SdrInfo list \<Rightarrow> string \<Rightarrow> ('s, SensorStatus list) act" where
  "GetSdrData exec sdrs host =
     map_act (\<lambda>sdr.
       bind_act (exec_data exec (reading_request (ucast (SensorNumber sdr))) host) (\<lambda>data.
       lift_go (sensor_status sdr data))) sdrs"

definition sensor_info :: "uint16 \<Rightarrow> string \<Rightarrow> string \<Rightarrow> SensorInfo" where
  "sensor_info code description severity =
     \<lparr>SensorName = [], ErrorCode = code, ErrorDescription = description, Severity = severity\<rparr>"

definition GetSensorInfo :: "uint16 \<Rightarrow> SensorInfo" where
  "GetSensorInfo reading =
     (if reading AND push_bit 5 1 \<noteq> 0 then
        sensor_info 6 ''at or above upper non-recoverable threshold'' ''CRITICAL''
      else if reading AND push_bit 4 1 \<noteq> 0 then
        sensor_info 5 ''at or above upper critical threshold'' ''CRITICAL''
      else if reading AND push_bit 3 1 \<noteq> 0 then
        sensor_info 4 ''at or above upper non-critical threshold'' ''WARNING''
      else if reading AND push_bit 2 1 \<noteq> 0 then
        sensor_info 3 ''at or below lower non-recoverable threshold'' ''CRITICAL''
      else if reading AND push_bit 1 1 \<noteq> 0 then
        sensor_info 2 ''at or below lower critical threshold'' ''CRITICAL''
      else if reading AND push_bit 0 1 \<noteq> 0 then
        sensor_info 1 ''at or below lower non-critical threshold'' ''WARNING''
      else sensor_info 0 '''' ''OK'')"

section \<open>Component health\<close>

text \<open>
  The loop over the statuses. For a discrete sensor the inner loop ranges over the slice
  \<open>Status\<close> with one variable, which is the index, so the bits tested are 0, 1, \<dots>.
\<close>

definition lookup_component :: "uint16 \<Rightarrow> ComponentDescription" where
  "lookup_component t = lookup_or \<lparr>ComponentType = [], Metrics = []\<rparr> SensorTypeComponentMap t"

definition lookup_setting :: "uint16 \<Rightarrow> uint16 \<Rightarrow> SensorHealthSetting" where
  "lookup_setting t r =
     lookup_or \<lparr>SettingSensorType = 0, SettingReadingType = 0, SettingStatus = []\<rparr>
       SensorHealthConfig (config_key t r)"

definition discrete_alarm :: "SensorHealthSetting \<Rightarrow> uint16 \<Rightarrow> bool" where
  "discrete_alarm s status \<longleftrightarrow>
     list_ex (\<lambda>unexpectedStat. status AND push_bit unexpectedStat 1 \<noteq> 0) [0 ..< length (SettingStatus s)]"

definition judge ::
  "SensorStatus \<Rightarrow> (string, string) gomap \<Rightarrow> (string, string) gomap" where
  "judge sdrStat ret =
     (if StateUnavailable sdrStat then ret
      else
        let componentType = lookup_component (StatusSensorType sdrStat) in
        if ReadingType sdrStat = 1 then
          AList.update (Metrics componentType) (Severity (GetSensorInfo (Status sdrStat))) ret
        else if discrete_alarm (lookup_setting (StatusSensorType sdrStat) (ReadingType sdrStat))
                  (Status sdrStat) then
          AList.update (Metrics componentType) ''SEV_UNKNOWN'' ret
        else ret)"

definition GetComponentHealth ::
  "'w world exec \<Rightarrow> string \<Rightarrow> ('w world, (string, string) gomap) act" where
  "GetComponentHealth exec host =
     bind_act (GetDeviceId exec host) (\<lambda>deviceId.
     bind_act get_globs (\<lambda>g.
     bind_act (case sdrInfos g of
         None \<Rightarrow> bind_act (ScanSdr exec (IsDeviceSdr deviceId) host) (\<lambda>infos.
                  bind_act (modify_globs (\<lambda>g. g\<lparr>sdrInfos := Some infos\<rparr>)) (\<lambda>_. return_act infos))
       | Some infos \<Rightarrow> return_act infos) (\<lambda>infos.
     bind_act (GetSdrData exec infos host) (\<lambda>sdrStatus.
     return_act (fold judge sdrStatus [])))))"

section \<open>Threshold sensors\<close>

lemma GetSensorInfo_bits:
  "GetSensorInfo reading =
     (if bit reading 5 then sensor_info 6 ''at or above upper non-recoverable threshold'' ''CRITICAL''
      else if bit reading 4 then sensor_info 5 ''at or above upper critical threshold'' ''CRITICAL''
      else if bit reading 3 then sensor_info 4 ''at or above upper non-critical threshold'' ''WARNING''
      else if bit reading 2 then sensor_info 3 ''at or below lower non-recoverable threshold'' ''CRITICAL''
      else if bit reading 1 then sensor_info 2 ''at or below lower critical threshold'' ''CRITICAL''
      else if bit reading 0 then sensor_info 1 ''at or below lower non-critical threshold'' ''WARNING''
      else sensor_info 0 '''' ''OK'')"
  by (simp only: GetSensorInfo_def bit_iff_and_push_bit_not_eq_0)

lemma sensor_info_sel [simp]:
  "ErrorCode (sensor_info c d v) = c" "Severity (sensor_info c d v) = v"
  by (simp_all add: sensor_info_def)

text \<open>
  C31. The error code of a threshold reading is one more than its highest set bit among the six
  (0 when none is set); the severity is \<open>WARNING\<close> exactly for the two non-critical thresholds
  and \<open>OK\<close> exactly when no bit is set. So a non-critical upper threshold hides a lower one.
\<close>

theorem GetSensorInfo_highest_bit:
  "ErrorCode (GetSensorInfo reading) = of_nat (fold max (map Suc (filter (bit reading) [0 ..< 6])) 0)
   \<and> (Severity (GetSensorInfo reading) = ''OK'' \<longleftrightarrow> filter (bit reading) [0 ..< 6] = [])
   \<and> (Severity (GetSensorInfo reading) = ''WARNING'' \<longleftrightarrow> ErrorCode (GetSensorInfo reading) \<in> {1, 4})
   \<and> (Severity (GetSensorInfo reading) = ''CRITICAL'' \<longleftrightarrow> ErrorCode (GetSensorInfo reading) \<in> {2, 3, 5, 6})"
proof -
  have six: "[0 ..< 6] = [0, 1, 2, 3, 4, 5 :: nat]" by (simp add: upt_rec)
  show ?thesis
    unfolding six GetSensorInfo_bits by simp
qed

section \<open>Discrete sensors\<close>

text \<open>What the table means: the bits listed in \<open>Status\<close> are the unexpected states.\<close>

definition listed_alarm :: "SensorHealthSetting \<Rightarrow> uint16 \<Rightarrow> bool" where
  "listed_alarm s status \<longleftrightarrow> list_ex (\<lambda>b. bit status (unat b)) (SettingStatus s)"

lemma discrete_alarm_iff: "discrete_alarm s status \<longleftrightarrow> (\<exists>i < length (SettingStatus s). bit status i)"
  by (auto simp: discrete_alarm_def list_ex_iff bit_iff_and_push_bit_not_eq_0)

lemma alarms_agree_iff:
  assumes "length (SettingStatus s) \<le> 16" and "\<forall>b \<in> set (SettingStatus s). unat b < 16"
  shows "(\<forall>status. discrete_alarm s status \<longleftrightarrow> listed_alarm s status)
     \<longleftrightarrow> unat ` set (SettingStatus s) = {..< length (SettingStatus s)}"
proof -
  have single: "bit (push_bit i (1 :: uint16)) j \<longleftrightarrow> j = i" if "i < 16" for i j
    using that by (auto simp: bit_simps)
  have 1: "discrete_alarm s st \<longleftrightarrow> (\<exists>i \<in> {..< length (SettingStatus s)}. bit st i)" for st
    by (auto simp: discrete_alarm_iff)
  have 2: "listed_alarm s st \<longleftrightarrow> (\<exists>i \<in> unat ` set (SettingStatus s). bit st i)" for st
    by (simp add: listed_alarm_def list_ex_iff)
  show ?thesis
  proof
    assume agree: "\<forall>status. discrete_alarm s status \<longleftrightarrow> listed_alarm s status"
    have "i \<in> unat ` set (SettingStatus s) \<longleftrightarrow> i < length (SettingStatus s)" if "i < 16" for i
      using agree [rule_format, of "push_bit i 1"] single [OF that] unfolding 1 2 by auto
    then show "unat ` set (SettingStatus s) = {..< length (SettingStatus s)}"
      using assms by (auto simp: subset_eq)
  next
    assume "unat ` set (SettingStatus s) = {..< length (SettingStatus s)}"
    then show "\<forall>status. discrete_alarm s status \<longleftrightarrow> listed_alarm s status" unfolding 1 2 by simp
  qed
qed

lemma table_bounds:
  "list_all (\<lambda>(k, s). length (SettingStatus s) \<le> 16 \<and> list_all (\<lambda>b. unat b < 16) (SettingStatus s))
     SensorHealthConfig"
  by (simp add: SensorHealthConfig_def setting_def)

lemma table_contiguous:
  "map fst (filter (\<lambda>(k, s). set (map unat (SettingStatus s)) = set [0 ..< length (SettingStatus s)])
     SensorHealthConfig) = [''1:1'', ''2:1'', ''4:1'', ''7:1'', ''12:1'', ''41:111'']"
  by code_simp

text \<open>
  C32. The bits tested for a discrete sensor are 0, 1, \<dots> up to the number of listed states, not
  the listed states. Six of the 22 settings are the same either way; of those only the battery's
  is ever consulted, the others being of threshold sensors.
\<close>

theorem discrete_alarms_as_listed:
  "map fst (filter (\<lambda>(k, s). \<forall>status. discrete_alarm s status \<longleftrightarrow> listed_alarm s status)
     SensorHealthConfig) = [''1:1'', ''2:1'', ''4:1'', ''7:1'', ''12:1'', ''41:111'']"
proof -
  have eq: "(\<forall>status. discrete_alarm s status \<longleftrightarrow> listed_alarm s status)
      \<longleftrightarrow> set (map unat (SettingStatus s)) = set [0 ..< length (SettingStatus s)]"
    if "(k, s) \<in> set SensorHealthConfig" for k s
    using alarms_agree_iff [of s] table_bounds that
    by (fastforce simp: list_all_iff atLeast0LessThan)
  have "filter (\<lambda>(k, s). \<forall>status. discrete_alarm s status \<longleftrightarrow> listed_alarm s status) SensorHealthConfig
      = filter (\<lambda>(k, s). set (map unat (SettingStatus s)) = set [0 ..< length (SettingStatus s)]) SensorHealthConfig"
  proof (rule filter_cong [OF refl])
    fix p
    assume p: "p \<in> set SensorHealthConfig"
    obtain k s where "p = (k, s)" by fastforce
    with p show "(case p of (k, s) \<Rightarrow> \<forall>status. discrete_alarm s status \<longleftrightarrow> listed_alarm s status) =
        (case p of (k, s) \<Rightarrow> set (map unat (SettingStatus s)) = set [0 ..< length (SettingStatus s)])"
      by (simp only: case_prod_conv eq)
  qed
  then show ?thesis using table_contiguous by (simp only:)
qed

section \<open>Readings\<close>

text \<open>
  A reading panics exactly when it is too short for what the code looks at: one byte (a
  completion code alone is zero) always, two bytes when the sensor is available and of a kind
  whose state is read.
\<close>

theorem sensor_status_panic_iff:
  "is_panic (sensor_status sdr data) \<longleftrightarrow>
     length data < 2 \<or>
     length data = 2 \<and> data ! 1 AND 0x20 = 0 \<and> data ! 1 AND 0x40 \<noteq> 0
       \<and> (is_discrete (EventReadingType sdr) \<or> EventReadingType sdr = 1)"
proof (cases "length data < 2")
  case True
  then show ?thesis by (simp add: sensor_status_def)
next
  case False
  then show ?thesis
    by (auto simp: sensor_status_def bind_go_panic_iff idx_def)
qed

section \<open>Health of a component\<close>

text \<open>What one status says, if anything, and of which metric.\<close>

definition verdict :: "SensorStatus \<Rightarrow> (string \<times> string) option" where
  "verdict st =
     (if StateUnavailable st then None
      else if ReadingType st = 1 then
        Some (Metrics (lookup_component (StatusSensorType st)), Severity (GetSensorInfo (Status st)))
      else if discrete_alarm (lookup_setting (StatusSensorType st) (ReadingType st)) (Status st) then
        Some (Metrics (lookup_component (StatusSensorType st)), ''SEV_UNKNOWN'')
      else None)"

lemma judge_verdict:
  "judge st ret = (case verdict st of None \<Rightarrow> ret | Some (k, v) \<Rightarrow> AList.update k v ret)"
  by (simp add: judge_def verdict_def Let_def)

lemma fold_judge:
  "map_of (fold judge sts ret) m =
     (case map_of (rev (List.map_filter verdict sts)) m of None \<Rightarrow> map_of ret m | Some v \<Rightarrow> Some v)"
proof (induction sts arbitrary: ret)
  case Nil
  then show ?case by (simp add: map_filter_simps)
next
  case (Cons st sts)
  then show ?case
    by (cases "verdict st")
       (auto simp: judge_verdict map_filter_simps map_of_append map_add_def split: option.splits)
qed

lemma GetSdrData_yields:
  assumes "answers I exec host f"
    and "\<forall>sdr \<in> set infos. sensor_status sdr (f [0x4, 0x2d, ucast (SensorNumber sdr)]) = Val (st sdr)"
  shows "yields I (GetSdrData exec infos host) (Val (map st infos))"
  using assms(2)
proof (induction infos)
  case Nil
  then show ?case by (simp add: GetSdrData_def yields_return)
next
  case (Cons sdr infos)
  let ?read = "reading_request (ucast (SensorNumber sdr))"
  have good: "good_request ?read" "ReqData ?read = [0x4, 0x2d, ucast (SensorNumber sdr)]"
    by (simp_all add: reading_request_def good_request_def sdr_commands Let_def)
  have "yields I (bind_act (exec_data exec ?read host) (\<lambda>data. lift_go (sensor_status sdr data)))
      (sensor_status sdr (f [0x4, 0x2d, ucast (SensorNumber sdr)]))"
    using yields_bind [OF yields_exec_data [OF assms(1) good(1)] yields_lift] good(2) by simp
  with Cons.prems have 1: "yields I (bind_act (exec_data exec ?read host) (\<lambda>data. lift_go (sensor_status sdr data)))
      (Val (st sdr))" by simp
  have 2: "yields I (GetSdrData exec infos host) (Val (map st infos))"
    using Cons by simp
  show ?case
    using yields_bind [OF 1 yields_bind [OF 2 [unfolded GetSdrData_def] yields_return]]
    by (simp add: GetSdrData_def)
qed

lemma returns_GetSdrData:
  assumes "ipmi_exec exec I"
  shows "returns I (GetSdrData exec infos host)"
  unfolding GetSdrData_def by (intro act_intros ipmi_exec.returns_exec_data [OF assms])

lemma GetComponentHealth_cached:
  assumes "ipmi_exec exec I" and "\<And>s. I s \<Longrightarrow> sdrInfos (globs s) = Some infos" and "I s"
  shows "GetComponentHealth exec host s =
    bind_act (GetDeviceId exec host) (\<lambda>_. bind_act (GetSdrData exec infos host)
      (\<lambda>sdrStatus. return_act (fold judge sdrStatus []))) s"
proof -
  obtain r t where run: "GetDeviceId exec host s = Some (r, t)" and "I t"
    using returnsD [OF ipmi_exec.returns_GetDeviceId [OF assms(1)] assms(3)] by blast
  then show ?thesis
    using assms(2) by (cases r) (simp_all add: GetComponentHealth_def act_simps)
qed

lemma returns_GetComponentHealth:
  assumes "ipmi_exec exec I" and "\<And>s. I s \<Longrightarrow> sdrInfos (globs s) = Some infos"
  shows "returns I (GetComponentHealth exec host)"
proof -
  have "returns I (bind_act (GetDeviceId exec host) (\<lambda>_. bind_act (GetSdrData exec infos host)
      (\<lambda>sdrStatus. return_act (fold judge sdrStatus []))))"
    by (intro act_intros returns_GetSdrData [OF assms(1)] ipmi_exec.returns_GetDeviceId [OF assms(1)])
  then show ?thesis
    using GetComponentHealth_cached [OF assms] by (simp add: returns_def)
qed

text \<open>
  C29. Once the sensors are known, the health reported for a metric is the verdict of the last
  sensor in the scan that has one for it. So a failed sensor is reported as \<open>OK\<close> when a later
  threshold sensor of the same type is fine.
\<close>

theorem health_is_last_verdict:
  assumes "answers I exec host f" and "\<forall>s. I s \<longrightarrow> sdrInfos (globs s) = Some infos"
    and "device_id (f [0x6, 0x1]) = Val d"
    and "\<forall>sdr \<in> set infos. sensor_status sdr (f [0x4, 0x2d, ucast (SensorNumber sdr)]) = Val (st sdr)"
  shows "\<exists>ret. yields I (GetComponentHealth exec host) (Val ret)
    \<and> (\<forall>m. map_of ret m = map_of (rev (List.map_filter (\<lambda>sdr. verdict (st sdr)) infos)) m)"
proof -
  have "good_request CmdGetDeviceId" by (simp add: good_request_def sdr_commands)
  note this [THEN yields_exec_data [OF assms(1)]]
  then have id: "yields I (GetDeviceId exec host) (Val d)"
    unfolding GetDeviceId_def by (rule yields_bind) (simp add: sdr_commands assms(3) yields_lift)
  let ?ret = "fold judge (map st infos) []"
  note data = GetSdrData_yields [OF assms(1,4)]
  have "yields I (GetComponentHealth exec host) (Val ?ret)"
    unfolding yields_def
  proof (intro allI impI)
    fix s
    assume "I s"
    then obtain t where t: "GetDeviceId exec host s = Some (Val d, t)" "I t"
      using yieldsD [OF id] by blast
    obtain u where u: "GetSdrData exec infos host t = Some (Val (map st infos), u)" "I u"
      using yieldsD [OF data t(2)] by blast
    show "\<exists>t. GetComponentHealth exec host s = Some (Val ?ret, t) \<and> I t"
      using t u assms(2) by (intro exI [of _ u]) (simp add: GetComponentHealth_def act_simps)
  qed
  moreover have "List.map_filter verdict (map st infos) = List.map_filter (\<lambda>sdr. verdict (st sdr)) infos"
    by (induction infos) (simp_all add: map_filter_simps split: option.splits)
  then have "map_of ?ret m = map_of (rev (List.map_filter (\<lambda>sdr. verdict (st sdr)) infos)) m" for m
    by (simp only: fold_judge) (simp split: option.splits)
  ultimately show ?thesis by blast
qed

definition threshold_sensor :: "uint16 \<Rightarrow> uint16 \<Rightarrow> SdrInfo" where
  "threshold_sensor n t =
     \<lparr>Header = header_of [0, 0] [0, 0, 0, 1, 0], SensorNumber = n, SensorType = t, EventReadingType = 1\<rparr>"

definition two_temperatures :: "byte list \<Rightarrow> byte list" where
  \<comment> \<open>the sensor 1 is above its upper non-recoverable threshold, the sensor 2 is fine\<close>
  "two_temperatures cmd =
     (if cmd = [0x4, 0x2d, 1] then [99, 0xC0, 0x20, 0]
      else if cmd = [0x4, 0x2d, 2] then [20, 0xC0, 0, 0]
      else [0x20, 0x01, 0, 0, 0, 0])"

definition health_world :: "SdrInfo list \<Rightarrow> unit world" where
  "health_world infos = \<lparr>env = (), globs = init_globals\<lparr>sdrInfos := Some infos\<rparr>, oobLocked = False\<rparr>"

definition plain_world_exec :: "(byte list \<Rightarrow> byte list) \<Rightarrow> unit world exec" where
  "plain_world_exec f cmd host = return_act \<lparr>RespData = 0 # f (ReqData cmd), IsValid = 1\<rparr>"

lemma plain_world_answers: "answers I (plain_world_exec f) host f"
  by (simp add: answers_def plain_world_exec_def yields_return)

lemma health_is_last_verdict_witness:
  "\<exists>ret t. GetComponentHealth (plain_world_exec two_temperatures) ''bmc''
       (health_world [threshold_sensor 1 1, threshold_sensor 2 1]) = Some (Val ret, t)
     \<and> map_of ret ''health/temperature'' = Some ''OK''
     \<and> verdict \<lparr>StatusSensorNumber = 1, Status = 0x20, StateUnavailable = False, StatusSensorType = 1,
         ReadingType = 1\<rparr> = Some (''health/temperature'', ''CRITICAL'')"
proof -
  let ?infos = "[threshold_sensor 1 1, threshold_sensor 2 1]"
  let ?I = "\<lambda>s :: unit world. sdrInfos (globs s) = Some ?infos"
  let ?st = "\<lambda>sdr. \<lparr>StatusSensorNumber = SensorNumber sdr, Status = (if SensorNumber sdr = 1 then 0x20 else 0),
    StateUnavailable = False, StatusSensorType = 1, ReadingType = 1\<rparr>"
  have dev: "device_id (two_temperatures [0x6, 0x1]) = Val \<lparr>IsDeviceSdr = False\<rparr>"
    by (simp add: two_temperatures_def device_id_def)
  have st: "\<forall>sdr \<in> set ?infos. sensor_status sdr (two_temperatures [0x4, 0x2d, ucast (SensorNumber sdr)]) = Val (?st sdr)"
    by (simp add: threshold_sensor_def two_temperatures_def sensor_status_def is_discrete_def)
  obtain ret where ret: "yields ?I (GetComponentHealth (plain_world_exec two_temperatures) ''bmc'') (Val ret)"
    "\<forall>m. map_of ret m = map_of (rev (List.map_filter (\<lambda>sdr. verdict (?st sdr)) ?infos)) m"
    using health_is_last_verdict [OF plain_world_answers, of ?I ?infos two_temperatures, OF _ dev st] by blast
  have comp: "Metrics (lookup_component 1) = ''health/temperature''"
    by (simp add: lookup_component_def lookup_or_def SensorTypeComponentMap_def)
  have "?I (health_world ?infos)" by (simp add: health_world_def)
  from yieldsD [OF ret(1) this] obtain t where
    "GetComponentHealth (plain_world_exec two_temperatures) ''bmc'' (health_world ?infos) = Some (Val ret, t)"
    by blast
  moreover have "map_of ret ''health/temperature'' = Some ''OK''"
    using ret(2) by (simp add: map_filter_simps verdict_def comp threshold_sensor_def GetSensorInfo_def)
  moreover have "verdict \<lparr>StatusSensorNumber = 1, Status = 0x20, StateUnavailable = False, StatusSensorType = 1,
         ReadingType = 1\<rparr> = Some (''health/temperature'', ''CRITICAL'')"
    by (simp add: verdict_def comp GetSensorInfo_def)
  ultimately show ?thesis by blast
qed

section \<open>The cached scan\<close>

text \<open>Running commands does not touch the package state.\<close>

definition keeps_globs :: "('w world, 'a) act \<Rightarrow> bool" where
  "keeps_globs m \<longleftrightarrow> (\<forall>s r t. m s = Some (r, t) \<longrightarrow> globs t = globs s)"

lemma keeps_globsD: "keeps_globs m \<Longrightarrow> m s = Some (r, t) \<Longrightarrow> globs t = globs s"
  by (simp add: keeps_globs_def)

lemma keeps_lift: "keeps_globs (lift_go r)"
  by (simp add: keeps_globs_def act_simps)

lemma keeps_return: "keeps_globs (return_act x)"
  by (simp add: keeps_globs_def act_simps)

lemma keeps_bind:
  "keeps_globs m \<Longrightarrow> (\<And>x. keeps_globs (f x)) \<Longrightarrow> keeps_globs (bind_act m f)"
  unfolding keeps_globs_def bind_act_eq_Some by metis

lemma keeps_map_act: "(\<And>x. keeps_globs (f x)) \<Longrightarrow> keeps_globs (map_act f xs)"
  by (induction xs) (auto intro!: keeps_bind keeps_return)

lemmas keeps_intros = keeps_bind keeps_map_act keeps_lift keeps_return

lemma keeps_GetDeviceId:
  "(\<And>cmd. keeps_globs (exec cmd host)) \<Longrightarrow> keeps_globs (GetDeviceId exec host)"
  unfolding GetDeviceId_def exec_data_def by (intro keeps_intros)

lemma keeps_GetSdrData:
  "(\<And>cmd. keeps_globs (exec cmd host)) \<Longrightarrow> keeps_globs (GetSdrData exec infos host)"
  unfolding GetSdrData_def exec_data_def by (intro keeps_intros)

text \<open>
  C30. The scan is kept for the life of the plugin, whatever the host: after a first call that
  returned health for host \<open>A\<close>, a call for any host \<open>B\<close> reads the sensors of the scan of \<open>A\<close>, and
  never \<open>B\<close>'s own repository.
\<close>

theorem health_scan_is_shared:
  assumes "\<And>cmd host. keeps_globs (exec cmd host)" and "sdrInfos (globs s) = None"
    and "GetComponentHealth exec A s = Some (Val ret, t)"
  shows "\<exists>infos d s1 s2. ScanSdr exec d A s1 = Some (Val infos, s2) \<and> sdrInfos (globs t) = Some infos
    \<and> (\<forall>B u. globs u = globs t \<longrightarrow>
         GetComponentHealth exec B u = bind_act (GetDeviceId exec B) (\<lambda>_. bind_act (GetSdrData exec infos B)
           (\<lambda>sdrStatus. return_act (fold judge sdrStatus []))) u)"
proof -
  obtain d s1 where id: "GetDeviceId exec A s = Some (Val d, s1)"
    using assms(3) unfolding GetComponentHealth_def bind_act_eq_Val by blast
  have "globs s1 = globs s"
    by (rule keeps_globsD [OF keeps_GetDeviceId [OF assms(1)] id])
  then have none: "sdrInfos (globs s1) = None" using assms(2) by simp
  obtain infos s2 sts where scan: "ScanSdr exec (IsDeviceSdr d) A s1 = Some (Val infos, s2)"
    and data: "GetSdrData exec infos A (s2\<lparr>globs := (globs s2)\<lparr>sdrInfos := Some infos\<rparr>\<rparr>) = Some (Val sts, t)"
    using assms(3) unfolding GetComponentHealth_def bind_act_Val [where m = "GetDeviceId exec A", OF id]
      bind_act_Val [where m = get_globs, OF get_globs_apply] none option.case
    by (auto simp only: bind_act_eq_Val modify_globs_apply return_act_apply option.inject prod.inject go.inject)
  have "globs t = globs (s2\<lparr>globs := (globs s2)\<lparr>sdrInfos := Some infos\<rparr>\<rparr>)"
    by (rule keeps_globsD [OF keeps_GetSdrData [OF assms(1)] data])
  then have cached: "sdrInfos (globs t) = Some infos" by simp
  have "GetComponentHealth exec B u = bind_act (GetDeviceId exec B) (\<lambda>_. bind_act (GetSdrData exec infos B)
      (\<lambda>sdrStatus. return_act (fold judge sdrStatus []))) u" if "globs u = globs t" for B u
  proof (cases "GetDeviceId exec B u")
    case None
    then show ?thesis by (simp add: GetComponentHealth_def act_simps)
  next
    case (Some rv)
    obtain r v where rv: "rv = (r, v)" by fastforce
    have "globs v = globs u"
      by (rule keeps_globsD [OF keeps_GetDeviceId [OF assms(1)] Some [unfolded rv]])
    with Some rv that cached show ?thesis
      by (cases r) (simp_all add: GetComponentHealth_def act_simps)
  qed
  with scan cached show ?thesis by blast
qed

definition sensor_device :: "byte list \<Rightarrow> byte list" where
  \<comment> \<open>the repository of the samples, an identification and readings that are all fine\<close>
  "sensor_device cmd =
     (if cmd = [0x6, 0x1] then [0x20, 0x01, 0, 0, 0, 0]
      else if take 2 cmd = [0x4, 0x2d] then [20, 0xC0, 0, 0]
      else repo_device sample_repo cmd)"

lemma plain_world_keeps: "keeps_globs (plain_world_exec f cmd host)"
  by (simp add: plain_world_exec_def keeps_return)

lemma sensor_device_serves: "serves_repo sensor_device r False sample_repo"
proof -
  have "sensor_device (sdr_command r False recId off n) = repo_device sample_repo (sdr_command r False recId off n)"
    for recId off n
    by (simp add: sensor_device_def sdr_command_def)
  then show ?thesis
    using sample_repo_served [of r False] unfolding serves_repo_def serves_record_def by simp
qed

lemma sensor_device_health:
  "\<exists>ret t. GetComponentHealth (plain_world_exec sensor_device) host \<lparr>env = (), globs = init_globals, oobLocked = False\<rparr>
     = Some (Val ret, t)"
proof -
  let ?exec = "plain_world_exec sensor_device" and ?I = "\<lambda>s :: unit world. True"
  let ?s = "\<lparr>env = (), globs = init_globals, oobLocked = False\<rparr>"
  have id: "GetDeviceId ?exec host ?s = Some (Val \<lparr>IsDeviceSdr = False\<rparr>, ?s)"
    by (simp add: GetDeviceId_def exec_data_def plain_world_exec_def act_simps sdr_commands
        response_data_def sensor_device_def device_id_def)
  have ready: "scan_ready sensor_device False [7, 0] 16"
    by (simp add: scan_ready_def sensor_device_def repo_device_def allocation_unit_def)
  obtain infos where "yields ?I (ScanSdr ?exec False host) (Val infos)"
    using ScanSdr_lists [OF plain_world_answers ready sample_repo_wf sensor_device_serves] by auto
  from yieldsD [OF this, of ?s] obtain s2 where scan: "ScanSdr ?exec False host ?s = Some (Val infos, s2)" by auto
  have "\<forall>sdr \<in> set xs. \<exists>v. sensor_status sdr (sensor_device [0x4, 0x2d, ucast (SensorNumber sdr)]) = Val v" for xs
    by (simp add: sensor_device_def sensor_status_def)
  then obtain st where "\<forall>sdr \<in> set infos. sensor_status sdr (sensor_device [0x4, 0x2d, ucast (SensorNumber sdr)]) = Val (st sdr)"
    by metis
  note GetSdrData_yields [OF plain_world_answers [of ?I] this]
  from yieldsD [OF this] obtain t where
    "GetSdrData ?exec infos host (s2\<lparr>globs := (globs s2)\<lparr>sdrInfos := Some infos\<rparr>\<rparr>) = Some (Val (map st infos), t)"
    by blast
  with id scan show ?thesis
    by (simp add: GetComponentHealth_def act_simps init_globals_def)
qed

lemma health_scan_is_shared_witness:
  "\<exists>t infos. GetComponentHealth (plain_world_exec sensor_device) ''node1''
       \<lparr>env = (), globs = init_globals, oobLocked = False\<rparr> \<noteq> None \<and> sdrInfos (globs t) = Some infos
     \<and> GetComponentHealth (plain_world_exec sensor_device) ''node2'' t =
         bind_act (GetDeviceId (plain_world_exec sensor_device) ''node2'') (\<lambda>_.
         bind_act (GetSdrData (plain_world_exec sensor_device) infos ''node2'')
           (\<lambda>sdrStatus. return_act (fold judge sdrStatus []))) t"
proof -
  obtain ret t where run: "GetComponentHealth (plain_world_exec sensor_device) ''node1''
      \<lparr>env = (), globs = init_globals, oobLocked = False\<rparr> = Some (Val ret, t)"
    using sensor_device_health by blast
  have "sdrInfos (globs \<lparr>env = (), globs = init_globals, oobLocked = False\<rparr>) = None"
    by (simp add: init_globals_def)
  from health_scan_is_shared [OF plain_world_keeps this run] run show ?thesis by blast
qed

end
