(* ===== verification/Fru.thy ===== *)
theory Fru
  imports Fru_String Sdr_Health
begin

text \<open>
  \<open>ipmi/fru.go\<close>: the inventory read from the FRU area, the firmware version and the MAC
  address of the controller.

  \<open>FruParser\<close> holds the backend, which is the argument \<open>exec\<close>. The read command \<open>CmdFruData\<close> is
  a package variable whose bytes every read overwrites in part; it is \<open>cmdFruData\<close> of the
  package state. The reading loop is a \<open>partial_function\<close> over 16-bit counters. A nil map and
  an empty one are the same to every reader, so \<open>return nil, nil\<close> gives the empty map.
\<close>

definition CmdFruHeader :: IpmiRequest where "CmdFruHeader = request [0xa, 0x10, 0x0]"
definition CmdDeviceId :: IpmiRequest where "CmdDeviceId = request [0x6, 0x1]"
definition CmdBMCMac :: IpmiRequest where "CmdBMCMac = request [0xc, 0x2, 0x1, 0x5, 0x0, 0x0]"

lemmas fru_commands = CmdFruHeader_def CmdDeviceId_def CmdBMCMac_def

text \<open>\<open>data = response.Data[1:]\<close>, which panics on an empty response.\<close>

definition exec_tail :: "'s exec \<Rightarrow> IpmiRequest \<Rightarrow> string \<Rightarrow> ('s, byte list) act" where
  "exec_tail exec cmd host =
     bind_act (exec cmd host) (\<lambda>response. lift_go (slice_from (RespData response) 1))"

definition exec_fru :: "'w world exec \<Rightarrow> string \<Rightarrow> ('w world, byte list) act" where
  "exec_fru exec host =
     bind_act get_globs (\<lambda>g. exec_tail exec (request (cmdFruData g)) host)"

definition GenerateFruData :: "uint16 \<Rightarrow> uint16 \<Rightarrow> ('w world, unit) act" where
  "GenerateFruData offset len = modify_globs (\<lambda>g. g\<lparr>cmdFruData :=
     (cmdFruData g)[3 := ucast (offset AND 0xff), 4 := ucast (drop_bit 8 offset AND 0xff),
                    5 := ucast len]\<rparr>)"

definition area_size :: "byte list \<Rightarrow> uint16 go" where
  "area_size data =
     bind_go (idx data 1) (\<lambda>hi. bind_go (idx data 0) (\<lambda>lo. Val (push_bit 8 (ucast hi) + ucast lo)))"

text \<open>Both of these multiply in a byte before widening.\<close>

definition product_start :: "byte list \<Rightarrow> uint16 go" where
  "product_start data = bind_go (idx data 5) (\<lambda>b. Val (ucast ((b AND 0xff) * 8)))"

definition product_length :: "byte list \<Rightarrow> uint16 go" where
  "product_length data = bind_go (idx data 2) (\<lambda>b. Val (ucast ((b AND 0xff) * 8)))"

section \<open>Reading the product area\<close>

definition store_fru :: "byte list \<Rightarrow> uint16 \<Rightarrow> byte list \<Rightarrow> byte list go" where
  "store_fru area index data =
     bind_go (idx data 0) (\<lambda>n.
     bind_go (slice_from data 1) (\<lambda>src.
     copy_slice area (unat (index * 16)) (unat (index * 16 + ucast n)) src))"

definition next_read :: "uint16 \<Rightarrow> uint16 \<Rightarrow> uint16" where
  "next_read len index =
     (if len - (index + 1) * 16 \<le> 16 then len - (index + 1) * 16 else 16)"

partial_function (option) fru_loop ::
  "'w world exec \<Rightarrow> string \<Rightarrow> uint16 \<Rightarrow> uint16 \<Rightarrow> uint16 \<Rightarrow> byte list \<Rightarrow> uint16 \<Rightarrow> uint16
     \<Rightarrow> 'w world \<Rightarrow> (byte list go \<times> 'w world) option" where
  "fru_loop exec host start accessed len area index byteLen s =
     bind_act (GenerateFruData ((start + index * 16) div accessed) byteLen) (\<lambda>_.
     bind_act get_globs (\<lambda>g.
     bind_act (catch_act (exec (request (cmdFruData g)) host)) (\<lambda>resp t.
     case resp of
       Inl e \<Rightarrow> return_act area t
     | Inr response \<Rightarrow>
         bind_act (lift_go (bind_go (slice_from (RespData response) 1) (store_fru area index)))
           (\<lambda>area u.
           if (index + 1) * 16 < len then
             fru_loop exec host start accessed len area (index + 1) (next_read len index) u
           else return_act area u) t))) s"

definition read_product_area ::
  "'w world exec \<Rightarrow> string \<Rightarrow> uint16 \<Rightarrow> uint16 \<Rightarrow> uint16 \<Rightarrow> ('w world, byte list) act" where
  "read_product_area exec host start accessed len =
     fru_loop exec host start accessed len (replicate (unat len) 0) 0 (if len \<le> 16 then len else 16)"

section \<open>The metrics\<close>

definition product_metrics :: "string list" where
  "product_metrics =
     [''inventory/product_manufacturer'', ''inventory/product_name'', [], [],
      ''inventory/product_serial'']"

fun product_fields ::
  "string list \<Rightarrow> byte list \<Rightarrow> uint16 \<Rightarrow> uint16 \<Rightarrow> (string, string) gomap
     \<Rightarrow> (string, string) gomap go" where
  "product_fields [] area len offset ret = Val ret"
| "product_fields (metric # metrics) area len offset ret =
     (if len \<le> offset then Val ret
      else
        bind_go (if metric \<noteq> [] then
                   bind_go (slice_from area (unat offset)) (\<lambda>data.
                   bind_go (GetFruAreaString data) (\<lambda>v. Val (AList.update metric v ret)))
                 else Val ret) (\<lambda>ret.
        bind_go (idx area (unat offset)) (\<lambda>b.
        product_fields metrics area len (ucast (b AND 0x3f) + offset + 1) ret)))"

definition firmware_version :: "byte list \<Rightarrow> string go" where
  "firmware_version data =
     bind_go (idx data 2) (\<lambda>b2. bind_go (idx data 3) (\<lambda>b3.
       let major = b2 AND 0x7f; minor = drop_bit 4 (b3 AND 0xf0) * 10 + (b3 AND 0x0f)
       in Val (Dec (unat major) @ ''.'' @ Dec (unat minor))))"

definition mac_address :: "byte list \<Rightarrow> string go" where
  "mac_address data =
     bind_go (idx data 1) (\<lambda>d1. bind_go (idx data 2) (\<lambda>d2. bind_go (idx data 3) (\<lambda>d3.
     bind_go (idx data 4) (\<lambda>d4. bind_go (idx data 5) (\<lambda>d5. bind_go (idx data 6) (\<lambda>d6.
       Val (Join CHR '':'' (map Hex02X_upper [d1, d2, d3, d4, d5, d6]))))))))"

text \<open>One more metric from a command of its own; an error leaves the map as it is.\<close>

definition add_metric ::
  "'s exec \<Rightarrow> string \<Rightarrow> IpmiRequest \<Rightarrow> string \<Rightarrow> (byte list \<Rightarrow> string go) \<Rightarrow> (string, string) gomap
     \<Rightarrow> ('s, (string, string) gomap) act" where
  "add_metric exec host cmd metric parse ret =
     bind_act (catch_act (exec cmd host)) (\<lambda>resp.
     (case resp of
        Inl e \<Rightarrow> return_act ret
      | Inr response \<Rightarrow>
          bind_act (lift_go (bind_go (slice_from (RespData response) 1) parse)) (\<lambda>v.
          return_act (AList.update metric v ret))))"

definition product_info ::
  "'w world exec \<Rightarrow> string \<Rightarrow> uint16 \<Rightarrow> uint16 \<Rightarrow> uint16 \<Rightarrow> ('w world, (string, string) gomap) act" where
  "product_info exec host areaSize accessed start =
     bind_act (GenerateFruData (start div accessed) 2) (\<lambda>_.
     bind_act (exec_fru exec host) (\<lambda>data.
     bind_act (lift_go (product_length data)) (\<lambda>len.
     if len = 0 \<or> areaSize < start + len then fail_act (InvalidFruProductInfoSize len)
     else
       bind_act (read_product_area exec host start accessed len) (\<lambda>area.
       lift_go (product_fields product_metrics area len 3 [])))))"

definition GetInventoryInfo ::
  "'w world exec \<Rightarrow> string \<Rightarrow> ('w world, (string, string) gomap) act" where
  "GetInventoryInfo exec host =
     bind_act (exec_tail exec CmdFruHeader host) (\<lambda>data.
     bind_act (lift_go (area_size data)) (\<lambda>areaSize.
     if areaSize = 0 then fail_act (InvalidFruInventoryAreaSize areaSize)
     else
       bind_act (lift_go (idx data 2)) (\<lambda>access.
       bind_act (modify_globs (\<lambda>g. g\<lparr>cmdFruData := (cmdFruData g)[5 := 8]\<rparr>)) (\<lambda>_.
       bind_act (exec_fru exec host) (\<lambda>data.
       if length data \<le> 8 then return_act []
       else
         bind_act (lift_go (product_start data)) (\<lambda>start.
         bind_act (product_info exec host areaSize (ucast ((access AND 1) + 1)) start) (\<lambda>ret.
         bind_act (add_metric exec host CmdDeviceId ''inventory/firmware_version'' firmware_version ret)
           (\<lambda>ret.
         add_metric exec host CmdBMCMac ''inventory/bmc_mac'' mac_address ret))))))))"

section \<open>Every call returns\<close>

text \<open>
  What the inventory needs of a backend and of its invariant: \<open>ExecRaw\<close> returns, and the
  invariant does not depend on the bytes of \<open>CmdFruData\<close>, only on their number.
\<close>

locale fru_backend = ipmi_exec exec I for exec :: "'w world exec" and I +
  assumes fru_data_free: "I s \<Longrightarrow> length xs = length (cmdFruData (globs s)) \<Longrightarrow>
    I (s\<lparr>globs := (globs s)\<lparr>cmdFruData := xs\<rparr>\<rparr>)"
begin

lemma returns_modify_fru:
  "(\<And>xs. length (f xs) = length xs) \<Longrightarrow>
     returns I (modify_globs (\<lambda>g. g\<lparr>cmdFruData := f (cmdFruData g)\<rparr>))"
  by (rule returns_modify_globs) (simp add: fru_data_free)

lemma returns_GenerateFruData: "returns I (GenerateFruData offset n)"
  unfolding GenerateFruData_def by (rule returns_modify_fru) simp

lemma returns_exec_tail: "returns I (exec_tail exec cmd host)"
  unfolding exec_tail_def by (intro act_intros exec_returns)

lemma returns_exec_fru: "returns I (exec_fru exec host)"
  unfolding exec_fru_def by (intro act_intros returns_exec_tail)

lemma returns_add_metric: "returns I (add_metric exec host cmd metric parse ret)"
  unfolding add_metric_def by (intro act_intros exec_returns)

text \<open>The loop counts its index up to the length of the area, which is below 2048.\<close>

lemma returns_fru_loop:
  assumes "unat len < 2048" and "unat index < 128"
  shows "returns I (fru_loop exec host start accessed len area index byteLen)"
  using assms(2)
proof (induction "128 - unat index" arbitrary: area index byteLen rule: less_induct)
  case less
  have rest: "returns I (\<lambda>u. if (index + 1) * 16 < len
      then fru_loop exec host start accessed len area' (index + 1) (next_read len index) u
      else return_act area' u)" for area'
  proof (cases "(index + 1) * 16 < len")
    case True
    have next': "unat (index + 1) = unat index + 1"
      using less.prems by (simp add: unat_word_ariths)
    then have "unat ((index + 1) * 16) = (unat index + 1) * 16"
      using less.prems by (simp add: unat_word_ariths)
    with True assms(1) have "unat index + 1 < 128" by (simp add: word_less_nat_alt)
    with next' less.hyps [of "index + 1"] True show ?thesis by simp
  next
    case False
    then show ?thesis by (simp add: returns_return)
  qed
  have "returns I (bind_act (GenerateFruData ((start + index * 16) div accessed) byteLen) (\<lambda>_.
     bind_act get_globs (\<lambda>g.
     bind_act (catch_act (exec (request (cmdFruData g)) host)) (\<lambda>resp t.
     case resp of Inl e \<Rightarrow> return_act area t
     | Inr response \<Rightarrow>
         bind_act (lift_go (bind_go (slice_from (RespData response) 1) (store_fru area index)))
           (\<lambda>area u. if (index + 1) * 16 < len
             then fru_loop exec host start accessed len area (index + 1) (next_read len index) u
             else return_act area u) t))))"
    by (intro returns_bind returns_GenerateFruData returns_get_globs returns_catch exec_returns
        returns_case_sum_applied returns_return returns_lift rest)
  then show ?case
    unfolding returns_def by (subst fru_loop.simps)
qed

lemma returns_product_info: "returns I (product_info exec host areaSize accessed start)"
proof -
  have "returns I (if len = 0 \<or> areaSize < start + len then fail_act (InvalidFruProductInfoSize len)
     else bind_act (read_product_area exec host start accessed len) (\<lambda>area.
       lift_go (product_fields product_metrics area len 3 [])))"
    if "product_length data = Val len" for data len
  proof -
    have "unat len < 2048"
    proof -
      obtain b :: byte where "len = ucast b"
        using \<open>product_length data = Val len\<close> by (auto simp: product_length_def bind_go_eq_Val)
      then show ?thesis using unat_byte_less [of b] by (simp del: unat_byte_less)
    qed
    then show ?thesis
      unfolding read_product_area_def by (intro act_intros returns_fru_loop) simp_all
  qed
  then have checked: "returns I (bind_act (lift_go (product_length data)) (\<lambda>len.
     if len = 0 \<or> areaSize < start + len then fail_act (InvalidFruProductInfoSize len)
     else bind_act (read_product_area exec host start accessed len) (\<lambda>area.
       lift_go (product_fields product_metrics area len 3 []))))" for data
    by (cases "product_length data") (simp_all add: act_simps returns_lift)
  show ?thesis
    unfolding product_info_def
    by (rule checked returns_GenerateFruData returns_exec_fru returns_bind)+
qed

lemma returns_GetInventoryInfo: "returns I (GetInventoryInfo exec host)"
  unfolding GetInventoryInfo_def
  by (intro act_intros returns_exec_tail returns_modify_fru returns_exec_fru returns_product_info
      returns_add_metric) simp

end

end
