(* ===== verification/Fru_Area.thy ===== *)
theory Fru_Area
  imports Fru
begin

text \<open>
  What \<open>GetInventoryInfo\<close> of \<open>ipmi/fru.go\<close> returns for a device whose FRU area is a memory
  accessed by bytes (\<open>serves_fru\<close>): the reading loop gets the whole product area, at the place
  that the header names. The header itself is read at the offset left by the previous call.
\<close>

section \<open>What an inventory holds\<close>

text \<open>
  \<open>gives P m r Q\<close>: from a state satisfying \<open>P\<close> the action returns \<open>r\<close> in one satisfying \<open>Q\<close>. It
  follows the bytes of \<open>CmdFruData\<close> through a call: \<open>at_fru I c\<close> says that they are \<open>c\<close>.
\<close>

definition gives :: "('s \<Rightarrow> bool) \<Rightarrow> ('s, 'a) act \<Rightarrow> 'a go \<Rightarrow> ('s \<Rightarrow> bool) \<Rightarrow> bool" where
  "gives P m r Q \<longleftrightarrow> (\<forall>s. P s \<longrightarrow> (\<exists>t. m s = Some (r, t) \<and> Q t))"

lemma gives_yields: "yields P m r \<Longrightarrow> gives P m r P"
  by (simp add: gives_def yields_def)

lemma gives_bind: "gives P m (Val x) Q \<Longrightarrow> gives Q (f x) r R \<Longrightarrow> gives P (bind_act m f) r R"
  unfolding gives_def by (metis bind_act_Val)

lemma gives_return: "gives P (return_act x) (Val x) P"
  by (simp add: gives_def act_simps)

lemma gives_lift_bind: "r = Val x \<Longrightarrow> gives P (f x) y Q \<Longrightarrow> gives P (bind_act (lift_go r) f) y Q"
  by (simp add: act_simps)

lemma gives_catch: "gives P m (Val x) Q \<Longrightarrow> gives P (catch_act m) (Val (Inr x)) Q"
  unfolding gives_def by (metis catch_act_Val)

definition at_fru :: "('w world \<Rightarrow> bool) \<Rightarrow> byte list \<Rightarrow> 'w world \<Rightarrow> bool" where
  "at_fru I c s \<longleftrightarrow> I s \<and> cmdFruData (globs s) = c"

definition fru_device ::
  "('w world \<Rightarrow> bool) \<Rightarrow> 'w world exec \<Rightarrow> string \<Rightarrow> (byte list \<Rightarrow> byte list) \<Rightarrow> bool" where
  \<comment> \<open>answers depend on the command only, and commands leave \<open>CmdFruData\<close> alone\<close>
  "fru_device I exec host f \<longleftrightarrow>
     (\<forall>c. answers (at_fru I c) exec host f) \<and>
     (\<forall>s xs. I s \<longrightarrow> I (s\<lparr>globs := (globs s)\<lparr>cmdFruData := xs\<rparr>\<rparr>))"

definition fru_command :: "uint16 \<Rightarrow> byte \<Rightarrow> byte list" where
  "fru_command off n = [0xa, 0x11, 0, ucast off, ucast (drop_bit 8 off), n]"

definition serves_fru :: "(byte list \<Rightarrow> byte list) \<Rightarrow> byte list \<Rightarrow> bool" where
  \<comment> \<open>an area accessed by bytes: a read returns the count and the bytes\<close>
  "serves_fru f mem \<longleftrightarrow>
     length mem < 65536 \<and>
     f [0xa, 0x10, 0] = [ucast (of_nat (length mem) :: uint16), ucast (drop_bit 8 (of_nat (length mem) :: uint16)), 0] \<and>
     (\<forall>off n. unat off + unat n \<le> length mem \<longrightarrow>
        f (fru_command off n) = n # take (unat n) (drop (unat off) mem))"

lemma low_byte: "ucast (off AND 0xff :: uint16) = (ucast off :: byte)"
  "ucast (drop_bit 8 off AND 0xff :: uint16) = (ucast (drop_bit 8 off) :: byte)"
  by (rule byte_bits; auto simp: bit_simps)+

lemma gives_GenerateFruData:
  assumes "fru_device I exec host f"
  shows "gives (at_fru I (fru_command off0 n0)) (GenerateFruData off n) (Val ())
    (at_fru I (fru_command off (ucast n)))"
  using assms
  by (auto simp: gives_def at_fru_def fru_device_def GenerateFruData_def modify_globs_def low_byte
      fru_command_def)

lemma gives_exec:
  assumes "fru_device I exec host f" and "good_request cmd"
  shows "gives (at_fru I c) (exec cmd host) (Val \<lparr>RespData = 0 # f (ReqData cmd), IsValid = 1\<rparr>) (at_fru I c)"
proof -
  have "answers (at_fru I c) exec host f" using assms(1) unfolding fru_device_def by (elim conjE allE)
  then show ?thesis by (rule gives_yields [OF answersD [OF _ assms(2)]])
qed

lemma gives_exec_tail:
  assumes "fru_device I exec host f" and "good_request cmd"
  shows "gives (at_fru I c) (exec_tail exec cmd host) (Val (f (ReqData cmd))) (at_fru I c)"
  unfolding exec_tail_def
  by (rule gives_bind [OF gives_exec [OF assms]])
     (simp add: gives_def act_simps)

lemma gives_get_fru:
  assumes "\<And>g. cmdFruData g = c \<Longrightarrow> gives (at_fru I c) (m g) r Q"
  shows "gives (at_fru I c) (bind_act get_globs m) r Q"
  using assms by (fastforce simp: gives_def at_fru_def act_simps)

lemma good_fru_command: "good_request (request (fru_command off n))"
  by (simp add: good_request_def fru_command_def)

lemma gives_exec_fru:
  assumes "fru_device I exec host f" and "serves_fru f mem" and "unat off + unat n \<le> length mem"
  shows "gives (at_fru I (fru_command off n)) (exec_fru exec host) (Val (n # take (unat n) (drop (unat off) mem)))
    (at_fru I (fru_command off n))"
  unfolding exec_fru_def
proof (rule gives_get_fru)
  fix g
  assume g: "cmdFruData g = fru_command off n"
  have f: "f (fru_command off n) = n # take (unat n) (drop (unat off) mem)"
    using assms(2,3) by (simp add: serves_fru_def)
  show "gives (at_fru I (fru_command off n)) (exec_tail exec (request (cmdFruData g)) host)
      (Val (n # take (unat n) (drop (unat off) mem))) (at_fru I (fru_command off n))"
    using gives_exec_tail [OF assms(1) good_fru_command, of "fru_command off n" off n] unfolding g request_sel f .
qed

subsection \<open>The reading loop\<close>

text \<open>The area once \<open>k\<close> bytes of it are in.\<close>

definition area_filled :: "byte list \<Rightarrow> nat \<Rightarrow> nat \<Rightarrow> byte list" where
  "area_filled bs len k = take k bs @ replicate (len - k) 0"

lemma store_fru_filled:
  assumes "length bs = unat len" and "unat len < 2048" and "unat (index * 16) = k" and "k + unat n \<le> unat len"
  shows "store_fru (area_filled bs (unat len) k) index (n # take (unat n) (drop k bs))
    = Val (area_filled bs (unat len) (k + unat n))"
proof -
  have "unat (index * 16 + ucast n) = k + unat n"
    using assms(2-4) by (simp add: unat_word_ariths)
  moreover have "take (k + unat n) bs = take k bs @ take (unat n) (drop k bs)" by (simp add: take_add)
  ultimately show ?thesis
    using assms by (simp add: store_fru_def copy_slice_def area_filled_def Let_def)
qed


text \<open>The command of the last read of an area: it stays in \<open>CmdFruData\<close>.\<close>

definition last_read :: "uint16 \<Rightarrow> uint16 \<Rightarrow> byte list" where
  "last_read start len =
     (let k = (unat len - 1) div 16
      in fru_command (start + of_nat (16 * k)) (of_nat (unat len - 16 * k)))"

lemma unat_index:
  assumes "unat index < 128"
  shows "unat (index * 16 :: uint16) = 16 * unat index" "unat (index + 1) = unat index + 1"
  using assms by (simp_all add: unat_word_ariths)

lemma read_length:
  assumes "unat index < 128" and "16 * unat index < unat (len :: uint16)" and "unat len < 2048"
    and "byteLen = (if len - index * 16 \<le> 16 then len - index * 16 else 16)"
  shows "unat byteLen = min 16 (unat len - 16 * unat index)" "unat (ucast byteLen :: byte) = unat byteLen"
proof -
  have le: "index * 16 \<le> len" using assms(1,2) by (simp add: word_le_nat_alt unat_index)
  show 1: "unat byteLen = min 16 (unat len - 16 * unat index)"
    using unat_sub [OF le] assms(4) by (auto simp: word_le_nat_alt unat_index [OF assms(1)])
  then show "unat (ucast byteLen :: byte) = unat byteLen"
    by (simp add: unat_ucast_short)
qed

lemma fru_step_stored:
  assumes "serves_fru f mem" and "unat start + unat len \<le> length mem" and "unat len < 2048"
    and "unat index < 128" and "16 * unat index < unat len"
    and "byteLen = (if len - index * 16 \<le> 16 then len - index * 16 else 16)"
    and "bs = take (unat len) (drop (unat start) mem)"
  shows "store_fru (area_filled bs (unat len) (16 * unat index)) index
      (f (fru_command (start + index * 16) (ucast byteLen)))
    = Val (area_filled bs (unat len) (16 * unat index + unat byteLen))"
proof -
  let ?k = "16 * unat index"
  note ix = unat_index [OF assms(4)]
  note bl = read_length [OF assms(4,5,3,6)]
  have "length mem < 65536" using assms(1) by (simp add: serves_fru_def)
  then have off: "unat (start + index * 16) = unat start + ?k"
    using assms(2,5) by (simp add: unat_word_ariths ix)
  have top: "unat (start + index * 16) + unat (ucast byteLen :: byte) \<le> length mem"
    unfolding off bl(2) bl(1) using assms(2,5) by linarith
  have "take (unat byteLen) (drop ?k bs) = take (unat byteLen) (drop (unat start + ?k) mem)"
    using bl(1) by (simp add: assms(7) drop_take add.commute)
  with top assms(1)
  have f: "f (fru_command (start + index * 16) (ucast byteLen)) = ucast byteLen # take (unat byteLen) (drop ?k bs)"
    by (simp add: serves_fru_def off bl(2))
  show ?thesis
    unfolding f bl(2) [symmetric]
    by (rule store_fru_filled) (use assms(2,3,5,7) bl ix in auto)
qed

lemma last_read_last:
  assumes "16 * unat index < unat len" and "unat len \<le> 16 * unat index + 16"
    and "unat byteLen = unat len - 16 * unat index"
  shows "last_read start len = fru_command (start + index * 16) (ucast byteLen)"
proof -
  have d: "(unat len - 1) div 16 = unat index"
    using assms(1,2) by (intro div_nat_eqI) simp_all
  have "start + of_nat (16 * unat index) = start + index * 16" by simp
  then show ?thesis by (simp only: last_read_def Let_def d assms(3) [symmetric] of_nat_unat)
qed

lemma gives_fru_step:
  assumes dev: "fru_device I exec host f"
    and stored: "store_fru area index (f cmd) = Val area'"
    and cmd: "cmd = fru_command (start + index * 16) (ucast byteLen)"
    and rest: "gives (at_fru I cmd) (\<lambda>u. if (index + 1) * 16 < len
        then fru_loop exec host start 1 len area' (index + 1) (next_read len index) u
        else return_act area' u) r Q"
  shows "gives (at_fru I (fru_command off n)) (fru_loop exec host start 1 len area index byteLen) r Q"
proof -
  have "gives (at_fru I (fru_command off n)) (bind_act (GenerateFruData ((start + index * 16) div 1) byteLen) (\<lambda>_.
     bind_act get_globs (\<lambda>g.
     bind_act (catch_act (exec (request (cmdFruData g)) host)) (\<lambda>resp t.
     case resp of Inl e \<Rightarrow> return_act area t
     | Inr response \<Rightarrow>
         bind_act (lift_go (bind_go (slice_from (RespData response) 1) (store_fru area index)))
           (\<lambda>area u. if (index + 1) * 16 < len
             then fru_loop exec host start 1 len area (index + 1) (next_read len index) u
             else return_act area u) t)))) r Q"
    unfolding div_by_1
  proof (rule gives_bind [OF gives_GenerateFruData [OF dev]], rule gives_get_fru)
    fix g
    assume g: "cmdFruData g = fru_command (start + index * 16) (ucast byteLen)"
    show "gives (at_fru I (fru_command (start + index * 16) (ucast byteLen)))
     (bind_act (catch_act (exec (request (cmdFruData g)) host)) (\<lambda>resp t.
     case resp of Inl e \<Rightarrow> return_act area t
     | Inr response \<Rightarrow>
         bind_act (lift_go (bind_go (slice_from (RespData response) 1) (store_fru area index)))
           (\<lambda>area u. if (index + 1) * 16 < len
             then fru_loop exec host start 1 len area (index + 1) (next_read len index) u
             else return_act area u) t)) r Q"
      unfolding g
      by (rule gives_bind [OF gives_catch [OF gives_exec [OF dev good_fru_command]]])
         (use rest stored in \<open>simp add: cmd act_simps\<close>)
  qed
  then show ?thesis unfolding gives_def by (subst fru_loop.simps)
qed

lemma gives_fru_loop:
  assumes dev: "fru_device I exec host f" and mem: "serves_fru f mem"
    and fits: "unat start + unat len \<le> length mem" and len: "unat len < 2048"
    and "unat index < 128" and "16 * unat index < unat len"
    and "byteLen = (if len - index * 16 \<le> 16 then len - index * 16 else 16)"
  shows "gives (at_fru I (fru_command off n))
    (fru_loop exec host start 1 len
      (area_filled (take (unat len) (drop (unat start) mem)) (unat len) (16 * unat index)) index byteLen)
    (Val (take (unat len) (drop (unat start) mem))) (at_fru I (last_read start len))"
  using assms(5-7)
proof (induction "unat len - 16 * unat index" arbitrary: index byteLen off n rule: less_induct)
  case less
  let ?bs = "take (unat len) (drop (unat start) mem)"
  let ?k = "16 * unat index"
  note ix = unat_index [OF less.prems(1)]
  note bl = read_length [OF less.prems(1,2) len less.prems(3)]
  let ?cmd = "fru_command (start + index * 16) (ucast byteLen)"
  show ?case
  proof (rule gives_fru_step [OF dev fru_step_stored [OF mem fits len less.prems refl] refl], cases "?k + 16 < unat len")
    case True
    then have lt: "unat (index + 1) < 128" "16 * unat (index + 1) < unat len"
      using len ix by simp_all
    have ge: "(index + 1) * 16 < len"
      using lt unat_index(1) [OF lt(1)] by (simp add: word_less_nat_alt)
    have k: "?k + unat byteLen = 16 * unat (index + 1)" using True bl(1) ix by simp
    have "gives (at_fru I ?cmd)
        (fru_loop exec host start 1 len (area_filled ?bs (unat len) (16 * unat (index + 1))) (index + 1)
          (next_read len index)) (Val ?bs) (at_fru I (last_read start len))"
      by (rule less.hyps) (use True lt ix in \<open>simp_all add: next_read_def\<close>)
    then show "gives (at_fru I ?cmd) (\<lambda>u. if (index + 1) * 16 < len
        then fru_loop exec host start 1 len (area_filled ?bs (unat len) (?k + unat byteLen)) (index + 1)
          (next_read len index) u
        else return_act (area_filled ?bs (unat len) (?k + unat byteLen)) u)
      (Val ?bs) (at_fru I (last_read start len))"
      using ge k by simp
  next
    case False
    then have k: "?k + unat byteLen = unat len" using bl(1) less.prems(2) by simp
    have "unat ((index + 1) * 16) = ?k + 16"
      using less.prems(1) by (simp add: unat_word_ariths)
    then have "\<not> (index + 1) * 16 < len" using False by (simp add: word_less_nat_alt)
    moreover have "last_read start len = ?cmd"
      by (rule last_read_last) (use False less.prems(2) k in linarith)+
    ultimately show "gives (at_fru I ?cmd) (\<lambda>u. if (index + 1) * 16 < len
        then fru_loop exec host start 1 len (area_filled ?bs (unat len) (?k + unat byteLen)) (index + 1)
          (next_read len index) u
        else return_act (area_filled ?bs (unat len) (?k + unat byteLen)) u)
      (Val ?bs) (at_fru I (last_read start len))"
      using fits by (simp add: k area_filled_def gives_return)
  qed
qed

section \<open>The whole inventory\<close>

lemma gives_bind_Err: "gives P m (Err e) Q \<Longrightarrow> gives P (bind_act m f) (Err e) Q"
  unfolding gives_def by (metis bind_act_Err)

lemma gives_lift: "gives P (lift_go r) r P"
  by (simp add: gives_def act_simps)

lemma word_from_bytes:
  "push_bit 8 (ucast (ucast (drop_bit 8 w) :: byte)) + ucast (ucast w :: byte) = (w :: uint16)"
proof -
  have "push_bit 8 (ucast (ucast (drop_bit 8 w) :: byte)) AND ucast (ucast w :: byte) = (0 :: uint16)"
    by (rule bit_word_eqI) (auto simp: bit_simps dest: bit_imp_le_length)
  then have "push_bit 8 (ucast (ucast (drop_bit 8 w) :: byte)) + ucast (ucast w :: byte)
      = (push_bit 8 (ucast (ucast (drop_bit 8 w) :: byte)) OR ucast (ucast w :: byte) :: uint16)"
    by (simp add: disjunctive_add_eq_or)
  also have "\<dots> = w"
    by (rule bit_word_eqI) (auto simp: bit_simps dest: bit_imp_le_length)
  finally show ?thesis .
qed

text \<open>Where the header at \<open>off\<close> says that the product area starts, and how long that area says it is.\<close>

definition area_start :: "byte list \<Rightarrow> nat \<Rightarrow> uint16" where
  "area_start mem off = ucast (mem ! (off + 4) * 8)"

definition area_length :: "byte list \<Rightarrow> uint16 \<Rightarrow> uint16" where
  "area_length mem start = ucast (mem ! (unat start + 1) * 8)"

lemma area_small: "unat (area_start mem off) < 256" "unat (area_length mem start) < 256"
  by (simp_all add: area_start_def area_length_def)

lemma byte_and_ff: "(b :: byte) AND 0xff = b"
  by (rule byte_bits) (auto simp: bit_simps)

lemma product_start_read:
  assumes "off + 8 \<le> length mem"
  shows "product_start (8 # take 8 (drop off mem)) = Val (area_start mem off)"
proof -
  have "(8 # take 8 (drop off mem)) ! 5 = mem ! (off + 4)"
    using assms by (simp add: nth_Cons')
  then show ?thesis
    using assms by (simp add: product_start_def area_start_def byte_and_ff)
qed

lemma product_length_read:
  assumes "unat start + 2 \<le> length mem"
  shows "product_length (2 # take 2 (drop (unat start) mem)) = Val (area_length mem start)"
proof -
  have "(2 # take 2 (drop (unat start) mem)) ! 2 = mem ! (unat start + 1)"
    using assms by (simp add: nth_Cons')
  then show ?thesis
    using assms by (simp add: product_length_def area_length_def byte_and_ff)
qed

lemma fits_iff:
  assumes "length mem < 65536" and "unat start < 256" and "unat len < 256"
  shows "of_nat (length mem) < start + (len :: uint16) \<longleftrightarrow> length mem < unat start + unat len"
proof -
  have "unat (start + len) = unat start + unat len" using assms by (simp add: unat_word_ariths)
  moreover have "unat (of_nat (length mem) :: uint16) = length mem"
    using assms(1) by (simp add: unsigned_of_nat take_bit_nat_eq_self)
  ultimately show ?thesis by (simp add: word_less_nat_alt)
qed

lemma gives_product_length:
  assumes dev: "fru_device I exec host f" and mem: "serves_fru f mem" and "unat start + 2 \<le> length mem"
    and "gives (at_fru I (fru_command start 2)) (m (area_length mem start)) r Q"
  shows "gives (at_fru I (fru_command off n))
    (bind_act (GenerateFruData (start div 1) 2) (\<lambda>_. bind_act (exec_fru exec host) (\<lambda>data.
       bind_act (lift_go (product_length data)) m))) r Q"
proof -
  have n: "ucast (2 :: uint16) = (2 :: byte)" by simp
  have read: "gives (at_fru I (fru_command start 2)) (exec_fru exec host)
      (Val (2 # take 2 (drop (unat start) mem))) (at_fru I (fru_command start 2))"
    using gives_exec_fru [OF dev mem, of start 2] assms(3) by simp
  show ?thesis
    unfolding div_by_1
    by (rule gives_bind [OF gives_GenerateFruData [OF dev]], unfold n, rule gives_bind [OF read],
        rule gives_lift_bind [where x = "area_length mem start"])
       (rule product_length_read [OF assms(3)], rule assms(4))
qed

lemma gives_product_info:
  assumes dev: "fru_device I exec host f" and mem: "serves_fru f mem" and "unat start + 2 \<le> length mem"
    and "len = area_length mem start" and "len \<noteq> 0" and "unat start + unat len \<le> length mem"
    and "unat start < 256"
    and "product_fields product_metrics (take (unat len) (drop (unat start) mem)) len 3 [] = Val texts"
  shows "gives (at_fru I (fru_command off n)) (product_info exec host (of_nat (length mem)) 1 start)
    (Val texts) (at_fru I (last_read start len))"
  unfolding product_info_def
proof (rule gives_product_length [OF dev mem assms(3)], fold assms(4))
  have small: "unat len < 256" using area_small(2) assms(4) by simp
  have lmem: "length mem < 65536" using mem by (simp add: serves_fru_def)
  have pos: "0 < unat len" using assms(5) by (simp add: unat_gt_0)
  have ok: "\<not> (len = 0 \<or> of_nat (length mem) < start + len)"
    using fits_iff [OF lmem assms(7) small] assms(5,6) by simp
  have len2048: "unat len < 2048" using small by simp
  have index0: "unat (0 :: uint16) < 128" by simp
  have pos': "16 * unat (0 :: uint16) < unat len" using pos by simp
  have bytes: "(if len \<le> 16 then len else 16) = (if len - 0 * 16 \<le> 16 then len - 0 * 16 else 16)"
    by simp
  have zero: "16 * unat (0 :: uint16) = 0" by simp
  have "area_filled bs (unat len) 0 = replicate (unat len) 0" for bs
    by (simp add: area_filled_def)
  then have "gives (at_fru I (fru_command start 2)) (read_product_area exec host start 1 len)
      (Val (take (unat len) (drop (unat start) mem))) (at_fru I (last_read start len))"
    using gives_fru_loop [OF dev mem assms(6) len2048 index0 pos' bytes, of start 2] unfolding zero
    by (simp add: read_product_area_def)
  then show "gives (at_fru I (fru_command start 2))
     (if len = 0 \<or> of_nat (length mem) < start + len then fail_act (InvalidFruProductInfoSize len)
      else bind_act (read_product_area exec host start 1 len)
            (\<lambda>area. lift_go (product_fields product_metrics area len 3 [])))
     (Val texts) (at_fru I (last_read start len))"
    unfolding if_not_P [OF ok] by (rule gives_bind) (simp add: assms(8) gives_lift)
qed

lemma gives_product_info_bad:
  assumes dev: "fru_device I exec host f" and mem: "serves_fru f mem" and "unat start + 2 \<le> length mem"
    and "len = area_length mem start" and "len = 0 \<or> length mem < unat start + unat len"
    and "unat start < 256"
  shows "gives (at_fru I (fru_command off n)) (product_info exec host (of_nat (length mem)) 1 start)
    (Err (InvalidFruProductInfoSize len)) (at_fru I (fru_command start 2))"
  unfolding product_info_def
proof (rule gives_product_length [OF dev mem assms(3)], fold assms(4))
  have small: "unat len < 256" using area_small(2) assms(4) by simp
  have lmem: "length mem < 65536" using mem by (simp add: serves_fru_def)
  have "len = 0 \<or> of_nat (length mem) < start + len"
    using fits_iff [OF lmem assms(6) small] assms(5) by simp
  then show "gives (at_fru I (fru_command start 2))
     (if len = 0 \<or> of_nat (length mem) < start + len then fail_act (InvalidFruProductInfoSize len)
      else bind_act (read_product_area exec host start 1 len)
            (\<lambda>area. lift_go (product_fields product_metrics area len 3 [])))
     (Err (InvalidFruProductInfoSize len)) (at_fru I (fru_command start 2))"
    using gives_lift by (simp only: if_True fail_act_def)
qed

lemma gives_header:
  assumes dev: "fru_device I exec host f" and mem: "serves_fru f mem" and "unat off + 8 \<le> length mem"
    and "start = area_start mem (unat off)"
    and rest: "gives (at_fru I (fru_command off 8))
      (bind_act (product_info exec host (of_nat (length mem)) 1 start) (\<lambda>ret.
       bind_act (add_metric exec host CmdDeviceId ''inventory/firmware_version'' firmware_version ret) (\<lambda>ret.
       add_metric exec host CmdBMCMac ''inventory/bmc_mac'' mac_address ret))) r Q"
  shows "gives (at_fru I (fru_command off n)) (GetInventoryInfo exec host) r Q"
proof -
  let ?size = "of_nat (length mem) :: uint16"
  let ?hdr = "[ucast ?size, ucast (drop_bit 8 ?size), 0] :: byte list"
  have lmem: "length mem < 65536" using mem by (simp add: serves_fru_def)
  have size: "area_size ?hdr = Val ?size"
    by (simp add: area_size_def word_from_bytes)
  have "unat ?size = length mem"
    using lmem by (simp add: unsigned_of_nat take_bit_nat_eq_self)
  then have nz: "?size \<noteq> 0" using assms(3) by (metis add_is_0 le_zero_eq unat_0 zero_neq_numeral)
  have head: "gives (at_fru I (fru_command off n)) (exec_tail exec CmdFruHeader host) (Val ?hdr)
      (at_fru I (fru_command off n))"
    using gives_exec_tail [OF dev, of CmdFruHeader "fru_command off n"] mem
    by (simp add: serves_fru_def CmdFruHeader_def good_request_def)
  have clear: "gives (at_fru I (fru_command off n))
      (modify_globs (\<lambda>g. g\<lparr>cmdFruData := (cmdFruData g)[5 := 8]\<rparr>)) (Val ()) (at_fru I (fru_command off 8))"
    using dev by (auto simp: gives_def at_fru_def fru_device_def modify_globs_def fru_command_def)
  have read: "gives (at_fru I (fru_command off 8)) (exec_fru exec host)
      (Val (8 # take 8 (drop (unat off) mem))) (at_fru I (fru_command off 8))"
    using gives_exec_fru [OF dev mem, of off 8] assms(3) by simp
  have long: "\<not> length (8 # take 8 (drop (unat off) mem)) \<le> 8" using assms(3) by simp
  have acc: "ucast ((0 AND 1 :: byte) + 1) = (1 :: uint16)" by simp
  show ?thesis
    unfolding GetInventoryInfo_def
    by (rule gives_bind [OF head], rule gives_lift_bind [OF size], unfold if_not_P [OF nz],
        rule gives_lift_bind [where x = 0], simp, rule gives_bind [OF clear], rule gives_bind [OF read],
        unfold if_not_P [OF long] acc,
        rule gives_lift_bind [OF product_start_read [OF assms(3)]], fold assms(4), rule rest)
qed

lemma gives_add_metric:
  assumes "fru_device I exec host f" and "good_request cmd" and "parse (f (ReqData cmd)) = Val v"
  shows "gives (at_fru I c) (add_metric exec host cmd metric parse ret)
    (Val (AList.update metric v ret)) (at_fru I c)"
  unfolding add_metric_def
  by (rule gives_bind [OF gives_catch [OF gives_exec [OF assms(1,2)]]])
     (simp add: assms(3) bind_lift_Val gives_return)

lemma gives_inventory:
  assumes "fru_device I exec host f" and "serves_fru f mem" and "unat off + 8 \<le> length mem"
    and "start = area_start mem (unat off)" and "unat start + 2 \<le> length mem"
    and "len = area_length mem start" and "len \<noteq> 0" and "unat start + unat len \<le> length mem"
    and "product_fields product_metrics (take (unat len) (drop (unat start) mem)) len 3 [] = Val texts"
    and "firmware_version (f [0x6, 0x1]) = Val version"
    and "mac_address (f [0xc, 0x2, 0x1, 0x5, 0x0, 0x0]) = Val mac"
  shows "gives (at_fru I (fru_command off n)) (GetInventoryInfo exec host)
    (Val (AList.update ''inventory/bmc_mac'' mac
           (AList.update ''inventory/firmware_version'' version texts)))
    (at_fru I (last_read start len))"
proof (rule gives_header [OF assms(1-4)])
  have small: "unat start < 256" using area_small(1) assms(4) by simp
  have "gives (at_fru I (last_read start len))
      (add_metric exec host CmdDeviceId ''inventory/firmware_version'' firmware_version texts)
      (Val (AList.update ''inventory/firmware_version'' version texts)) (at_fru I (last_read start len))"
    by (rule gives_add_metric [OF assms(1)]) (simp_all add: CmdDeviceId_def good_request_def assms(10))
  moreover have "gives (at_fru I (last_read start len))
      (add_metric exec host CmdBMCMac ''inventory/bmc_mac'' mac_address ret)
      (Val (AList.update ''inventory/bmc_mac'' mac ret)) (at_fru I (last_read start len))" for ret
    by (rule gives_add_metric [OF assms(1)]) (simp_all add: CmdBMCMac_def good_request_def assms(11))
  ultimately show "gives (at_fru I (fru_command off 8))
      (bind_act (product_info exec host (of_nat (length mem)) 1 start) (\<lambda>ret.
       bind_act (add_metric exec host CmdDeviceId ''inventory/firmware_version'' firmware_version ret) (\<lambda>ret.
       add_metric exec host CmdBMCMac ''inventory/bmc_mac'' mac_address ret)))
      (Val (AList.update ''inventory/bmc_mac'' mac
           (AList.update ''inventory/firmware_version'' version texts)))
      (at_fru I (last_read start len))"
    by (intro gives_bind [OF gives_product_info [OF assms(1,2,5-8) small assms(9)]]) (rule gives_bind)
qed

lemma gives_inventory_stale:
  assumes "fru_device I exec host f" and "serves_fru f mem" and "unat off + 8 \<le> length mem"
    and "start = area_start mem (unat off)" and "unat start + 2 \<le> length mem"
    and "len = area_length mem start" and "len = 0 \<or> length mem < unat start + unat len"
  shows "gives (at_fru I (fru_command off n)) (GetInventoryInfo exec host)
    (Err (InvalidFruProductInfoSize len)) (at_fru I (fru_command start 2))"
proof -
  have small: "unat start < 256" using area_small(1) assms(4) by simp
  show ?thesis
    by (rule gives_header [OF assms(1-4)])
       (rule gives_bind_Err [OF gives_product_info_bad [OF assms(1,2,5-7) small]])
qed

text \<open>
  C33. The inventory of a device that answers: the product area lies where the header at the
  offset left in \<open>CmdFruData\<close> says, it is read whole, and its three fields, the firmware
  version and the MAC address are the result; \<open>CmdFruData\<close> then holds the last read of the area.
\<close>

theorem GetInventoryInfo_reads:
  assumes "fru_device I exec host f" and "serves_fru f mem" and "unat off + 8 \<le> length mem"
    and "start = area_start mem (unat off)" and "unat start + 2 \<le> length mem"
    and "len = area_length mem start" and "len \<noteq> 0" and "unat start + unat len \<le> length mem"
    and "product_fields product_metrics (take (unat len) (drop (unat start) mem)) len 3 [] = Val texts"
    and "firmware_version (f [0x6, 0x1]) = Val version"
    and "mac_address (f [0xc, 0x2, 0x1, 0x5, 0x0, 0x0]) = Val mac"
  shows "gives (at_fru I (fru_command off n)) (GetInventoryInfo exec host)
    (Val (AList.update ''inventory/bmc_mac'' mac
           (AList.update ''inventory/firmware_version'' version texts)))
    (at_fru I (last_read start len))"
  using assms by (rule gives_inventory)

text \<open>
  A memory of 24 bytes: the header, and a product area of two blocks with the texts \<open>BA\<close>,
  \<open>CD\<close> and \<open>EF\<close>.
\<close>

definition fru_memory :: "byte list" where
  "fru_memory = [1, 0, 0, 0, 1, 0, 0, 0xFE,
     1, 2, 0, 0xC2, 0x42, 0x41, 0xC2, 0x43, 0x44, 0xC0, 0xC0, 0xC2, 0x45, 0x46, 0xC1, 0]"

definition memory_device :: "byte list \<Rightarrow> byte list" where
  "memory_device cmd =
     (if cmd = [0xa, 0x10, 0] then [24, 0, 0]
      else if cmd = [0x6, 0x1] then [0x20, 0x81, 0x01, 0x29, 0x02]
      else if cmd = [0xc, 0x2, 0x1, 0x5, 0x0, 0x0] then [0x11, 0xa4, 0xbf, 0x01, 0x02, 0x03, 0x0f]
      else cmd ! 5 # take (unat (cmd ! 5))
        (drop (unat (ucast (cmd ! 3) OR push_bit 8 (ucast (cmd ! 4)) :: uint16)) fru_memory))"

lemma memory_fru_device: "fru_device (\<lambda>_. True) (plain_world_exec memory_device) host memory_device"
  by (simp add: fru_device_def plain_world_answers)

lemma word_split: "ucast (ucast w :: byte) OR push_bit 8 (ucast (ucast (drop_bit 8 w) :: byte)) = (w :: uint16)"
  by (rule bit_word_eqI) (auto simp: bit_simps dest: bit_imp_le_length)

lemma memory_serves: "serves_fru memory_device fru_memory"
proof -
  have "length fru_memory = 24" by (simp add: fru_memory_def)
  moreover have "memory_device (fru_command off n) = n # take (unat n) (drop (unat off) fru_memory)" for off n
    by (simp add: memory_device_def fru_command_def word_split)
  ultimately show ?thesis
    by (simp add: serves_fru_def) (simp add: memory_device_def)
qed

lemma GetFruAreaString_text:
  assumes "length data < 65536" and "field_size data < length data" and "unat (data ! 0) div 64 = 3"
    and "field_bytes data = field" and "field \<noteq> []" and "TrimSpace (string_of_bytes field) = v"
  shows "GetFruAreaString data = Val v"
  using assms fru_string_fields [OF assms(1)] by (cases data) (simp_all add: Let_def)

lemma memory_strings:
  "TrimSpace (string_of_bytes [0x42, 0x41]) = ''BA''"
  "TrimSpace (string_of_bytes [0x43, 0x44]) = ''CD''"
  "TrimSpace (string_of_bytes [0x45, 0x46]) = ''EF''"
proof -
  have "string_of_bytes [0x42, 0x41] = ''BA''" "string_of_bytes [0x43, 0x44] = ''CD''"
    "string_of_bytes [0x45, 0x46] = ''EF''"
    by code_simp+
  then show "TrimSpace (string_of_bytes [0x42, 0x41]) = ''BA''"
    "TrimSpace (string_of_bytes [0x43, 0x44]) = ''CD''" "TrimSpace (string_of_bytes [0x45, 0x46]) = ''EF''"
    using TrimSpace_solid [of "CHR ''B''" "CHR ''A''" "[]"] TrimSpace_solid [of "CHR ''C''" "CHR ''D''" "[]"]
      TrimSpace_solid [of "CHR ''E''" "CHR ''F''" "[]"]
    by (simp_all add: solid_def)
qed

lemma memory_fields:
  "GetFruAreaString [0xC2, 0x42, 0x41, 0xC2, 0x43, 0x44, 0xC0, 0xC0, 0xC2, 0x45, 0x46, 0xC1, 0] = Val ''BA''"
  "GetFruAreaString [0xC2, 0x43, 0x44, 0xC0, 0xC0, 0xC2, 0x45, 0x46, 0xC1, 0] = Val ''CD''"
  "GetFruAreaString [0xC2, 0x45, 0x46, 0xC1, 0] = Val ''EF''"
  subgoal by (rule GetFruAreaString_text [OF _ _ _ _ _ memory_strings(1)]; simp add: field_bytes_def field_size_def)
  subgoal by (rule GetFruAreaString_text [OF _ _ _ _ _ memory_strings(2)]; simp add: field_bytes_def field_size_def)
  subgoal by (rule GetFruAreaString_text [OF _ _ _ _ _ memory_strings(3)]; simp add: field_bytes_def field_size_def)
  done

lemma memory_texts:
  "product_fields product_metrics (take (unat (16 :: uint16)) (drop (unat (8 :: uint16)) fru_memory)) 16 3 [] =
     Val [(''inventory/product_manufacturer'', ''BA''), (''inventory/product_name'', ''CD''),
          (''inventory/product_serial'', ''EF'')]"
  by (simp add: fru_memory_def product_metrics_def memory_fields)

lemma memory_extras:
  "firmware_version (memory_device [0x6, 0x1]) = Val ''1.29''"
  "mac_address (memory_device [0xc, 0x2, 0x1, 0x5, 0x0, 0x0]) = Val ''A4:BF:01:02:03:0F''"
  by code_simp+

lemma memory_areas:
  "area_start fru_memory 0 = 8" "area_length fru_memory 8 = 16"
  "area_start fru_memory 8 = 16" "area_length fru_memory 16 = 0"
  "last_read 8 16 = fru_command 8 16"
  by (simp_all add: area_start_def area_length_def fru_memory_def last_read_def)

lemma GetInventoryInfo_reads_witness:
  "gives (at_fru (\<lambda>_. True) (fru_command 0 0)) (GetInventoryInfo (plain_world_exec memory_device) ''bmc'')
     (Val [(''inventory/product_manufacturer'', ''BA''), (''inventory/product_name'', ''CD''),
           (''inventory/product_serial'', ''EF''), (''inventory/firmware_version'', ''1.29''),
           (''inventory/bmc_mac'', ''A4:BF:01:02:03:0F'')])
     (at_fru (\<lambda>_. True) (fru_command 8 16))"
proof -
  have "length fru_memory = 24" by (simp add: fru_memory_def)
  then show ?thesis
    using GetInventoryInfo_reads [OF memory_fru_device memory_serves, of 0 8 16, OF _ _ _ _ _ _ memory_texts memory_extras]
      memory_areas by simp
qed

text \<open>
  C34. The offset is never reset: the second of two calls takes the bytes at the first one's
  last read for the header, so that it fails, on a device whose inventory did not change, when
  the area these bytes describe has no length or does not fit.
\<close>

theorem GetInventoryInfo_twice:
  assumes "fru_device I exec host f" and "serves_fru f mem" and "unat off + 8 \<le> length mem"
    and "start = area_start mem (unat off)" and "unat start + 2 \<le> length mem"
    and "len = area_length mem start" and "len \<noteq> 0" and "unat start + unat len \<le> length mem"
    and "product_fields product_metrics (take (unat len) (drop (unat start) mem)) len 3 [] = Val texts"
    and "firmware_version (f [0x6, 0x1]) = Val version"
    and "mac_address (f [0xc, 0x2, 0x1, 0x5, 0x0, 0x0]) = Val mac"
    and "last_read start len = fru_command off' n'" and "unat off' + 8 \<le> length mem"
    and "start' = area_start mem (unat off')" and "unat start' + 2 \<le> length mem"
    and "len' = area_length mem start'" and "len' = 0 \<or> length mem < unat start' + unat len'"
  shows "gives (at_fru I (fru_command off n))
    (bind_act (GetInventoryInfo exec host) (\<lambda>_. GetInventoryInfo exec host))
    (Err (InvalidFruProductInfoSize len')) (at_fru I (fru_command start' 2))"
  by (rule gives_bind [OF gives_inventory [OF assms(1-11)]], unfold assms(12))
     (rule gives_inventory_stale [OF assms(1,2,13-17)])

lemma GetInventoryInfo_twice_witness:
  "gives (at_fru (\<lambda>_. True) (fru_command 0 0))
     (bind_act (GetInventoryInfo (plain_world_exec memory_device) ''bmc'')
       (\<lambda>_. GetInventoryInfo (plain_world_exec memory_device) ''bmc''))
     (Err (InvalidFruProductInfoSize 0)) (at_fru (\<lambda>_. True) (fru_command 16 2))"
proof -
  have "length fru_memory = 24" by (simp add: fru_memory_def)
  then show ?thesis
    by (intro GetInventoryInfo_twice [OF memory_fru_device memory_serves, of 0 8 16,
          OF _ _ _ _ _ _ memory_texts memory_extras memory_areas(5), of 16 0])
       (simp_all add: memory_areas)
qed

end
