(* ===== verification/Goroutines.thy ===== *)
theory Goroutines
  imports Prelude
begin

text \<open>
  Goroutines that share one mutex and one wait group, as the out-of-band backend starts them.

  A pool has \<open>n\<close> goroutines. Each locks the mutex, runs its critical section \<open>body i\<close> on
  the shared state, and then executes its deferred calls, last deferred first. The three
  orders of \<open>defer\<close> in the sources are the three values of \<open>style\<close>:
  \<^item> \<open>UnlockThenDone\<close>: \<open>defer wg.Done(); mutex.Lock(); defer mutex.Unlock()\<close>;
  \<^item> \<open>DoneThenUnlock\<close>: \<open>mutex.Lock(); defer mutex.Unlock(); defer wg.Done()\<close>;
  \<^item> \<open>DoneThenLock\<close>: \<open>mutex.Lock(); defer mutex.Lock(); defer wg.Done()\<close>.

  Go's mutex has no owner: \<open>Lock\<close> waits until it is free. The main goroutine's \<open>wg.Wait()\<close>
  returns when \<open>waiting\<close> is 0. \<open>history\<close> records the order of the critical sections; no
  step reads it.
\<close>

datatype pc = Start | Holding | Ran | Signalled | Released | Exited

datatype style = UnlockThenDone | DoneThenUnlock | DoneThenLock

record 'st pool =
  locked :: bool
  pcs :: "nat \<Rightarrow> pc"
  waiting :: nat
  shared :: 'st
  history :: "nat list"

definition init_pool :: "nat \<Rightarrow> 'st \<Rightarrow> 'st pool" where
  "init_pool n st =
     \<lparr>locked = False, pcs = (\<lambda>_. Start), waiting = n, shared = st, history = []\<rparr>"

inductive pool_step ::
  "(nat \<Rightarrow> style) \<Rightarrow> (nat \<Rightarrow> 'st \<Rightarrow> 'st) \<Rightarrow> nat \<Rightarrow> 'st pool \<Rightarrow> 'st pool \<Rightarrow> bool"
  for style :: "nat \<Rightarrow> style" and body :: "nat \<Rightarrow> 'st \<Rightarrow> 'st" and n :: nat where
  lock: "i < n \<Longrightarrow> pcs s i = Start \<Longrightarrow> \<not> locked s \<Longrightarrow>
    pool_step style body n s (s\<lparr>locked := True, pcs := (pcs s)(i := Holding)\<rparr>)"
| run: "i < n \<Longrightarrow> pcs s i = Holding \<Longrightarrow>
    pool_step style body n s
      (s\<lparr>pcs := (pcs s)(i := Ran), shared := body i (shared s), history := history s @ [i]\<rparr>)"
| unlock_first: "i < n \<Longrightarrow> pcs s i = Ran \<Longrightarrow> style i = UnlockThenDone \<Longrightarrow>
    pool_step style body n s (s\<lparr>locked := False, pcs := (pcs s)(i := Released)\<rparr>)"
| done_second: "i < n \<Longrightarrow> pcs s i = Released \<Longrightarrow>
    pool_step style body n s (s\<lparr>pcs := (pcs s)(i := Exited), waiting := waiting s - 1\<rparr>)"
| done_first: "i < n \<Longrightarrow> pcs s i = Ran \<Longrightarrow> style i \<noteq> UnlockThenDone \<Longrightarrow>
    pool_step style body n s (s\<lparr>pcs := (pcs s)(i := Signalled), waiting := waiting s - 1\<rparr>)"
| unlock_second: "i < n \<Longrightarrow> pcs s i = Signalled \<Longrightarrow> style i = DoneThenUnlock \<Longrightarrow>
    pool_step style body n s (s\<lparr>locked := False, pcs := (pcs s)(i := Exited)\<rparr>)"
| lock_again: "i < n \<Longrightarrow> pcs s i = Signalled \<Longrightarrow> style i = DoneThenLock \<Longrightarrow> \<not> locked s \<Longrightarrow>
    pool_step style body n s (s\<lparr>locked := True, pcs := (pcs s)(i := Exited)\<rparr>)"

abbreviation pool_run ::
  "(nat \<Rightarrow> style) \<Rightarrow> (nat \<Rightarrow> 'st \<Rightarrow> 'st) \<Rightarrow> nat \<Rightarrow> 'st pool \<Rightarrow> 'st pool \<Rightarrow> bool" where
  "pool_run style body n \<equiv> (pool_step style body n)\<^sup>*\<^sup>*"

definition reachable_pool ::
  "(nat \<Rightarrow> style) \<Rightarrow> (nat \<Rightarrow> 'st \<Rightarrow> 'st) \<Rightarrow> nat \<Rightarrow> 'st \<Rightarrow> 'st pool \<Rightarrow> bool" where
  "reachable_pool style body n st s \<longleftrightarrow> pool_run style body n (init_pool n st) s"

section \<open>The invariant\<close>

definition critical :: "pc \<Rightarrow> bool" where
  "critical p \<longleftrightarrow> p = Holding \<or> p = Ran \<or> p = Signalled"

definition unsignalled :: "'st pool \<Rightarrow> nat \<Rightarrow> nat set" where
  "unsignalled s n = {i. i < n \<and> pcs s i \<in> {Start, Holding, Ran, Released}}"

text \<open>Who holds the mutex, and which program points each style can be at.\<close>

definition lock_inv :: "(nat \<Rightarrow> style) \<Rightarrow> nat \<Rightarrow> 'st pool \<Rightarrow> bool" where
  "lock_inv style n s \<longleftrightarrow>
     (locked s \<longleftrightarrow> (\<exists>i. critical (pcs s i))) \<and>
     (\<forall>i j. critical (pcs s i) \<and> critical (pcs s j) \<longrightarrow> i = j) \<and>
     (\<forall>i. pcs s i \<noteq> Start \<longrightarrow> i < n) \<and>
     (\<forall>i. pcs s i = Released \<longrightarrow> style i = UnlockThenDone) \<and>
     (\<forall>i. pcs s i = Signalled \<longrightarrow> style i \<noteq> UnlockThenDone) \<and>
     (\<forall>i. style i = DoneThenLock \<longrightarrow> pcs s i \<noteq> Exited)"

text \<open>The shared state is that of running the critical sections one after the other.\<close>

definition run_inv :: "(nat \<Rightarrow> 'st \<Rightarrow> 'st) \<Rightarrow> nat \<Rightarrow> 'st \<Rightarrow> 'st pool \<Rightarrow> bool" where
  "run_inv body n st s \<longleftrightarrow>
     distinct (history s) \<and>
     (\<forall>i. i \<in> set (history s) \<longleftrightarrow> pcs s i \<noteq> Start \<and> pcs s i \<noteq> Holding) \<and>
     shared s = fold body (history s) st \<and>
     waiting s = card (unsignalled s n)"

lemma finite_unsignalled [simp]: "finite (unsignalled s n)"
  by (simp add: unsignalled_def)

lemma lock_inv_init: "lock_inv style n (init_pool n st)"
  by (simp add: lock_inv_def init_pool_def critical_def)

lemma run_inv_init: "run_inv body n st (init_pool n st)"
  by (simp add: run_inv_def init_pool_def unsignalled_def)

lemma lock_inv_step:
  "pool_step style body n s t \<Longrightarrow> lock_inv style n s \<Longrightarrow> lock_inv style n t"
proof (induction rule: pool_step.induct)
  case (lock i s)
  then show ?case by (auto simp: lock_inv_def critical_def)
next
  case (run i s)
  then show ?case by (fastforce simp: lock_inv_def critical_def)
next
  case (unlock_first i s)
  then show ?case by (fastforce simp: lock_inv_def critical_def)
next
  case (done_second i s)
  then have "critical (((pcs s)(i := Exited)) j) = critical (pcs s j)" for j
    by (simp add: critical_def)
  with done_second show ?case by (auto simp: lock_inv_def)
next
  case (done_first i s)
  then show ?case by (fastforce simp: lock_inv_def critical_def)
next
  case (unlock_second i s)
  then show ?case by (fastforce simp: lock_inv_def critical_def)
next
  case (lock_again i s)
  then show ?case by (auto simp: lock_inv_def critical_def)
qed

text \<open>A goroutine that signals leaves the set of those still awaited.\<close>

lemma unsignalled_other:
  "p \<in> {Start, Holding, Ran, Released} \<Longrightarrow> pcs s i \<in> {Start, Holding, Ran, Released} \<Longrightarrow>
     unsignalled (s\<lparr>pcs := (pcs s)(i := p)\<rparr>) n = unsignalled s n"
  by (auto simp: unsignalled_def)

lemma unsignalled_signal:
  assumes "i < n" and "pcs s i \<in> {Ran, Released}" and "p \<in> {Signalled, Exited}"
  shows "card (unsignalled (s\<lparr>pcs := (pcs s)(i := p)\<rparr>) n) = card (unsignalled s n) - 1"
proof -
  have "unsignalled (s\<lparr>pcs := (pcs s)(i := p)\<rparr>) n = unsignalled s n - {i}"
    using assms(3) by (auto simp: unsignalled_def)
  moreover have "i \<in> unsignalled s n" using assms(1,2) by (auto simp: unsignalled_def)
  ultimately show ?thesis by simp
qed

lemma unsignalled_fields [simp]:
  "unsignalled (s\<lparr>locked := b\<rparr>) n = unsignalled s n"
  "unsignalled (s\<lparr>shared := x\<rparr>) n = unsignalled s n"
  "unsignalled (s\<lparr>history := h\<rparr>) n = unsignalled s n"
  "unsignalled (s\<lparr>waiting := w\<rparr>) n = unsignalled s n"
  by (simp_all add: unsignalled_def)

lemma run_inv_step:
  "pool_step style body n s t \<Longrightarrow> lock_inv style n s \<Longrightarrow> run_inv body n st s \<Longrightarrow>
     run_inv body n st t"
proof (induction rule: pool_step.induct)
  case (lock i s)
  then have "unsignalled (s\<lparr>pcs := (pcs s)(i := Holding)\<rparr>) n = unsignalled s n"
    by (intro unsignalled_other) auto
  with lock show ?case by (auto simp: run_inv_def unsignalled_def)
next
  case (run i s)
  then have "unsignalled (s\<lparr>pcs := (pcs s)(i := Ran)\<rparr>) n = unsignalled s n"
    by (intro unsignalled_other) auto
  moreover have "i \<notin> set (history s)" using run by (auto simp: run_inv_def)
  ultimately show ?case using run by (auto simp: run_inv_def unsignalled_def)
next
  case (unlock_first i s)
  then have "unsignalled (s\<lparr>pcs := (pcs s)(i := Released)\<rparr>) n = unsignalled s n"
    by (intro unsignalled_other) auto
  with unlock_first show ?case by (auto simp: run_inv_def unsignalled_def)
next
  case (done_second i s)
  then have "card (unsignalled (s\<lparr>pcs := (pcs s)(i := Exited)\<rparr>) n) = card (unsignalled s n) - 1"
    by (intro unsignalled_signal) auto
  with done_second show ?case by (auto simp: run_inv_def unsignalled_def)
next
  case (done_first i s)
  then have "card (unsignalled (s\<lparr>pcs := (pcs s)(i := Signalled)\<rparr>) n) = card (unsignalled s n) - 1"
    by (intro unsignalled_signal) auto
  with done_first show ?case by (auto simp: run_inv_def unsignalled_def)
next
  case (unlock_second i s)
  then have "unsignalled (s\<lparr>pcs := (pcs s)(i := Exited)\<rparr>) n = unsignalled s n"
    by (auto simp: unsignalled_def)
  with unlock_second show ?case by (auto simp: run_inv_def unsignalled_def)
next
  case (lock_again i s)
  then have "unsignalled (s\<lparr>pcs := (pcs s)(i := Exited)\<rparr>) n = unsignalled s n"
    by (auto simp: unsignalled_def)
  with lock_again show ?case by (auto simp: run_inv_def unsignalled_def)
qed

lemma run_lock_inv: "pool_run style body n s t \<Longrightarrow> lock_inv style n s \<Longrightarrow> lock_inv style n t"
  by (induction rule: rtranclp_induct) (auto intro: lock_inv_step)

lemma reachable_lock_inv: "reachable_pool style body n st s \<Longrightarrow> lock_inv style n s"
  unfolding reachable_pool_def by (erule run_lock_inv) (rule lock_inv_init)

lemma reachable_run_inv:
  assumes "reachable_pool style body n st s"
  shows "run_inv body n st s"
proof -
  have "pool_run style body n (init_pool n st) s"
    using assms by (simp add: reachable_pool_def)
  then have "lock_inv style n s \<and> run_inv body n st s"
    by (induction rule: rtranclp_induct)
       (auto intro: lock_inv_step run_inv_step lock_inv_init run_inv_init)
  then show ?thesis ..
qed

section \<open>Safety and linearizability\<close>

lemma lock_inv_unique:
  assumes "lock_inv style n s" and "critical (pcs s i)" and "critical (pcs s j)"
  shows "i = j"
proof -
  have "\<forall>i j. critical (pcs s i) \<and> critical (pcs s j) \<longrightarrow> i = j"
    using assms(1) unfolding lock_inv_def by (elim conjE)
  with assms(2,3) show ?thesis by blast
qed

lemma pool_mutual_exclusion:
  "reachable_pool style body n st s \<Longrightarrow> critical (pcs s i) \<Longrightarrow> critical (pcs s j) \<Longrightarrow> i = j"
  by (rule lock_inv_unique [OF reachable_lock_inv])

text \<open>
  When \<open>wg.Wait()\<close> returns, every goroutine has run its critical section exactly once, and
  the shared state is the one a sequential run in some order leaves.
\<close>

lemma pool_linearizable:
  assumes "reachable_pool style body n st s" and "waiting s = 0"
  shows "set (history s) = {..< n} \<and> distinct (history s) \<and> shared s = fold body (history s) st"
proof -
  have inv: "run_inv body n st s" using assms(1) by (rule reachable_run_inv)
  then have "unsignalled s n = {}" using assms(2) by (simp add: run_inv_def)
  then have "i < n \<Longrightarrow> pcs s i \<noteq> Start \<and> pcs s i \<noteq> Holding" for i
    by (auto simp: unsignalled_def)
  moreover have "pcs s i \<noteq> Start \<Longrightarrow> i < n" for i
    using reachable_lock_inv [OF assms(1)] by (auto simp: lock_inv_def)
  ultimately show ?thesis using inv by (auto simp: run_inv_def)
qed

section \<open>Pools whose goroutines all release the mutex\<close>

text \<open>A bound on the steps left: every step moves one goroutine one program point on.\<close>

primrec pc_rank :: "pc \<Rightarrow> nat" where
  "pc_rank Start = 4"
| "pc_rank Holding = 3"
| "pc_rank Ran = 2"
| "pc_rank Signalled = 1"
| "pc_rank Released = 1"
| "pc_rank Exited = 0"

definition steps_left :: "nat \<Rightarrow> 'st pool \<Rightarrow> nat" where
  "steps_left n s = (\<Sum>i < n. pc_rank (pcs s i))"

lemma steps_left_decreases:
  assumes "pool_step style body n s t"
  shows "steps_left n t < steps_left n s"
proof -
  obtain i p where i: "i < n" and t: "pcs t = (pcs s)(i := p)" and p: "pc_rank p < pc_rank (pcs s i)"
    using assms by (cases rule: pool_step.cases) auto
  have "(\<Sum>j < n. pc_rank (pcs t j)) < (\<Sum>j < n. pc_rank (pcs s j))"
    by (rule sum_strict_mono_ex1) (use i p t in auto)
  then show ?thesis by (simp add: steps_left_def)
qed

locale releasing_pool =
  fixes style :: "nat \<Rightarrow> style" and body :: "nat \<Rightarrow> 'st \<Rightarrow> 'st" and n :: nat
  assumes releases: "i < n \<Longrightarrow> style i \<noteq> DoneThenLock"
begin

lemma holder_can_step:
  assumes "lock_inv style n s" and "locked s"
  shows "\<exists>t. pool_step style body n s t"
proof -
  obtain i where c: "critical (pcs s i)" using assms by (auto simp: lock_inv_def)
  then have "i < n" and sig: "pcs s i = Signalled \<Longrightarrow> style i \<noteq> UnlockThenDone"
    using assms(1) by (auto simp: lock_inv_def critical_def)
  consider "pcs s i = Holding" | "pcs s i = Ran" | "pcs s i = Signalled"
    using c by (auto simp: critical_def)
  then show ?thesis
  proof cases
    case 1
    with \<open>i < n\<close> show ?thesis by (blast intro: pool_step.run)
  next
    case 2
    with \<open>i < n\<close> show ?thesis by (blast intro: pool_step.unlock_first pool_step.done_first)
  next
    case 3
    with sig releases [OF \<open>i < n\<close>] have "style i = DoneThenUnlock" by (cases "style i") auto
    with 3 \<open>i < n\<close> show ?thesis by (blast intro: pool_step.unlock_second)
  qed
qed

lemma progress:
  assumes "reachable_pool style body n st s" and "waiting s \<noteq> 0"
  shows "\<exists>t. pool_step style body n s t"
proof -
  have inv: "lock_inv style n s" and run: "run_inv body n st s"
    using assms(1) by (rule reachable_lock_inv, rule reachable_run_inv)
  show ?thesis
  proof (cases "locked s")
    case True
    with inv show ?thesis by (rule holder_can_step)
  next
    case False
    from run assms(2) obtain i where "i \<in> unsignalled s n"
      by (auto simp: run_inv_def card_eq_0_iff)
    then have "i < n" and "pcs s i \<in> {Start, Released}"
      using inv False by (auto simp: unsignalled_def lock_inv_def critical_def)
    with False show ?thesis by (auto intro: pool_step.intros)
  qed
qed

text \<open>
  So the wait returns: from every reachable state the goroutines can finish, and no run is
  longer than the steps left.
\<close>

lemma wait_returns:
  assumes "reachable_pool style body n st s"
  shows "\<exists>t. pool_run style body n s t \<and> waiting t = 0"
  using assms
proof (induction "steps_left n s" arbitrary: s rule: less_induct)
  case less
  show ?case
  proof (cases "waiting s = 0")
    case True
    then show ?thesis by blast
  next
    case False
    then obtain t where step: "pool_step style body n s t"
      using progress less.prems by blast
    then have "reachable_pool style body n st t"
      using less.prems by (auto simp: reachable_pool_def intro: rtranclp.rtrancl_into_rtrancl)
    then obtain u where "pool_run style body n t u \<and> waiting u = 0"
      using less.hyps steps_left_decreases [OF step] by blast
    with step show ?thesis by (blast intro: converse_rtranclp_into_rtranclp)
  qed
qed

lemma stuck_is_finished:
  assumes "reachable_pool style body n st s" and "\<And>t. \<not> pool_step style body n s t"
  shows "waiting s = 0 \<and> \<not> locked s"
proof -
  have "waiting s = 0" using assms progress by blast
  moreover have "\<not> locked s"
    using assms(2) holder_can_step [OF reachable_lock_inv [OF assms(1)]] by blast
  ultimately show ?thesis ..
qed

end

section \<open>A goroutine that locks twice\<close>

text \<open>
  Once a \<open>DoneThenLock\<close> goroutine has the mutex, it is never free again: the deferred
  \<open>Lock\<close> waits for the goroutine's own lock.
\<close>

lemma relocker_stays:
  assumes "pool_step style body n s t" and "lock_inv style n s"
    and "style i = DoneThenLock" and "critical (pcs s i)"
  shows "critical (pcs t i)"
proof -
  have uniq: "j = i" if "critical (pcs s j)" for j
    using assms(2) that assms(4) by (rule lock_inv_unique)
  have "locked s" using assms(2,4) by (auto simp: lock_inv_def)
  from assms(1) show ?thesis
  proof (cases rule: pool_step.cases)
    case (unlock_first j)
    with uniq [of j] assms(3) show ?thesis by (auto simp: critical_def)
  next
    case (done_second j)
    with assms(4) show ?thesis by (auto simp: critical_def)
  next
    case (unlock_second j)
    with uniq [of j] assms(3) show ?thesis by (auto simp: critical_def)
  qed (use assms(4) \<open>locked s\<close> in \<open>auto simp: critical_def\<close>)
qed

lemma relocker_locks_forever:
  assumes "pool_run style body n s t" and "lock_inv style n s"
    and "style i = DoneThenLock" and "critical (pcs s i)"
  shows "locked t"
proof -
  have "critical (pcs t i) \<and> lock_inv style n t"
    using assms(1)
  proof (induction rule: rtranclp_induct)
    case base
    then show ?case using assms(2,4) by simp
  next
    case (step t u)
    then show ?case using relocker_stays assms(3) lock_inv_step by metis
  qed
  then show ?thesis by (auto simp: lock_inv_def)
qed

text \<open>When the wait returns, such a goroutine has had the mutex, so it is locked for good.\<close>

lemma relocker_after_wait:
  assumes "reachable_pool style body n st s" and "waiting s = 0"
    and "i < n" and "style i = DoneThenLock" and "pool_run style body n s t"
  shows "locked t"
proof -
  have inv: "lock_inv style n s" using assms(1) by (rule reachable_lock_inv)
  have "unsignalled s n = {}"
    using reachable_run_inv [OF assms(1)] assms(2) by (simp add: run_inv_def)
  then have "pcs s i \<notin> {Start, Holding, Ran, Released}"
    using assms(3) by (auto simp: unsignalled_def)
  moreover have "pcs s i \<noteq> Exited" using inv assms(4) by (auto simp: lock_inv_def)
  ultimately have "critical (pcs s i)" by (cases "pcs s i") (auto simp: critical_def)
  with relocker_locks_forever assms(4,5) inv show ?thesis by blast
qed

text \<open>
  And if it gets the mutex first while others still want it, the wait never returns: there
  is a reachable state with no step and a positive counter.
\<close>

lemma relocker_can_block:
  assumes "i < n" and "j < n" and "i \<noteq> j" and "style i = DoneThenLock"
  shows "\<exists>s. reachable_pool style body n st s \<and> waiting s \<noteq> 0 \<and> (\<forall>t. \<not> pool_step style body n s t)"
proof -
  let ?s0 = "init_pool n st"
  let ?s1 = "?s0\<lparr>locked := True, pcs := (pcs ?s0)(i := Holding)\<rparr>"
  let ?s2 = "?s1\<lparr>pcs := (pcs ?s1)(i := Ran), shared := body i (shared ?s1),
     history := history ?s1 @ [i]\<rparr>"
  let ?s3 = "?s2\<lparr>pcs := (pcs ?s2)(i := Signalled), waiting := waiting ?s2 - 1\<rparr>"
  have "pool_step style body n ?s0 ?s1"
    by (rule pool_step.lock) (use assms in \<open>auto simp: init_pool_def\<close>)
  moreover have "pool_step style body n ?s1 ?s2"
    by (rule pool_step.run) (use assms in auto)
  moreover have "pool_step style body n ?s2 ?s3"
    by (rule pool_step.done_first) (use assms in auto)
  ultimately have "pool_run style body n ?s0 ?s3" by auto
  then have "reachable_pool style body n st ?s3" by (simp add: reachable_pool_def)
  moreover have "waiting ?s3 \<noteq> 0" using assms by (simp add: init_pool_def)
  moreover have "\<not> pool_step style body n ?s3 t" for t
  proof
    assume "pool_step style body n ?s3 t"
    then show False
      by (cases rule: pool_step.cases) (use assms in \<open>auto simp: init_pool_def split: if_splits\<close>)
  qed
  ultimately show ?thesis by blast
qed

section \<open>The sequential reading of a pool\<close>

text \<open>
  \<open>pool_outcome style body order st\<close> is what \<open>wg.Wait()\<close> leaves when the goroutines get
  the mutex in the order \<open>order\<close>: the shared state and whether the mutex stays locked, or
  \<open>None\<close> when a goroutine that locks twice is not the last one, so that the others never
  run. \<open>pool_outcome_iff\<close> below is its agreement with the step relation.
\<close>

definition pool_outcome ::
  "(nat \<Rightarrow> style) \<Rightarrow> (nat \<Rightarrow> 'st \<Rightarrow> 'st) \<Rightarrow> nat list \<Rightarrow> 'st \<Rightarrow> ('st \<times> bool) option" where
  "pool_outcome style body order st =
     (if list_ex (\<lambda>i. style i = DoneThenLock) (butlast order) then None
      else Some (fold body order st, order \<noteq> [] \<and> style (last order) = DoneThenLock))"

definition schedule :: "nat \<Rightarrow> nat list \<Rightarrow> bool" where
  "schedule n order \<longleftrightarrow> distinct order \<and> set order = {..< n}"

lemma schedule_length: "schedule n order \<Longrightarrow> length order = n"
  by (metis card_lessThan distinct_card schedule_def)

text \<open>Only the last critical section can be one whose goroutine locks twice.\<close>

lemma relocker_is_last:
  assumes "reachable_pool style body n st s"
  shows "\<forall>i \<in> set (butlast (history s)). style i \<noteq> DoneThenLock"
proof -
  have "pool_run style body n (init_pool n st) s"
    using assms by (simp add: reachable_pool_def)
  then show ?thesis
  proof (induction rule: rtranclp_induct)
    case base
    then show ?case by (simp add: init_pool_def)
  next
    case (step s t)
    have reach: "reachable_pool style body n st s"
      using step.hyps(1) by (simp add: reachable_pool_def)
    from step.hyps(2) step.IH show ?case
    proof (cases rule: pool_step.cases)
      case (run i)
      have "style r \<noteq> DoneThenLock" if "r \<in> set (history s)" for r
      proof
        assume "style r = DoneThenLock"
        moreover have "pcs s r \<noteq> Start \<and> pcs s r \<noteq> Holding"
          using reachable_run_inv [OF reach] that by (simp add: run_inv_def)
        ultimately have "critical (pcs s r)"
          using reachable_lock_inv [OF reach]
          by (cases "pcs s r") (auto simp: lock_inv_def critical_def)
        moreover have "critical (pcs s i)" using run by (simp add: critical_def)
        ultimately have "r = i"
          using pool_mutual_exclusion [OF reach] by blast
        with run \<open>pcs s r \<noteq> Start \<and> pcs s r \<noteq> Holding\<close> show False by simp
      qed
      then show ?thesis using run by simp
    qed auto
  qed
qed

text \<open>The state after the goroutines \<open>xs\<close> have run to their ends, one after the other.\<close>

definition after_pool :: "nat \<Rightarrow> (nat \<Rightarrow> 'st \<Rightarrow> 'st) \<Rightarrow> 'st \<Rightarrow> nat list \<Rightarrow> 'st pool" where
  "after_pool n body st xs =
     \<lparr>locked = False, pcs = (\<lambda>i. if i \<in> set xs then Exited else Start),
      waiting = n - length xs, shared = fold body xs st, history = xs\<rparr>"

lemma after_pool_ran:
  assumes "i < n" and "i \<notin> set xs"
  shows "pool_run style body n (after_pool n body st xs)
    ((after_pool n body st xs)\<lparr>locked := True, pcs := (pcs (after_pool n body st xs))(i := Ran),
      shared := fold body (xs @ [i]) st, history := xs @ [i]\<rparr>)"
proof -
  let ?s = "after_pool n body st xs"
  let ?s1 = "?s\<lparr>locked := True, pcs := (pcs ?s)(i := Holding)\<rparr>"
  have "pool_step style body n ?s ?s1"
    by (rule pool_step.lock) (use assms in \<open>auto simp: after_pool_def\<close>)
  moreover have "pool_step style body n ?s1
      (?s1\<lparr>pcs := (pcs ?s1)(i := Ran), shared := body i (shared ?s1), history := history ?s1 @ [i]\<rparr>)"
    by (rule pool_step.run) (use assms in auto)
  ultimately show ?thesis by (simp add: after_pool_def)
qed

lemma after_pool_next:
  assumes "i < n" and "i \<notin> set xs" and "style i \<noteq> DoneThenLock"
  shows "pool_run style body n (after_pool n body st xs) (after_pool n body st (xs @ [i]))"
proof -
  let ?s = "after_pool n body st xs"
  let ?r = "?s\<lparr>locked := True, pcs := (pcs ?s)(i := Ran),
     shared := fold body (xs @ [i]) st, history := xs @ [i]\<rparr>"
  have goal: "after_pool n body st (xs @ [i]) =
      ?r\<lparr>locked := False, pcs := (pcs ?s)(i := Exited), waiting := n - length xs - 1\<rparr>"
    by (auto simp: after_pool_def fun_eq_iff)
  have "pool_run style body n ?r (after_pool n body st (xs @ [i]))"
  proof (cases "style i = UnlockThenDone")
    case True
    let ?t = "?r\<lparr>locked := False, pcs := (pcs ?r)(i := Released)\<rparr>"
    have "pool_step style body n ?r ?t"
      by (rule pool_step.unlock_first) (use assms True in auto)
    moreover have "pool_step style body n ?t
        (?t\<lparr>pcs := (pcs ?t)(i := Exited), waiting := waiting ?t - 1\<rparr>)"
      by (rule pool_step.done_second) (use assms in auto)
    ultimately show ?thesis unfolding goal by (simp add: after_pool_def)
  next
    case False
    let ?t = "?r\<lparr>pcs := (pcs ?r)(i := Signalled), waiting := waiting ?r - 1\<rparr>"
    have "pool_step style body n ?r ?t"
      by (rule pool_step.done_first) (use assms False in auto)
    moreover have "pool_step style body n ?t
        (?t\<lparr>locked := False, pcs := (pcs ?t)(i := Exited)\<rparr>)"
      by (rule pool_step.unlock_second) (use assms False in \<open>auto intro: style.exhaust\<close>)
    ultimately show ?thesis unfolding goal by (simp add: after_pool_def)
  qed
  with after_pool_ran [OF assms(1,2)] show ?thesis by (rule rtranclp_trans)
qed

lemma reach_after_pool:
  assumes "distinct xs" and "set xs \<subseteq> {..< n}" and "\<forall>i \<in> set xs. style i \<noteq> DoneThenLock"
  shows "reachable_pool style body n st (after_pool n body st xs)"
  using assms
proof (induction xs rule: rev_induct)
  case Nil
  have "after_pool n body st [] = init_pool n st" by (simp add: after_pool_def init_pool_def)
  then show ?case by (simp add: reachable_pool_def)
next
  case (snoc i xs)
  then have "reachable_pool style body n st (after_pool n body st xs)" by simp
  moreover have "pool_run style body n (after_pool n body st xs) (after_pool n body st (xs @ [i]))"
    by (rule after_pool_next) (use snoc.prems in auto)
  ultimately show ?case unfolding reachable_pool_def by (meson rtranclp_trans)
qed

lemma reach_with_relocker:
  assumes "distinct (xs @ [i])" and "set (xs @ [i]) = {..< n}"
    and "\<forall>j \<in> set xs. style j \<noteq> DoneThenLock" and "style i = DoneThenLock"
  shows "\<exists>s. reachable_pool style body n st s \<and> waiting s = 0 \<and> history s = xs @ [i]
     \<and> shared s = fold body (xs @ [i]) st"
proof -
  let ?s = "after_pool n body st xs"
  let ?r = "?s\<lparr>locked := True, pcs := (pcs ?s)(i := Ran),
     shared := fold body (xs @ [i]) st, history := xs @ [i]\<rparr>"
  let ?t = "?r\<lparr>pcs := (pcs ?r)(i := Signalled), waiting := waiting ?r - 1\<rparr>"
  have i: "i < n" "i \<notin> set xs" using assms(1,2) by auto
  have len: "length (xs @ [i]) = n"
    by (rule schedule_length) (use assms(1,2) in \<open>simp add: schedule_def\<close>)
  have "reachable_pool style body n st ?s"
    by (rule reach_after_pool) (use assms in auto)
  moreover have "pool_run style body n ?s ?r" using i by (rule after_pool_ran)
  moreover have "pool_step style body n ?r ?t"
    by (rule pool_step.done_first) (use i assms(4) in auto)
  ultimately have "reachable_pool style body n st ?t"
    unfolding reachable_pool_def by (meson rtranclp_trans rtranclp.rtrancl_into_rtrancl)
  moreover have "waiting ?t = 0" using len by (simp add: after_pool_def)
  ultimately show ?thesis by (intro exI [of _ ?t]) (auto simp: after_pool_def)
qed

lemma pool_outcome_iff:
  "(\<exists>s. reachable_pool style body n st s \<and> waiting s = 0 \<and> history s = order \<and> shared s = st')
     \<longleftrightarrow> schedule n order \<and> (\<exists>b. pool_outcome style body order st = Some (st', b))"
proof
  assume "\<exists>s. reachable_pool style body n st s \<and> waiting s = 0 \<and> history s = order \<and> shared s = st'"
  then obtain s where s: "reachable_pool style body n st s" "waiting s = 0" "history s = order"
    "shared s = st'" by blast
  then show "schedule n order \<and> (\<exists>b. pool_outcome style body order st = Some (st', b))"
    using pool_linearizable [OF s(1,2)] relocker_is_last [OF s(1)]
    by (auto simp: schedule_def pool_outcome_def list_ex_iff)
next
  assume rhs: "schedule n order \<and> (\<exists>b. pool_outcome style body order st = Some (st', b))"
  then have st': "st' = fold body order st" and ok: "\<forall>i \<in> set (butlast order). style i \<noteq> DoneThenLock"
    by (auto simp: pool_outcome_def list_ex_iff split: if_splits)
  have sch: "distinct order" "set order = {..< n}" using rhs by (auto simp: schedule_def)
  show "\<exists>s. reachable_pool style body n st s \<and> waiting s = 0 \<and> history s = order \<and> shared s = st'"
  proof (cases "\<forall>i \<in> set order. style i \<noteq> DoneThenLock")
    case True
    have "reachable_pool style body n st (after_pool n body st order)"
      by (rule reach_after_pool) (use sch True in auto)
    moreover have "length order = n" using rhs by (simp add: schedule_length)
    ultimately show ?thesis using st' by (intro exI [of _ "after_pool n body st order"])
      (simp add: after_pool_def)
  next
    case False
    then obtain xs i where order: "order = xs @ [i]" by (cases order rule: rev_cases) auto
    with False ok have "style i = DoneThenLock" by auto
    with reach_with_relocker [of xs i n style body st] sch ok order st' show ?thesis by simp
  qed
qed

end
