(* ===== verification/Oob.thy ===== *)
theory Oob
  imports Inband_Ipmitool Goroutines
begin

text \<open>
  \<open>ipmi/oob.go\<close>: the out-of-band backend, which runs every command in a goroutine of its
  own under the backend's mutex.

  The goroutines of a call are a pool of the theory \<open>Goroutines\<close>: \<open>batch_pool\<close> and
  \<open>caps_pool\<close> give its critical sections and the order of their deferred calls. The
  operations are then written sequentially over \<open>sched\<close>, which says in which order the
  goroutines of a call of \<open>n\<close> goroutines get the mutex; that this is all Go's scheduler
  can do is \<open>pool_outcome_iff\<close>. \<open>oobLocked\<close> of the world is the backend's mutex.
\<close>

type_synonym scheduler = "nat \<Rightarrow> nat list"

definition fair_scheduler :: "scheduler \<Rightarrow> bool" where
  "fair_scheduler sched \<longleftrightarrow> (\<forall>n. schedule n (sched n))"

definition fillStruct ::
  "'w os \<Rightarrow> byte list \<Rightarrow> LinuxOutOfBand \<Rightarrow> string \<Rightarrow> bool \<Rightarrow> 'w \<Rightarrow> IpmiResponse \<times> 'w" where
  "fillStruct os req strct addr isBridged w =
     (let (data, w') = ExecIpmiToolRemote os req strct addr isBridged w
      in (\<lparr>RespData = data, IsValid = 1\<rparr>, w'))"

section \<open>BatchExecRaw and ExecRaw\<close>

definition batch_style :: "nat \<Rightarrow> style" where
  "batch_style i = UnlockThenDone"

definition batch_body ::
  "'w os \<Rightarrow> LinuxOutOfBand \<Rightarrow> string \<Rightarrow> bool \<Rightarrow> IpmiRequest list
     \<Rightarrow> nat \<Rightarrow> IpmiResponse list \<times> 'w \<Rightarrow> IpmiResponse list \<times> 'w" where
  "batch_body os al host isBridged requests i st =
     (let (results, w) = st;
          (r, w') = fillStruct os (ReqData (requests ! i)) al host isBridged w
      in (results[i := r], w'))"

definition empty_results :: "nat \<Rightarrow> IpmiResponse list" where
  \<comment> \<open>\<open>make([]IpmiResponse, n)\<close>\<close>
  "empty_results n = replicate n \<lparr>RespData = [], IsValid = 0\<rparr>"

text \<open>
  A call with at least one goroutine needs the mutex; when an earlier call has left it
  locked, \<open>wg.Wait()\<close> never returns.
\<close>

definition run_goroutines ::
  "(nat \<Rightarrow> style) \<Rightarrow> (nat \<Rightarrow> 'st \<Rightarrow> 'st) \<Rightarrow> nat list \<Rightarrow> bool \<Rightarrow> 'st \<Rightarrow> ('st \<times> bool) option" where
  "run_goroutines style body order isLocked st =
     (if order = [] then Some (st, isLocked)
      else if isLocked then None
      else pool_outcome style body order st)"

definition Oob_BatchExecRaw ::
  "'w os \<Rightarrow> scheduler \<Rightarrow> LinuxOutOfBand \<Rightarrow> IpmiRequest list \<Rightarrow> string
     \<Rightarrow> ('w world, IpmiResponse list) act" where
  "Oob_BatchExecRaw os sched al requests host = (\<lambda>s.
     (case run_goroutines batch_style (batch_body os al host True requests)
             (sched (length requests)) (oobLocked s)
             (empty_results (length requests), env s) of
        None \<Rightarrow> None
      | Some ((results, w), l) \<Rightarrow> Some (Val results, s\<lparr>env := w, oobLocked := l\<rparr>)))"

definition Oob_ExecRaw ::
  "'w os \<Rightarrow> LinuxOutOfBand \<Rightarrow> IpmiRequest \<Rightarrow> string \<Rightarrow> ('w world, IpmiResponse) act" where
  "Oob_ExecRaw os al req host = (\<lambda>s.
     (case run_goroutines batch_style (batch_body os al host False [req]) [0] (oobLocked s)
             (empty_results 1, env s) of
        None \<Rightarrow> None
      | Some ((results, w), l) \<Rightarrow> Some (Val (results ! 0), s\<lparr>env := w, oobLocked := l\<rparr>)))"

section \<open>GetPlatformCapabilities\<close>

text \<open>
  Per host one goroutine per request and, for the protocol \<open>dcmi\<close>, one more for the thermal
  probe. The request goroutines defer \<open>Unlock\<close> and \<open>Done\<close>; the thermal goroutine defers
  \<open>Lock\<close> where \<open>Unlock\<close> was meant.
\<close>

definition caps_style :: "nat \<Rightarrow> nat \<Rightarrow> style" where
  "caps_style k i = (if i < k then DoneThenUnlock else DoneThenLock)"

definition caps_body ::
  "'w os \<Rightarrow> LinuxOutOfBand \<Rightarrow> string \<Rightarrow> RequestDescription list
     \<Rightarrow> nat \<Rightarrow> RequestDescription list \<times> 'w world \<Rightarrow> RequestDescription list \<times> 'w world" where
  "caps_body os al addr requests i st =
     (let (valid, s) = st in
      if i < length requests then
        let rd = requests ! i;
            (a, w) = ExecIpmiToolRemote os (ReqData (resolve (globs s) (Request rd))) al addr
                       (OobProtocol al = ''node_manager'') (env s)
        in (if has_data a then valid @ [rd] else valid, s\<lparr>env := w\<rparr>)
      else
        (case thermal_probe (\<lambda>req. on_env (ExecIpmiToolRemote os req al addr False)) s of
           Some (Val (Some rd), s') \<Rightarrow> (valid @ [rd], s')
         | Some (_, s') \<Rightarrow> (valid, s')
         | None \<Rightarrow> (valid, s)))"

definition caps_count :: "LinuxOutOfBand \<Rightarrow> RequestDescription list \<Rightarrow> nat" where
  "caps_count al requests = length requests + (if OobProtocol al = ''dcmi'' then 1 else 0)"

fun oob_caps ::
  "'w os \<Rightarrow> scheduler \<Rightarrow> LinuxOutOfBand \<Rightarrow> RequestDescription list \<Rightarrow> string list
     \<Rightarrow> (string, RequestDescription list) gomap
     \<Rightarrow> ('w world, (string, RequestDescription list) gomap) act" where
  "oob_caps os sched al requests [] validRequests = return_act validRequests"
| "oob_caps os sched al requests (addr # hosts) validRequests = (\<lambda>s.
     (case run_goroutines (caps_style (length requests)) (caps_body os al addr requests)
             (sched (caps_count al requests)) (oobLocked s) ([], s) of
        None \<Rightarrow> None
      | Some ((valid, s'), l) \<Rightarrow>
          oob_caps os sched al requests hosts (AList.update addr valid validRequests)
            (s'\<lparr>oobLocked := l\<rparr>)))"

definition Oob_GetPlatformCapabilities ::
  "'w os \<Rightarrow> scheduler \<Rightarrow> LinuxOutOfBand \<Rightarrow> RequestDescription list \<Rightarrow> string list
     \<Rightarrow> ('w world, (string, RequestDescription list) gomap) act" where
  "Oob_GetPlatformCapabilities os sched al requests hosts = oob_caps os sched al requests hosts []"

section \<open>The goroutines of a batch\<close>

interpretation batch: releasing_pool batch_style "batch_body os al host isBridged requests" n
  for os al host isBridged requests n
  by unfold_locales (simp add: batch_style_def)

text \<open>Without the thermal goroutine the probing pool releases its mutex too.\<close>

interpretation probe: releasing_pool "caps_style n" "caps_body os al addr requests" n
  for os al addr requests n
  by unfold_locales (simp add: caps_style_def)

lemma batch_outcome:
  "pool_outcome batch_style body order st = Some (fold body order st, False)"
  by (simp add: pool_outcome_def batch_style_def list_ex_iff)

lemma run_batch:
  "run_goroutines batch_style body order isLocked st =
     (if order = [] then Some (st, isLocked) else if isLocked then None
      else Some (fold body order st, False))"
  by (simp add: run_goroutines_def batch_outcome)

lemma batch_fold_length:
  "length (fst (fold (batch_body os al host isBridged requests) order (results, w))) = length results"
  by (induction order arbitrary: results w)
     (auto simp: batch_body_def Let_def split: prod.splits)

text \<open>
  With answers that do not depend on earlier commands, each goroutine fills its own slot,
  whatever the order.
\<close>

lemma batch_fold_slots:
  assumes "\<And>q w. q \<in> set requests \<Longrightarrow>
      fst (fillStruct os (ReqData q) al host isBridged w) = answer q"
    and "distinct order" and "set order \<subseteq> {..< length requests}"
    and "length results = length requests" and "i < length requests"
  shows "fst (fold (batch_body os al host isBridged requests) order (results, w)) ! i =
     (if i \<in> set order then answer (requests ! i) else results ! i)"
  using assms(2-4)
proof (induction order arbitrary: results w)
  case Nil
  then show ?case by simp
next
  case (Cons j order)
  obtain r w' where r: "fillStruct os (ReqData (requests ! j)) al host isBridged w = (r, w')"
    by (cases "fillStruct os (ReqData (requests ! j)) al host isBridged w")
  then have ans: "r = answer (requests ! j)"
    using assms(1) [of "requests ! j" w] Cons.prems(2) by simp
  have "fst (fold (batch_body os al host isBridged requests) order (results[j := r], w')) ! i =
      (if i \<in> set order then answer (requests ! i) else results[j := r] ! i)"
    by (rule Cons.IH) (use Cons.prems in auto)
  moreover have "batch_body os al host isBridged requests j (results, w) = (results[j := r], w')"
    by (simp add: batch_body_def r)
  ultimately show ?case
    using ans Cons.prems assms(5) by (auto simp: nth_list_update)
qed

section \<open>What the backend promises\<close>

lemma Oob_ExecRaw_free:
  assumes "\<not> oobLocked s"
  shows "\<exists>d w. Oob_ExecRaw os al req host s =
     Some (Val \<lparr>RespData = d, IsValid = 1\<rparr>, s\<lparr>env := w, oobLocked := False\<rparr>)"
  using assms
  by (cases "ExecIpmiToolRemote os (ReqData req) al host False (env s)")
     (auto simp: Oob_ExecRaw_def run_batch batch_body_def fillStruct_def empty_results_def)

lemma Oob_ExecRaw_locked: "oobLocked s \<Longrightarrow> Oob_ExecRaw os al req host s = None"
  by (simp add: Oob_ExecRaw_def run_batch)

lemma returns_Oob_ExecRaw [act_intros]:
  "returns (\<lambda>s. wf_world s \<and> \<not> oobLocked s) (Oob_ExecRaw os al req host)"
  unfolding returns_def using Oob_ExecRaw_free [of _ os al req host]
  by (fastforce simp: wf_world_def)

lemma Oob_Batch_Val:
  assumes "\<not> oobLocked s"
  shows "\<exists>resp t. Oob_BatchExecRaw os sched al requests host s = Some (Val resp, t)
     \<and> globs t = globs s \<and> \<not> oobLocked t"
  using assms by (auto simp: Oob_BatchExecRaw_def run_batch split: prod.splits)

text \<open>
  Every way the goroutines can interleave gives what the sequential definition gives for
  the order in which they got the mutex.
\<close>

lemma Oob_Batch_sound:
  assumes "reachable_pool batch_style (batch_body os al host True requests) (length requests)
      (empty_results (length requests), env s) p"
    and "waiting p = 0" and "requests \<noteq> []" and "\<not> oobLocked s"
  shows "schedule (length requests) (history p) \<and>
    Oob_BatchExecRaw os (\<lambda>_. history p) al requests host s =
      Some (Val (fst (shared p)), s\<lparr>env := snd (shared p), oobLocked := False\<rparr>)"
proof -
  note lin = pool_linearizable [OF assms(1,2)]
  then have sch: "schedule (length requests) (history p)" unfolding schedule_def by (elim conjE) (intro conjI)
  from lin have sh: "shared p = fold (batch_body os al host True requests) (history p)
      (empty_results (length requests), env s)" by (elim conjE)
  have "history p \<noteq> []" using schedule_length [OF sch] assms(3) by auto
  then have "run_goroutines batch_style (batch_body os al host True requests) (history p) False
      (empty_results (length requests), env s) = Some (shared p, False)"
    by (simp add: run_batch sh)
  then have "Oob_BatchExecRaw os (\<lambda>_. history p) al requests host s =
      (case (shared p, False) of ((results, w), l) \<Rightarrow>
         Some (Val results, s\<lparr>env := w, oobLocked := l\<rparr>))"
    using assms(4) by (simp only: Oob_BatchExecRaw_def option.case)
  then show ?thesis
    using sch by (cases "shared p") (simp only: prod.case fst_conv snd_conv)
qed

lemma oob_batch_schedule:
  assumes "fair_scheduler sched" and "\<not> oobLocked s"
    and "\<And>q w. q \<in> set requests \<Longrightarrow> fst (fillStruct os (ReqData q) al host True w) = answer q"
  shows "\<exists>w. Oob_BatchExecRaw os sched al requests host s =
     Some (Val (map answer requests), s\<lparr>env := w, oobLocked := False\<rparr>)"
proof -
  let ?n = "length requests"
  let ?st = "fold (batch_body os al host True requests) (sched ?n) (empty_results ?n, env s)"
  have sch: "schedule ?n (sched ?n)" using assms(1) by (simp add: fair_scheduler_def)
  have "fst ?st = map answer requests"
  proof (rule nth_equalityI)
    show len: "length (fst ?st) = length (map answer requests)"
      by (simp add: batch_fold_length empty_results_def)
    fix i
    assume "i < length (fst ?st)"
    then have i: "i < ?n" using len by simp
    have "fst ?st ! i = (if i \<in> set (sched ?n) then answer (requests ! i) else empty_results ?n ! i)"
      by (rule batch_fold_slots) (use assms(3) sch i in \<open>auto simp: schedule_def empty_results_def\<close>)
    then show "fst ?st ! i = map answer requests ! i"
      using sch i by (simp add: schedule_def)
  qed
  then obtain w where st: "?st = (map answer requests, w)" by (cases ?st) auto
  have "run_goroutines batch_style (batch_body os al host True requests) (sched ?n) False
      (empty_results ?n, env s) = Some (?st, False)"
    by (simp add: run_batch)
  then show ?thesis
    using assms(2) by (intro exI [of _ w]) (simp add: Oob_BatchExecRaw_def st)
qed

text \<open>
  C23: a batch gives every request its own answer, in the order of the requests, under every
  schedule of the goroutines (for a device whose answers do not depend on earlier commands),
  and leaves the mutex free.
\<close>

theorem oob_batch_any_schedule:
  assumes "fair_scheduler sched" and "\<not> oobLocked s"
    and "\<And>q w. q \<in> set requests \<Longrightarrow> fst (fillStruct os (ReqData q) al host True w) = answer q"
  shows "\<exists>w. Oob_BatchExecRaw os sched al requests host s =
     Some (Val (map answer requests), s\<lparr>env := w, oobLocked := False\<rparr>)"
  using assms by (rule oob_batch_schedule)

definition sample_oob :: LinuxOutOfBand where
  "sample_oob = \<lparr>OobDevice = ''ipmitool'', OobChannel = ''0x06'', OobSlave = ''0x2c'',
     User = ''u'', Pass = ''p'', OobProtocol = ''dcmi''\<rparr>"

definition sample_os :: "unit os" where
  \<comment> \<open>every command prints the same four bytes\<close>
  "sample_os = \<lparr>LookPath = Some, RunCommand = (\<lambda>c args w. (Some (print_bytes 0 [1, 2, 3, 4]), w)),
     Hostname = ''node''\<rparr>"

definition sample_world :: "unit world" where
  "sample_world = \<lparr>env = (), globs = init_globals, oobLocked = False\<rparr>"

lemma sample_fillStruct:
  "fillStruct sample_os req al host isBridged w = (\<lparr>RespData = [0, 1, 2, 3, 4], IsValid = 1\<rparr>, w)"
  by (simp add: fillStruct_def ExecIpmiToolRemote_def run_ipmitool_def sample_os_def
      parse_output_print_eq del: print_bytes.simps)

lemma fair_rev: "fair_scheduler (\<lambda>n. rev [0 ..< n])"
  by (auto simp: fair_scheduler_def schedule_def)

theorem oob_batch_any_schedule_witness:
  "\<exists>w. Oob_BatchExecRaw sample_os (\<lambda>n. rev [0 ..< n]) sample_oob
       [request [6, 1], request [4, 0x2d, 8]] ''bmc'' sample_world =
     Some (Val (replicate 2 \<lparr>RespData = [0, 1, 2, 3, 4], IsValid = 1\<rparr>),
       sample_world\<lparr>env := w, oobLocked := False\<rparr>)"
  using oob_batch_any_schedule [OF fair_rev, of sample_world "[request [6, 1], request [4, 0x2d, 8]]"
      sample_os sample_oob "''bmc''" "\<lambda>_. \<lparr>RespData = [0, 1, 2, 3, 4], IsValid = 1\<rparr>"]
  by (simp add: sample_fillStruct sample_world_def numeral_2_eq_2)

text \<open>
  C24: at the level of single steps, a batch cannot deadlock and cannot run for ever: from every
  reachable state of its goroutines the wait can return, every step decreases the measure
  \<open>steps_left\<close>, and a state without a step is one where the wait has returned and the mutex is free.
\<close>

theorem oob_batch_no_deadlock:
  assumes "reachable_pool batch_style (batch_body os al host b requests) n st p"
  shows "(\<exists>t. pool_run batch_style (batch_body os al host b requests) n p t \<and> waiting t = 0)
    \<and> (\<forall>t. pool_step batch_style (batch_body os al host b requests) n p t \<longrightarrow>
            steps_left n t < steps_left n p)
    \<and> ((\<exists>t. pool_step batch_style (batch_body os al host b requests) n p t)
       \<or> waiting p = 0 \<and> \<not> locked p)"
  using batch.wait_returns [OF assms] batch.stuck_is_finished [OF assms] steps_left_decreases
  by blast

theorem oob_batch_no_deadlock_witness:
  "(\<exists>t. pool_run batch_style (batch_body sample_os sample_oob ''bmc'' True [request [6, 1]]) 1
         (init_pool 1 (empty_results 1, ())) t \<and> waiting t = 0)
     \<and> (\<exists>t. pool_step batch_style (batch_body sample_os sample_oob ''bmc'' True [request [6, 1]]) 1
           (init_pool 1 (empty_results 1, ())) t
         \<and> steps_left 1 t < steps_left 1 (init_pool 1 (empty_results 1, ())))"
proof -
  have reach: "reachable_pool batch_style (batch_body sample_os sample_oob ''bmc'' True [request [6, 1]]) 1
      (empty_results 1, ()) (init_pool 1 (empty_results 1, ()))"
    by (simp add: reachable_pool_def)
  have "waiting (init_pool 1 (empty_results 1, ())) \<noteq> 0" by (simp add: init_pool_def)
  with oob_batch_no_deadlock [OF reach] show ?thesis by blast
qed

section \<open>The thermal goroutine\<close>

text \<open>
  C25: with the protocol \<open>dcmi\<close>, in every execution in which the wait of
  \<open>GetPlatformCapabilities\<close> returns, the mutex is held and stays held in every later state:
  the thermal goroutine defers \<open>Lock\<close> instead of \<open>Unlock\<close>.
\<close>

theorem oob_dcmi_mutex_lost:
  assumes "OobProtocol al = ''dcmi''"
    and "reachable_pool (caps_style (length requests)) (caps_body os al addr requests)
      (caps_count al requests) st p"
    and "waiting p = 0"
    and "pool_run (caps_style (length requests)) (caps_body os al addr requests)
      (caps_count al requests) p t"
  shows "locked t"
  by (rule relocker_after_wait [OF assms(2,3) _ _ assms(4), of "length requests"])
     (simp_all add: caps_count_def caps_style_def assms(1))

theorem oob_dcmi_mutex_lost_witness:
  "\<exists>p. reachable_pool (caps_style 1) (caps_body sample_os sample_oob ''bmc'' DCMIVendor) 2
         ([], sample_world) p \<and> waiting p = 0 \<and> locked p"
proof -
  have count: "caps_count sample_oob DCMIVendor = 2"
    by (simp add: caps_count_def sample_oob_def DCMIVendor_def)
  have len: "length DCMIVendor = 1" by (simp add: DCMIVendor_def)
  have "\<exists>p. reachable_pool (caps_style 1) (caps_body sample_os sample_oob ''bmc'' DCMIVendor) 2
      ([], sample_world) p \<and> waiting p = 0 \<and> history p = [0] @ [1] \<and>
      shared p = fold (caps_body sample_os sample_oob ''bmc'' DCMIVendor) ([0] @ [1]) ([], sample_world)"
    by (rule reach_with_relocker) (auto simp: caps_style_def)
  then obtain p where p: "reachable_pool (caps_style (length DCMIVendor))
      (caps_body sample_os sample_oob ''bmc'' DCMIVendor) (caps_count sample_oob DCMIVendor)
      ([], sample_world) p" and w: "waiting p = 0"
    using count len by auto
  have "OobProtocol sample_oob = ''dcmi''" by (simp add: sample_oob_def)
  from oob_dcmi_mutex_lost [OF this p w rtranclp.rtrancl_refl] have "locked p" .
  with p w count len show ?thesis by auto
qed

lemma caps_outcome_dcmi:
  assumes "OobProtocol al = ''dcmi''" and "schedule (caps_count al requests) order"
    and "run_goroutines (caps_style (length requests)) body order isLocked st = Some (st', l)"
  shows "l"
proof -
  have mem: "length requests \<in> set order"
    using assms(1,2) by (simp add: schedule_def caps_count_def)
  then have ne: "order \<noteq> []" by auto
  with assms(3) have out: "pool_outcome (caps_style (length requests)) body order st = Some (st', l)"
    by (auto simp: run_goroutines_def split: if_splits)
  have relocks: "caps_style (length requests) (length requests) = DoneThenLock"
    by (simp add: caps_style_def)
  have "length requests \<notin> set (butlast order)"
    using out relocks by (auto simp: pool_outcome_def list_ex_iff split: if_splits)
  then have "last order = length requests"
    using mem ne by (metis append_butlast_last_id in_set_conv_decomp_last rotate1.simps(2)
        set_ConsD set_rotate1)
  then show ?thesis
    using out relocks ne by (auto simp: pool_outcome_def split: if_splits)
qed

text \<open>
  Consequently every later command hangs. If \<open>GetPlatformCapabilities\<close> returns at all
  for \<open>dcmi\<close>, \<open>ExecRaw\<close> never returns afterwards.
\<close>

theorem oob_dcmi_then_hangs:
  assumes "OobProtocol al = ''dcmi''" and "fair_scheduler sched"
    and "Oob_GetPlatformCapabilities os sched al requests [host] s = Some (r, t)"
  shows "oobLocked t \<and> Oob_ExecRaw os al req host t = None"
proof -
  have "schedule (caps_count al requests) (sched (caps_count al requests))"
    using assms(2) by (simp add: fair_scheduler_def)
  then have "oobLocked t"
    using assms(3) caps_outcome_dcmi [OF assms(1)]
    by (auto simp: Oob_GetPlatformCapabilities_def act_simps split: option.splits prod.splits)
  then show ?thesis by (simp add: Oob_ExecRaw_locked)
qed

text \<open>
  And it need not return: when the thermal goroutine gets the mutex before one of the
  others, the call itself waits forever.
\<close>

theorem oob_dcmi_may_block:
  assumes "OobProtocol al = ''dcmi''" and "requests \<noteq> []"
  shows "\<exists>p. reachable_pool (caps_style (length requests)) (caps_body os al addr requests)
       (caps_count al requests) st p \<and> waiting p \<noteq> 0 \<and>
     (\<forall>t. \<not> pool_step (caps_style (length requests)) (caps_body os al addr requests)
       (caps_count al requests) p t)"
  by (rule relocker_can_block [of "length requests" _ 0])
     (use assms in \<open>auto simp: caps_count_def caps_style_def\<close>)

theorem oob_dcmi_may_block_witness:
  "\<exists>p. reachable_pool (caps_style (length DCMIVendor))
       (caps_body sample_os sample_oob ''bmc'' DCMIVendor) (caps_count sample_oob DCMIVendor)
       ([], sample_world) p \<and> waiting p \<noteq> 0"
  using oob_dcmi_may_block [of sample_oob DCMIVendor sample_os "''bmc''" "([], sample_world)"]
  by (auto simp: sample_oob_def DCMIVendor_def)

theorem oob_dcmi_then_hangs_witness:
  "\<exists>r t. Oob_GetPlatformCapabilities sample_os (\<lambda>n. [0 ..< n]) sample_oob DCMIVendor [''bmc'']
       sample_world = Some (r, t) \<and> Oob_ExecRaw sample_os sample_oob (request [6, 1]) ''bmc'' t = None"
proof -
  have fair: "fair_scheduler (\<lambda>n. [0 ..< n])"
    by (auto simp: fair_scheduler_def schedule_def)
  have dcmi: "OobProtocol sample_oob = ''dcmi''" by (simp add: sample_oob_def)
  have "caps_count sample_oob DCMIVendor = Suc (length DCMIVendor)"
    by (simp add: caps_count_def dcmi)
  moreover obtain valid s' where "fold (caps_body sample_os sample_oob ''bmc'' DCMIVendor)
      [0 ..< Suc (length DCMIVendor)] ([], sample_world) = (valid, s')"
    by (cases "fold (caps_body sample_os sample_oob ''bmc'' DCMIVendor)
      [0 ..< Suc (length DCMIVendor)] ([], sample_world)")
  ultimately have run: "Oob_GetPlatformCapabilities sample_os (\<lambda>n. [0 ..< n]) sample_oob
      DCMIVendor [''bmc''] sample_world = Some (Val [(''bmc'', valid)], s'\<lparr>oobLocked := True\<rparr>)"
    by (simp add: Oob_GetPlatformCapabilities_def run_goroutines_def pool_outcome_def
        caps_style_def list_ex_iff return_act_apply) (simp add: sample_world_def)
  from oob_dcmi_then_hangs [OF dcmi fair run] run show ?thesis by blast
qed

end
