(* ===== verification/Linux_Inband.thy ===== *)
theory Linux_Inband
  imports Prelude "HOL-Library.Multiset"
begin

text \<open>
  \<open>ipmi/linux_inband.c\<close> and its header: the batch loop of the in-band driver over the
  kernel's IPMI device.

  The kernel is a parameter: \<open>open\<close>, the two \<open>ioctl\<close> calls, \<open>select\<close> and \<open>close\<close>, each
  reading and changing a kernel state of any type \<open>'k\<close>; \<open>k_errno\<close> is the error number and
  text \<open>IPMI_Syserr\<close> copies. A command is the \<open>data_len\<close> bytes of its buffer. The two
  functions of the file differ in the address they send to, which is \<open>mk_addr\<close> here.

  The loop sends while \<open>sent < n\<close> and \<open>sent - recvd < n_sim\<close>, and otherwise receives one
  answer; \<open>recvd\<close> is declared, read and never written, so it stays 0 in the model as it
  does in the code. A message whose \<open>msgid\<close> is not one of the batch is written past the
  output array: \<open>Corrupt\<close>. The caller always passes a status record, so the null test of the
  first lines is left out.
\<close>

record IpmiCommandInput =
  in_data :: "byte list"
  in_channel :: "16 word"
  in_slave :: byte

record IpmiCommandOutput =
  out_data :: "byte list"
  out_valid :: nat

record IpmiStatusInfo =
  error_str :: string
  system_error :: int

datatype ipmi_addr = IpmbAddr "16 word" byte | SystemInterfaceAddr

record 'k kernel =
  k_open :: "string \<Rightarrow> 'k \<Rightarrow> bool \<times> 'k"
  k_send :: "ipmi_addr \<Rightarrow> nat \<Rightarrow> byte \<Rightarrow> byte \<Rightarrow> byte list \<Rightarrow> 'k \<Rightarrow> bool \<times> 'k"
  k_select :: "'k \<Rightarrow> int \<times> 'k"
  k_recv :: "'k \<Rightarrow> (nat \<times> byte list) option \<times> 'k"
  k_close :: "'k \<Rightarrow> 'k"
  k_errno :: "'k \<Rightarrow> int \<times> string"

definition ERR_INVALID_BUFF_SIZE :: int where "ERR_INVALID_BUFF_SIZE = -2"
definition IPMI_OK :: int where "IPMI_OK = 0"
definition ERR_IPMI_DEVICE_NOT_OPENED :: int where "ERR_IPMI_DEVICE_NOT_OPENED = 100"
definition ERR_IMPI_COMMAND_NOT_SENT :: int where "ERR_IMPI_COMMAND_NOT_SENT = 200"
definition ERR_IPMI_DEVICE_NOT_READY :: int where "ERR_IPMI_DEVICE_NOT_READY = 300"
definition ERR_IPMI_DEVICE_TIMEOUT :: int where "ERR_IPMI_DEVICE_TIMEOUT = 310"
definition ERR_IPMI_MESSAGE_NOT_RECEIVED :: int where "ERR_IPMI_MESSAGE_NOT_RECEIVED = 320"

lemmas error_codes = ERR_INVALID_BUFF_SIZE_def IPMI_OK_def ERR_IPMI_DEVICE_NOT_OPENED_def
  ERR_IMPI_COMMAND_NOT_SENT_def ERR_IPMI_DEVICE_NOT_READY_def ERR_IPMI_DEVICE_TIMEOUT_def
  ERR_IPMI_MESSAGE_NOT_RECEIVED_def

section \<open>The loop\<close>

record 'k batch =
  sent :: nat
  recvd :: nat
  to_receive :: nat
  status :: int
  outputs :: "IpmiCommandOutput list"
  info :: IpmiStatusInfo
  kern :: 'k

datatype 'k c_result = Returned int "IpmiCommandOutput list" IpmiStatusInfo 'k | Corrupt

definition IPMI_Syserr :: "'k kernel \<Rightarrow> 'k batch \<Rightarrow> 'k batch" where
  "IPMI_Syserr K b =
     b\<lparr>info := \<lparr>error_str = snd (k_errno K (kern b)), system_error = fst (k_errno K (kern b))\<rparr>\<rparr>"

text \<open>The body of the sending branch, for the message at \<open>sent\<close>.\<close>

definition send_one ::
  "'k kernel \<Rightarrow> (IpmiCommandInput \<Rightarrow> ipmi_addr) \<Rightarrow> IpmiCommandInput list \<Rightarrow> 'k batch \<Rightarrow> 'k batch" where
  "send_one K mk_addr inputs b =
     (let inp = inputs ! sent b;
          b = b\<lparr>outputs := (outputs b)[sent b := (outputs b ! sent b)\<lparr>out_valid := 0\<rparr>]\<rparr>;
          (ok, k) = k_send K (mk_addr inp) (sent b) (in_data inp ! 0) (in_data inp ! 1)
                      (drop 2 (in_data inp)) (kern b);
          b = b\<lparr>kern := k\<rparr>;
          b = (if ok then b
               else (IPMI_Syserr K b)\<lparr>status := ERR_IMPI_COMMAND_NOT_SENT,
                      to_receive := to_receive b - 1\<rparr>)
      in b\<lparr>sent := sent b + 1\<rparr>)"

definition finish :: "'k kernel \<Rightarrow> 'k batch \<Rightarrow> 'k c_result" where
  "finish K b = Returned (status b) (outputs b) (info b) (k_close K (kern b))"

text \<open>
  The body of the receiving branch: it leaves the function, or goes on with one answer less
  to come.
\<close>

datatype 'k progress = Stop "'k c_result" | Continue "'k batch"

definition receive_one :: "'k kernel \<Rightarrow> 'k batch \<Rightarrow> 'k progress" where
  "receive_one K b =
     (let (readyFds, k) = k_select K (kern b);
          b = b\<lparr>kern := k\<rparr>
      in if readyFds < 0 then
           Stop (finish K ((IPMI_Syserr K b)\<lparr>status := ERR_IPMI_DEVICE_NOT_READY\<rparr>))
         else if readyFds < 1 then
           Stop (finish K (b\<lparr>info := (info b)\<lparr>error_str := ''Timeout on read select.''\<rparr>,
                             status := ERR_IPMI_DEVICE_TIMEOUT\<rparr>))
         else
           (case k_recv K (kern b) of
              (None, k) \<Rightarrow>
                Continue ((IPMI_Syserr K (b\<lparr>kern := k\<rparr>))\<lparr>
                  status := ERR_IPMI_MESSAGE_NOT_RECEIVED, to_receive := to_receive b - 1\<rparr>)
            | (Some (msgid, data), k) \<Rightarrow>
                if msgid < length (outputs b) \<and> length data \<le> 1024 then
                  Continue (b\<lparr>kern := k,
                    outputs := (outputs b)[msgid := \<lparr>out_data = data, out_valid = 1\<rparr>],
                    to_receive := to_receive b - 1\<rparr>)
                else Stop Corrupt))"

lemma IPMI_Syserr_sel [simp]:
  "sent (IPMI_Syserr K b) = sent b" "recvd (IPMI_Syserr K b) = recvd b"
  "to_receive (IPMI_Syserr K b) = to_receive b" "status (IPMI_Syserr K b) = status b"
  "outputs (IPMI_Syserr K b) = outputs b" "kern (IPMI_Syserr K b) = kern b"
  by (simp_all add: IPMI_Syserr_def)

lemma receive_one_Continue:
  assumes "receive_one K b = Continue b'"
  obtains r k q where "k_select K (kern b) = (r, k)" and "1 \<le> r"
    and "k_recv K k = (q, kern b')"
    and "sent b' = sent b" and "recvd b' = recvd b" and "to_receive b' = to_receive b - 1"
    and "case q of None \<Rightarrow> status b' = ERR_IPMI_MESSAGE_NOT_RECEIVED \<and> outputs b' = outputs b
         | Some (m, d) \<Rightarrow> m < length (outputs b) \<and> length d \<le> 1024 \<and> status b' = status b
             \<and> outputs b' = (outputs b)[m := \<lparr>out_data = d, out_valid = 1\<rparr>]"
  using assms
  by (auto simp: receive_one_def Let_def split: prod.splits if_splits option.splits)

lemma receive_one_Stop:
  "receive_one K b = Stop (Returned st outs i k) \<Longrightarrow>
     st = ERR_IPMI_DEVICE_NOT_READY \<or> st = ERR_IPMI_DEVICE_TIMEOUT"
  by (auto simp: receive_one_def Let_def finish_def split: prod.splits if_splits option.splits)

function batch_loop ::
  "'k kernel \<Rightarrow> (IpmiCommandInput \<Rightarrow> ipmi_addr) \<Rightarrow> IpmiCommandInput list \<Rightarrow> nat
     \<Rightarrow> 'k batch \<Rightarrow> 'k c_result" where
  "batch_loop K mk_addr inputs n_sim b =
     (if to_receive b = 0 then finish K b
      else if sent b < length inputs \<and> int (sent b) - int (recvd b) < int n_sim then
        batch_loop K mk_addr inputs n_sim (send_one K mk_addr inputs b)
      else
        (case receive_one K b of
           Stop r \<Rightarrow> r
         | Continue b' \<Rightarrow> batch_loop K mk_addr inputs n_sim b'))"
  by pat_completeness auto
termination
proof (relation "measure (\<lambda>(K, mk, inputs, n_sim, b). 2 * to_receive b + (length inputs - sent b))")
  fix K :: "'k kernel" and mk_addr :: "IpmiCommandInput \<Rightarrow> ipmi_addr" and inputs n_sim and b b' :: "'k batch"
  show "sent b < length inputs \<and> int (sent b) - int (recvd b) < int n_sim \<Longrightarrow>
      ((K, mk_addr, inputs, n_sim, send_one K mk_addr inputs b), (K, mk_addr, inputs, n_sim, b))
      \<in> measure (\<lambda>(K, mk, inputs, n_sim, b). 2 * to_receive b + (length inputs - sent b))"
    by (auto simp: send_one_def Let_def split: prod.splits)
  assume "to_receive b \<noteq> 0" and "receive_one K b = Continue b'"
  then show "((K, mk_addr, inputs, n_sim, b'), (K, mk_addr, inputs, n_sim, b))
      \<in> measure (\<lambda>(K, mk, inputs, n_sim, b). 2 * to_receive b + (length inputs - sent b))"
    by (auto elim: receive_one_Continue)
qed simp

declare batch_loop.simps [simp del]

definition batch_commands ::
  "'k kernel \<Rightarrow> (IpmiCommandInput \<Rightarrow> ipmi_addr) \<Rightarrow> string \<Rightarrow> IpmiCommandInput list
     \<Rightarrow> IpmiCommandOutput list \<Rightarrow> nat \<Rightarrow> IpmiStatusInfo \<Rightarrow> 'k \<Rightarrow> 'k c_result" where
  "batch_commands K mk_addr device inputs outs n_sim info0 k =
     (if list_ex (\<lambda>inp. length (in_data inp) < 2) inputs then
        Returned ERR_INVALID_BUFF_SIZE outs
          (info0\<lparr>error_str := ''Supplied buffer too short in msg %d''\<rparr>) k
      else
        (case k_open K device k of
           (False, k) \<Rightarrow>
             let (e, msg) = k_errno K k
             in Returned ERR_IPMI_DEVICE_NOT_OPENED outs \<lparr>error_str = msg, system_error = e\<rparr> k
         | (True, k) \<Rightarrow>
             batch_loop K mk_addr inputs n_sim
               \<lparr>sent = 0, recvd = 0, to_receive = length inputs, status = IPMI_OK,
                outputs = outs, info = info0, kern = k\<rparr>))"

definition ipmb_addr :: "IpmiCommandInput \<Rightarrow> ipmi_addr" where
  "ipmb_addr inp = IpmbAddr (in_channel inp) (in_slave inp)"

definition system_addr :: "IpmiCommandInput \<Rightarrow> ipmi_addr" where
  "system_addr inp = SystemInterfaceAddr"

definition IPMI_BatchCommands ::
  "'k kernel \<Rightarrow> string \<Rightarrow> IpmiCommandInput list \<Rightarrow> IpmiCommandOutput list \<Rightarrow> nat
     \<Rightarrow> IpmiStatusInfo \<Rightarrow> 'k \<Rightarrow> 'k c_result" where
  "IPMI_BatchCommands K = batch_commands K ipmb_addr"

definition IPMI_System_BatchCommands ::
  "'k kernel \<Rightarrow> string \<Rightarrow> IpmiCommandInput list \<Rightarrow> IpmiCommandOutput list \<Rightarrow> nat
     \<Rightarrow> IpmiStatusInfo \<Rightarrow> 'k \<Rightarrow> 'k c_result" where
  "IPMI_System_BatchCommands K = batch_commands K system_addr"

section \<open>Batches wider than the window\<close>

text \<open>
  What every IPMI device does: \<open>pending\<close> counts the answers on their way. A sent command
  adds one, \<open>select\<close> reports the descriptor readable only when there is one, receiving takes
  one away, and a freshly opened device has none.
\<close>

definition kernel_pending :: "'k kernel \<Rightarrow> ('k \<Rightarrow> nat) \<Rightarrow> bool" where
  "kernel_pending K pending \<longleftrightarrow>
     (\<forall>d k ok k'. k_open K d k = (ok, k') \<and> ok \<longrightarrow> pending k' = 0) \<and>
     (\<forall>a m f c ds k ok k'. k_send K a m f c ds k = (ok, k') \<longrightarrow>
        pending k' = pending k + (if ok then 1 else 0)) \<and>
     (\<forall>k r k'. k_select K k = (r, k') \<longrightarrow> pending k' = pending k \<and> (1 \<le> r \<longrightarrow> 0 < pending k)) \<and>
     (\<forall>k r k'. k_recv K k = (r, k') \<longrightarrow> pending k' = pending k - 1)"

lemma kernel_pendingD:
  assumes "kernel_pending K pending"
  shows "k_open K d k = (True, k') \<Longrightarrow> pending k' = 0"
    and "k_send K a m f c ds k = (ok, k') \<Longrightarrow> pending k' = pending k + (if ok then 1 else 0)"
    and "k_select K k = (r, k') \<Longrightarrow> pending k' = pending k"
    and "k_select K k = (r, k') \<Longrightarrow> 1 \<le> r \<Longrightarrow> 0 < pending k"
    and "k_recv K k = (q, k') \<Longrightarrow> pending k' = pending k - 1"
  using assms unfolding kernel_pending_def by blast+

text \<open>
  Every command sent is either answered and received, failed, or pending; \<open>window_inv\<close> counts
  them.
\<close>

definition window_inv :: "('k \<Rightarrow> nat) \<Rightarrow> nat \<Rightarrow> nat \<Rightarrow> 'k batch \<Rightarrow> bool" where
  "window_inv pending n n_sim b \<longleftrightarrow>
     recvd b = 0 \<and> sent b \<le> n_sim \<and> to_receive b \<le> n \<and>
     pending (kern b) + (n - to_receive b) = sent b"

lemma window_inv_send:
  assumes "kernel_pending K pending" and "window_inv pending n n_sim b"
    and "sent b < n_sim" and "to_receive b \<noteq> 0"
  shows "window_inv pending n n_sim (send_one K mk_addr inputs b)"
proof -
  obtain ok k where send: "k_send K (mk_addr (inputs ! sent b)) (sent b)
      (in_data (inputs ! sent b) ! 0) (in_data (inputs ! sent b) ! 1)
      (drop 2 (in_data (inputs ! sent b))) (kern b) = (ok, k)"
    by fastforce
  have "pending k = pending (kern b) + (if ok then 1 else 0)"
    by (rule kernel_pendingD(2) [OF assms(1) send])
  with send assms(2-4) show ?thesis
    by (auto simp: window_inv_def send_one_def Let_def)
qed

lemma window_inv_receive:
  assumes "kernel_pending K pending" and "window_inv pending n n_sim b"
    and "receive_one K b = Continue b'" and "to_receive b \<noteq> 0"
  shows "window_inv pending n n_sim b'"
  using assms(3)
proof (rule receive_one_Continue)
  fix r k q
  assume sel: "k_select K (kern b) = (r, k)" and "1 \<le> r" and rcv: "k_recv K k = (q, kern b')"
    and same: "sent b' = sent b" "recvd b' = recvd b" "to_receive b' = to_receive b - 1"
  have "pending k = pending (kern b)" and "0 < pending (kern b)"
    using kernel_pendingD(3,4) [OF assms(1) sel] \<open>1 \<le> r\<close> by auto
  moreover have "pending (kern b') = pending k - 1"
    by (rule kernel_pendingD(5) [OF assms(1) rcv])
  ultimately show ?thesis
    using assms(2,4) same by (auto simp: window_inv_def)
qed

lemma window_never_completes:
  assumes "kernel_pending K pending" and "n_sim < length inputs"
    and "window_inv pending (length inputs) n_sim b"
    and "batch_loop K mk_addr inputs n_sim b = Returned st outs i k'"
  shows "st = ERR_IPMI_DEVICE_NOT_READY \<or> st = ERR_IPMI_DEVICE_TIMEOUT"
  using assms
proof (induction K mk_addr inputs n_sim b rule: batch_loop.induct)
  case (1 K mk_addr inputs n_sim b)
  note inv = "1.prems"(3) and ret = "1.prems"(4)
  have more: "to_receive b \<noteq> 0"
    using inv "1.prems"(2) by (auto simp: window_inv_def)
  show ?case
  proof (cases "sent b < length inputs \<and> int (sent b) - int (recvd b) < int n_sim")
    case True
    have "window_inv pending (length inputs) n_sim (send_one K mk_addr inputs b)"
      by (rule window_inv_send) (use "1.prems" True more in \<open>auto simp: window_inv_def\<close>)
    moreover have "batch_loop K mk_addr inputs n_sim (send_one K mk_addr inputs b)
        = Returned st outs i k'"
      using ret more True by (simp add: batch_loop.simps [of K mk_addr inputs n_sim b])
    ultimately show ?thesis
      using "1.IH"(1) [OF more True] "1.prems"(1,2) by blast
  next
    case window: False
    then have step: "(case receive_one K b of Stop r \<Rightarrow> r
        | Continue b' \<Rightarrow> batch_loop K mk_addr inputs n_sim b') = Returned st outs i k'"
      using ret more by (simp only: batch_loop.simps [of K mk_addr inputs n_sim b] if_False)
    show ?thesis
    proof (cases "receive_one K b")
      case (Stop r)
      with step show ?thesis by (auto dest: receive_one_Stop)
    next
      case (Continue b')
      then have "window_inv pending (length inputs) n_sim b'"
        by (rule window_inv_receive [OF "1.prems"(1) inv _ more])
      with Continue step show ?thesis
        using "1.IH"(2) [OF more window Continue] "1.prems"(1,2) by simp
    qed
  qed
qed

section \<open>Batches within the window\<close>

text \<open>
  A device that answers: \<open>queue\<close> holds the answers on their way, in any order of arrival;
  \<open>ans\<close> is what the controller answers to a command at an address.
\<close>

definition answering_kernel ::
  "'k kernel \<Rightarrow> ('k \<Rightarrow> (nat \<times> byte list) multiset) \<Rightarrow> (ipmi_addr \<Rightarrow> byte list \<Rightarrow> byte list) \<Rightarrow> bool" where
  "answering_kernel K queue ans \<longleftrightarrow>
     (\<forall>a bs. length (ans a bs) \<le> 1024) \<and>
     (\<forall>d k. \<exists>k'. k_open K d k = (True, k') \<and> queue k' = {#}) \<and>
     (\<forall>a m f c ds k. \<exists>k'. k_send K a m f c ds k = (True, k')
        \<and> queue k' = add_mset (m, ans a (f # c # ds)) (queue k)) \<and>
     (\<forall>k. queue k \<noteq> {#} \<longrightarrow> (\<exists>r k'. k_select K k = (r, k') \<and> 1 \<le> r \<and> queue k' = queue k)) \<and>
     (\<forall>k. queue k \<noteq> {#} \<longrightarrow> (\<exists>m k'. k_recv K k = (Some m, k') \<and> m \<in># queue k
        \<and> queue k' = queue k - {#m#}))"

lemma answering_kernelD:
  assumes "answering_kernel K queue ans"
  shows "length (ans a bs) \<le> 1024"
    and "\<exists>k'. k_open K d k = (True, k') \<and> queue k' = {#}"
    and "\<exists>k'. k_send K a m f c ds k = (True, k')
        \<and> queue k' = add_mset (m, ans a (f # c # ds)) (queue k)"
    and "queue k \<noteq> {#} \<Longrightarrow> \<exists>r k'. k_select K k = (r, k') \<and> 1 \<le> r \<and> queue k' = queue k"
    and "queue k \<noteq> {#} \<Longrightarrow> \<exists>m k'. k_recv K k = (Some m, k') \<and> m \<in># queue k
        \<and> queue k' = queue k - {#m#}"
  using assms unfolding answering_kernel_def by blast+

text \<open>
  The state of the loop once \<open>sent\<close> commands are out and the answers to those of \<open>S\<close> are
  still on their way; \<open>good i\<close> is the answer to the command \<open>i\<close>.
\<close>

definition awaiting ::
  "('k \<Rightarrow> (nat \<times> byte list) multiset) \<Rightarrow> (nat \<Rightarrow> byte list) \<Rightarrow> nat \<Rightarrow> IpmiStatusInfo
     \<Rightarrow> nat set \<Rightarrow> 'k batch \<Rightarrow> bool" where
  "awaiting queue good n info0 S b \<longleftrightarrow>
     recvd b = 0 \<and> S \<subseteq> {..<sent b} \<and> sent b \<le> n \<and> length (outputs b) = n \<and>
     status b = IPMI_OK \<and> info b = info0 \<and> to_receive b = card S + (n - sent b) \<and>
     queue (kern b) = image_mset (\<lambda>i. (i, good i)) (mset_set S) \<and>
     (\<forall>i < sent b. i \<notin> S \<longrightarrow> outputs b ! i = \<lparr>out_data = good i, out_valid = 1\<rparr>)"

lemma awaiting_send:
  assumes "answering_kernel K queue ans" and "awaiting queue good n info0 {..<sent b} b"
    and "sent b < n" and "2 \<le> length (in_data (inputs ! sent b))"
    and "good (sent b) = ans (mk_addr (inputs ! sent b)) (in_data (inputs ! sent b))"
  shows "awaiting queue good n info0 {..<sent (send_one K mk_addr inputs b)} (send_one K mk_addr inputs b)
    \<and> sent (send_one K mk_addr inputs b) = Suc (sent b)"
proof -
  let ?inp = "inputs ! sent b"
  obtain x y zs where data: "in_data ?inp = x # y # zs"
    using assms(4) by (metis One_nat_def Suc_1 Suc_le_length_iff)
  obtain k where send: "k_send K (mk_addr ?inp) (sent b) x y zs (kern b) = (True, k)"
    and queue: "queue k = add_mset (sent b, good (sent b)) (queue (kern b))"
    using answering_kernelD(3) [OF assms(1)] assms(5) data by metis
  have "send_one K mk_addr inputs b = b\<lparr>outputs := (outputs b)[sent b := (outputs b ! sent b)\<lparr>out_valid := 0\<rparr>],
      kern := k, sent := Suc (sent b)\<rparr>"
    using send data by (simp add: send_one_def Let_def)
  with queue assms(2,3) show ?thesis
    by (auto simp: awaiting_def lessThan_Suc)
qed

lemma awaiting_receive:
  assumes "answering_kernel K queue ans" and "awaiting queue good n info0 S b" and "sent b = n"
    and "S \<noteq> {}" and "\<And>i. length (good i) \<le> 1024"
  obtains b' i where "receive_one K b = Continue b'" and "i \<in> S"
    and "awaiting queue good n info0 (S - {i}) b'" and "sent b' = n"
proof -
  note inv = assms(2) [unfolded awaiting_def]
  have fin: "finite S" using inv by (meson finite_lessThan finite_subset)
  have queue: "queue (kern b) = image_mset (\<lambda>i. (i, good i)) (mset_set S)" using inv by blast
  then have ne: "queue (kern b) \<noteq> {#}" using fin assms(4) by (simp add: mset_set_empty_iff)
  obtain r k where sel: "k_select K (kern b) = (r, k)" "1 \<le> r" "queue k = queue (kern b)"
    using answering_kernelD(4) [OF assms(1) ne] by blast
  obtain m k' where rcv: "k_recv K k = (Some m, k')" "m \<in># queue k" "queue k' = queue k - {#m#}"
    using answering_kernelD(5) [OF assms(1), of k] ne unfolding sel(3) by blast
  obtain i where i: "i \<in> S" "m = (i, good i)"
    using rcv(2) fin unfolding sel(3) queue by auto
  let ?b = "b\<lparr>kern := k', outputs := (outputs b)[i := \<lparr>out_data = good i, out_valid = 1\<rparr>],
              to_receive := to_receive b - 1\<rparr>"
  have "S \<subseteq> {..<n}" using inv unfolding assms(3) by (elim conjE)
  then have "i < n" using i(1) by auto
  have len: "length (outputs b) = n" using inv by blast
  have 1: "receive_one K b = Continue ?b"
    using sel(1,2) rcv(1) i(2) assms(5) [of i] \<open>i < n\<close> len by (simp add: receive_one_def)
  have "queue (kern b) = add_mset m (image_mset (\<lambda>i. (i, good i)) (mset_set (S - {i})))"
    using queue mset_set.remove [OF fin i(1)] i(2) by (simp only: image_mset_add_mset)
  then have "queue k' = image_mset (\<lambda>i. (i, good i)) (mset_set (S - {i}))"
    using rcv(3) sel(3) by (simp only: add_mset_remove_trivial)
  moreover have "S - {i} \<subseteq> {..<n}"
    using \<open>S \<subseteq> {..<n}\<close> by (rule subset_trans [OF Diff_subset])
  moreover have "to_receive b - 1 = card (S - {i})"
    using inv i(1) fin assms(3) by (simp add: card_Diff_singleton)
  ultimately have 2: "awaiting queue good n info0 (S - {i}) ?b"
    using inv assms(3) \<open>i < n\<close> by (auto simp: awaiting_def nth_list_update)
  show thesis by (rule that [OF 1 i(1) 2]) (simp add: assms(3))
qed

lemma receives_all:
  assumes "answering_kernel K queue ans" and "awaiting queue good (length inputs) info0 S b"
    and "sent b = length inputs" and "\<And>i. length (good i) \<le> 1024"
  shows "\<exists>k. batch_loop K mk_addr inputs n_sim b = Returned IPMI_OK
    (map (\<lambda>i. \<lparr>out_data = good i, out_valid = 1\<rparr>) [0..<length inputs]) info0 k"
  using assms(2,3)
proof (induction "card S" arbitrary: S b)
  case 0
  then have "S = {}"
    by (metis awaiting_def card_0_eq finite_lessThan finite_subset)
  with 0 have "outputs b = map (\<lambda>i. \<lparr>out_data = good i, out_valid = 1\<rparr>) [0..<length inputs]"
    and "to_receive b = 0" and "status b = IPMI_OK" and "info b = info0"
    by (auto simp: awaiting_def intro!: nth_equalityI)
  then show ?case by (simp add: batch_loop.simps finish_def)
next
  case (Suc c)
  then have "S \<noteq> {}" by auto
  obtain b' i where b': "receive_one K b = Continue b'" and "i \<in> S"
    and inv: "awaiting queue good (length inputs) info0 (S - {i}) b'" "sent b' = length inputs"
    using awaiting_receive [OF assms(1) Suc.prems \<open>S \<noteq> {}\<close> assms(4)] by blast
  have "to_receive b \<noteq> 0" using Suc by (simp add: awaiting_def)
  have "c = card (S - {i})" using Suc.hyps(2) \<open>i \<in> S\<close> by simp
  from Suc.hyps(1) [OF this inv] show ?case
    using b' \<open>to_receive b \<noteq> 0\<close> Suc.prems(2) by (simp add: batch_loop.simps [of _ _ _ _ b])
qed

lemma sends_all:
  assumes "answering_kernel K queue ans" and "awaiting queue good (length inputs) info0 {..<sent b} b"
    and "length inputs \<le> n_sim" and "\<And>i. length (good i) \<le> 1024"
    and "\<And>i. i < length inputs \<Longrightarrow> 2 \<le> length (in_data (inputs ! i))
      \<and> good i = ans (mk_addr (inputs ! i)) (in_data (inputs ! i))"
  shows "\<exists>k. batch_loop K mk_addr inputs n_sim b = Returned IPMI_OK
    (map (\<lambda>i. \<lparr>out_data = good i, out_valid = 1\<rparr>) [0..<length inputs]) info0 k"
  using assms(2)
proof (induction "length inputs - sent b" arbitrary: b)
  case 0
  then have "sent b = length inputs" by (simp add: awaiting_def)
  then show ?case using receives_all [OF assms(1) 0(2) _ assms(4)] by blast
next
  case (Suc c)
  let ?b = "send_one K mk_addr inputs b"
  have lt: "sent b < length inputs" using Suc.hyps(2) by simp
  have step: "awaiting queue good (length inputs) info0 {..<sent ?b} ?b \<and> sent ?b = Suc (sent b)"
    using awaiting_send [OF assms(1) Suc.prems lt] assms(5) [OF lt] by blast
  have "c = length inputs - sent ?b" using step Suc.hyps(2) by simp
  have "to_receive b \<noteq> 0" and "recvd b = 0"
    using Suc.prems lt by (auto simp: awaiting_def)
  moreover have "\<exists>k. batch_loop K mk_addr inputs n_sim ?b = Returned IPMI_OK
    (map (\<lambda>i. \<lparr>out_data = good i, out_valid = 1\<rparr>) [0..<length inputs]) info0 k"
    using Suc.hyps(1) [OF \<open>c = length inputs - sent ?b\<close>] step by blast
  ultimately show ?case
    using lt assms(3) by (simp add: batch_loop.simps [of _ _ _ _ b])
qed

lemma batch_commands_correct:
  assumes "answering_kernel K queue ans" and "length inputs \<le> n_sim"
    and "length outs = length inputs" and "\<forall>inp \<in> set inputs. 2 \<le> length (in_data inp)"
  shows "\<exists>k'. batch_commands K mk_addr device inputs outs n_sim info0 k =
    Returned IPMI_OK (map (\<lambda>inp. \<lparr>out_data = ans (mk_addr inp) (in_data inp), out_valid = 1\<rparr>) inputs) info0 k'"
proof -
  let ?good = "\<lambda>i. ans (mk_addr (inputs ! i)) (in_data (inputs ! i))"
  have long: "\<not> list_ex (\<lambda>inp. length (in_data inp) < 2) inputs"
    using assms(4) by (auto simp: list_ex_iff)
  obtain k0 where op: "k_open K device k = (True, k0)" "queue k0 = {#}"
    using answering_kernelD(2) [OF assms(1)] by blast
  let ?b = "\<lparr>sent = 0, recvd = 0, to_receive = length inputs, status = IPMI_OK,
                outputs = outs, info = info0, kern = k0\<rparr>"
  have "awaiting queue ?good (length inputs) info0 {..<sent ?b} ?b"
    using op(2) assms(3) by (simp add: awaiting_def)
  moreover have "2 \<le> length (in_data (inputs ! i))" if "i < length inputs" for i
    using that assms(4) by simp
  ultimately obtain k' where "batch_loop K mk_addr inputs n_sim ?b = Returned IPMI_OK
      (map (\<lambda>i. \<lparr>out_data = ?good i, out_valid = 1\<rparr>) [0..<length inputs]) info0 k'"
    using sends_all [where good = ?good, OF assms(1) _ assms(2) answering_kernelD(1) [OF assms(1)]]
    by blast
  moreover have "map (\<lambda>i. \<lparr>out_data = ?good i, out_valid = 1\<rparr>) [0..<length inputs]
      = map (\<lambda>inp. \<lparr>out_data = ans (mk_addr inp) (in_data inp), out_valid = 1\<rparr>) inputs"
    by (rule nth_equalityI) simp_all
  ultimately show ?thesis using op(1) long by (simp add: batch_commands_def)
qed

lemma batch_commands_wide:
  assumes "kernel_pending K pending" and "n_sim < length inputs"
    and "\<forall>inp \<in> set inputs. 2 \<le> length (in_data inp)"
    and "batch_commands K mk_addr device inputs outs n_sim info0 k = Returned st outs' i k'"
  shows "st = ERR_IPMI_DEVICE_NOT_OPENED \<or> st = ERR_IPMI_DEVICE_NOT_READY
    \<or> st = ERR_IPMI_DEVICE_TIMEOUT"
proof -
  have long: "\<not> list_ex (\<lambda>inp. length (in_data inp) < 2) inputs"
    using assms(3) by (auto simp: list_ex_iff)
  obtain ok k0 where op: "k_open K device k = (ok, k0)" by fastforce
  show ?thesis
  proof (cases ok)
    case False
    with op long assms(4) show ?thesis
      by (auto simp: batch_commands_def Let_def split: prod.splits)
  next
    case True
    let ?b = "\<lparr>sent = 0, recvd = 0, to_receive = length inputs, status = IPMI_OK,
                outputs = outs, info = info0, kern = k0\<rparr>"
    have "pending k0 = 0" using kernel_pendingD(1) [OF assms(1), of device k k0] op True by simp
    then have inv: "window_inv pending (length inputs) n_sim ?b"
      by (simp add: window_inv_def)
    have "batch_loop K mk_addr inputs n_sim ?b = Returned st outs' i k'"
      using assms(4) op True long by (simp add: batch_commands_def)
    from window_never_completes [OF assms(1,2) inv this] show ?thesis by blast
  qed
qed

section \<open>What a batch returns\<close>

text \<open>
  A device that answers every command with a completion code and the command's second and
  third bytes, the latest command first.
\<close>

definition sample_answer :: "ipmi_addr \<Rightarrow> byte list \<Rightarrow> byte list" where
  "sample_answer a bs = 0 # take 2 (drop 1 bs)"

definition sample_kernel :: "(nat \<times> byte list) list kernel" where
  "sample_kernel =
     \<lparr>k_open = (\<lambda>d k. (True, [])),
      k_send = (\<lambda>a m f c ds k. (True, (m, sample_answer a (f # c # ds)) # k)),
      k_select = (\<lambda>k. (if k = [] then 0 else 1, k)),
      k_recv = (\<lambda>k. case k of [] \<Rightarrow> (None, []) | m # k' \<Rightarrow> (Some m, k')),
      k_close = (\<lambda>k. k),
      k_errno = (\<lambda>k. (0, []))\<rparr>"

lemma sample_kernel_answers: "answering_kernel sample_kernel mset sample_answer"
  by (auto simp: answering_kernel_def sample_kernel_def sample_answer_def neq_Nil_conv)

lemma sample_kernel_pending: "kernel_pending sample_kernel length"
  by (auto simp: kernel_pending_def sample_kernel_def split: list.splits if_splits)

definition sample_input :: "byte \<Rightarrow> IpmiCommandInput" where
  "sample_input b = \<lparr>in_data = [0x2e, b, 0x57], in_channel = 6, in_slave = 0x2c\<rparr>"

definition sample_output :: IpmiCommandOutput where
  "sample_output = \<lparr>out_data = [], out_valid = 0\<rparr>"

definition no_info :: IpmiStatusInfo where
  "no_info = \<lparr>error_str = [], system_error = 0\<rparr>"

text \<open>
  C21. A batch of at most \<open>n_sim\<close> commands to a device that answers them all, in whatever
  order, returns \<open>IPMI_OK\<close> with every answer, marked valid, at the index of its command; so do
  both of the file's functions.
\<close>

theorem window_batch_answers:
  assumes "answering_kernel K queue ans" and "length inputs \<le> n_sim"
    and "length outs = length inputs" and "\<forall>inp \<in> set inputs. 2 \<le> length (in_data inp)"
  shows "(\<exists>k'. IPMI_BatchCommands K device inputs outs n_sim info0 k =
      Returned IPMI_OK
        (map (\<lambda>inp. \<lparr>out_data = ans (IpmbAddr (in_channel inp) (in_slave inp)) (in_data inp),
                       out_valid = 1\<rparr>) inputs) info0 k')
    \<and> (\<exists>k'. IPMI_System_BatchCommands K device inputs outs n_sim info0 k =
      Returned IPMI_OK
        (map (\<lambda>inp. \<lparr>out_data = ans SystemInterfaceAddr (in_data inp), out_valid = 1\<rparr>) inputs)
        info0 k')"
  using batch_commands_correct [OF assms, of ipmb_addr] batch_commands_correct [OF assms, of system_addr]
  by (simp add: IPMI_BatchCommands_def IPMI_System_BatchCommands_def ipmb_addr_def system_addr_def)

lemma window_batch_answers_witness:
  "\<exists>k'. IPMI_BatchCommands sample_kernel ''/dev/ipmi0'' [sample_input 1, sample_input 2]
      [sample_output, sample_output] 3 no_info [] =
    Returned 0 [\<lparr>out_data = [0, 1, 0x57], out_valid = 1\<rparr>, \<lparr>out_data = [0, 2, 0x57], out_valid = 1\<rparr>]
      no_info k'"
  using window_batch_answers [OF sample_kernel_answers, of "[sample_input 1, sample_input 2]" 3
      "[sample_output, sample_output]" "''/dev/ipmi0''" no_info "[]"]
  by (simp add: sample_input_def sample_answer_def IPMI_OK_def)

text \<open>
  C22. A batch of more than \<open>n_sim\<close> well-formed commands never succeeds: the count of
  received answers the window subtracts is never advanced, so after \<open>n_sim\<close> commands nothing
  more is sent and the loop ends in a timeout or a device error, whatever the device answers.
\<close>

theorem wide_batch_fails:
  assumes "kernel_pending K pending" and "n_sim < length inputs"
    and "\<forall>inp \<in> set inputs. 2 \<le> length (in_data inp)"
    and "IPMI_BatchCommands K device inputs outs n_sim info0 k = Returned st outs' i k'"
  shows "st \<in> {ERR_IPMI_DEVICE_NOT_OPENED, ERR_IPMI_DEVICE_NOT_READY, ERR_IPMI_DEVICE_TIMEOUT}"
  using batch_commands_wide [OF assms(1-3)] assms(4) by (simp add: IPMI_BatchCommands_def)

lemma sample_batch_times_out:
  "\<exists>outs' i k'. IPMI_BatchCommands sample_kernel ''/dev/ipmi0''
      [sample_input 1, sample_input 2, sample_input 3, sample_input 4]
      [sample_output, sample_output, sample_output, sample_output] 3 no_info [] = Returned 310 outs' i k'"
  by (simp add: IPMI_BatchCommands_def batch_commands_def batch_loop.simps send_one_def sample_input_def
      sample_kernel_def receive_one_def finish_def sample_output_def sample_answer_def
      error_codes no_info_def Let_def)

lemma wide_batch_fails_witness:
  "\<exists>st outs' i k'. IPMI_BatchCommands sample_kernel ''/dev/ipmi0''
      [sample_input 1, sample_input 2, sample_input 3, sample_input 4]
      [sample_output, sample_output, sample_output, sample_output] 3 no_info [] = Returned st outs' i k'
    \<and> st \<in> {100, 300, 310}"
proof -
  obtain outs' i k' where run: "IPMI_BatchCommands sample_kernel ''/dev/ipmi0''
      [sample_input 1, sample_input 2, sample_input 3, sample_input 4]
      [sample_output, sample_output, sample_output, sample_output] 3 no_info [] = Returned 310 outs' i k'"
    using sample_batch_times_out by blast
  have "\<forall>inp \<in> set [sample_input 1, sample_input 2, sample_input 3, sample_input 4].
      2 \<le> length (in_data inp)"
    by (simp add: sample_input_def)
  from wide_batch_fails [OF sample_kernel_pending _ this run] have "310 \<in> {100, 300, 310 :: int}"
    by (simp add: error_codes)
  with run show ?thesis by blast
qed

end
