(* ===== verification/Inband.thy ===== *)
theory Inband
  imports Inband_Ipmitool Linux_Inband
begin

text \<open>
  \<open>ipmi/inband.go\<close>: the backend that talks to the kernel's IPMI driver through the C
  functions of \<open>Linux_Inband\<close>.

  The environment of the world is the kernel state. Every operation takes the backend's mutex
  and releases it in a deferred call, so with one caller it has no effect and is left out.
  The C structs the Go side fills are zeroed by \<open>make\<close>; their 1024-byte buffer is a Go array
  there, so a longer request is an index out of range. A write past the output array
  (\<open>Corrupt\<close>) is the panic \<open>MemoryCorruption\<close>.
\<close>

record LinuxInband =
  InbandDevice :: string
  InbandProtocol :: string

definition to_input :: "IpmiRequest \<Rightarrow> IpmiCommandInput go" where
  "to_input r =
     (if length (ReqData r) \<le> 1024
      then Val \<lparr>in_data = ReqData r, in_channel = Channel r, in_slave = Slave r\<rparr>
      else Panic IndexOutOfRange)"

definition zero_output :: IpmiCommandOutput where
  "zero_output = \<lparr>out_data = [], out_valid = 0\<rparr>"

definition zero_info :: IpmiStatusInfo where
  "zero_info = \<lparr>error_str = [], system_error = 0\<rparr>"

definition to_response :: "IpmiCommandOutput \<Rightarrow> IpmiResponse" where
  "to_response r = \<lparr>RespData = out_data r, IsValid = out_valid r\<rparr>"

text \<open>The \<open>switch\<close> over the error code, and the copy of the outputs behind it.\<close>

definition finish_call :: "('w \<Rightarrow> 'w c_result) \<Rightarrow> ('w world, IpmiResponse list) act" where
  "finish_call f = (\<lambda>s.
     (case f (env s) of
        Corrupt \<Rightarrow> Some (Panic MemoryCorruption, s)
      | Returned errcode outs nfo k \<Rightarrow>
          Some (if errcode < 0 then Err (InvalidCall errcode)
                else if 0 < errcode then Err (SystemError errcode (system_error nfo) (error_str nfo))
                else Val (map to_response outs), s\<lparr>env := k\<rparr>)))"

definition Inband_BatchExecRaw ::
  "'w kernel \<Rightarrow> LinuxInband \<Rightarrow> IpmiRequest list \<Rightarrow> string \<Rightarrow> ('w world, IpmiResponse list) act" where
  "Inband_BatchExecRaw K al requests host =
     bind_act (map_act (\<lambda>r. lift_go (to_input r)) requests) (\<lambda>inputs.
     if inputs = [] then lift_go (Panic IndexOutOfRange)
     else if InbandProtocol al = ''node_manager'' then
       finish_call (IPMI_BatchCommands K (InbandDevice al) inputs
         (replicate (length inputs) zero_output) 3 zero_info)
     else
       finish_call (IPMI_System_BatchCommands K (InbandDevice al) inputs
         (replicate (length inputs) zero_output) 3 zero_info))"

definition Inband_ExecRaw ::
  "'w kernel \<Rightarrow> LinuxInband \<Rightarrow> IpmiRequest \<Rightarrow> string \<Rightarrow> ('w world, IpmiResponse) act" where
  "Inband_ExecRaw K al req host =
     bind_act (lift_go (to_input req)) (\<lambda>inp.
     bind_act (finish_call (IPMI_System_BatchCommands K (InbandDevice al) [inp] [zero_output] 3 zero_info))
       (\<lambda>results. lift_go (idx results 0)))"

text \<open>
  The thermal probe of this backend works on its own copy of \<open>CmdSDR\<close>, unlike the ipmitool
  ones, and gives up quietly when a command fails.
\<close>

definition inband_thermal ::
  "'w kernel \<Rightarrow> LinuxInband \<Rightarrow> string \<Rightarrow> ('w world, RequestDescription list) act" where
  "inband_thermal K al host =
     bind_act (catch_act (Inband_ExecRaw K al (request CmdDCMIThermalCap) host)) (\<lambda>resp.
     (case resp of
        Inl e \<Rightarrow> return_act []
      | Inr resp \<Rightarrow>
          if 5 < length (RespData resp) then
            let data = drop 1 (RespData resp) in
            bind_act get_globs (\<lambda>g.
            bind_act (catch_act (Inband_ExecRaw K al
                (request ((cmdSDR g)[4 := data ! 3, 5 := data ! 4])) host)) (\<lambda>resp.
            (case resp of
               Inl e \<Rightarrow> return_act []
             | Inr resp \<Rightarrow>
                 if 10 < length (RespData resp) then
                   let data = drop 1 (RespData resp) in
                   bind_act (modify_globs (\<lambda>g. g\<lparr>dcmiThermalData :=
                       (dcmiThermalData g)[2 := data ! 9]\<rparr>)) (\<lambda>_. return_act [DcmiThermal])
                 else return_act [])))
          else return_act []))"

definition Inband_GetPlatformCapabilities ::
  "'w kernel \<Rightarrow> LinuxInband \<Rightarrow> RequestDescription list \<Rightarrow> string list
     \<Rightarrow> ('w world, (string, RequestDescription list) gomap) act" where
  "Inband_GetPlatformCapabilities K al requests hostlist =
     bind_act (lift_go (idx hostlist 0)) (\<lambda>host.
     bind_act get_globs (\<lambda>g.
     bind_act (catch_act (Inband_BatchExecRaw K al (map (\<lambda>rd. resolve g (Request rd)) requests) host))
       (\<lambda>response.
     let valid = (case response of Inl e \<Rightarrow> []
       | Inr response \<Rightarrow> map fst (filter (\<lambda>(rd, r). IsValid r = 1) (zip requests response)))
     in if InbandProtocol al = ''dcmi'' then
          bind_act (inband_thermal K al host) (\<lambda>thermal. return_act [(host, valid @ thermal)])
        else return_act [(host, valid)])))"

section \<open>What the backend promises\<close>

lemma finish_call_env:
  "\<exists>r w. finish_call f s = Some (r, s\<lparr>env := w\<rparr>)"
  by (cases "f (env s)") (auto simp: finish_call_def intro: exI [of _ "env s"])

lemma returns_finish_call [act_intros]: "returns wf_world (finish_call f)"
  unfolding returns_def using finish_call_env [of f] by (metis wf_world_env)

lemma returns_Inband_Batch [act_intros]: "returns wf_world (Inband_BatchExecRaw K al requests host)"
  unfolding Inband_BatchExecRaw_def by (intro act_intros)

lemma returns_Inband_ExecRaw [act_intros]: "returns wf_world (Inband_ExecRaw K al req host)"
  unfolding Inband_ExecRaw_def by (intro act_intros)

lemma returns_inband_thermal [act_intros]: "returns wf_world (inband_thermal K al host)"
  unfolding inband_thermal_def Let_def
  by (intro act_intros wf_world_thermal)

lemma returns_Inband_Caps [act_intros]:
  "returns wf_world (Inband_GetPlatformCapabilities K al requests hosts)"
  unfolding Inband_GetPlatformCapabilities_def Let_def by (intro act_intros)

section \<open>Running commands\<close>

definition input_of :: "IpmiRequest \<Rightarrow> IpmiCommandInput" where
  "input_of r = \<lparr>in_data = ReqData r, in_channel = Channel r, in_slave = Slave r\<rparr>"

lemma to_input_good: "good_request r \<Longrightarrow> to_input r = Val (input_of r)"
  by (simp add: to_input_def good_request_def input_of_def)

lemma inputs_good:
  "\<forall>r \<in> set requests. good_request r \<Longrightarrow>
     map_act (\<lambda>r. lift_go (to_input r)) requests = return_act (map input_of requests)"
  by (induction requests) (auto simp: to_input_good act_simps fun_eq_iff)

lemma Inband_Batch_Nil: "Inband_BatchExecRaw K al [] host s = Some (Panic IndexOutOfRange, s)"
  by (simp add: Inband_BatchExecRaw_def act_simps)

lemma Inband_Batch_good:
  assumes "\<forall>r \<in> set requests. good_request r" and "requests \<noteq> []"
  shows "Inband_BatchExecRaw K al requests host =
     finish_call ((if InbandProtocol al = ''node_manager'' then IPMI_BatchCommands K
                   else IPMI_System_BatchCommands K) (InbandDevice al) (map input_of requests)
       (replicate (length requests) zero_output) 3 zero_info)"
  using assms(2) by (simp add: Inband_BatchExecRaw_def inputs_good [OF assms(1)] act_simps)

lemma Inband_ExecRaw_answers:
  assumes "answering_kernel K queue ans" and "good_request req"
  shows "\<exists>w. Inband_ExecRaw K al req host s =
    Some (Val \<lparr>RespData = ans SystemInterfaceAddr (ReqData req), IsValid = 1\<rparr>, s\<lparr>env := w\<rparr>)"
proof -
  have "\<exists>k'. batch_commands K system_addr (InbandDevice al) [input_of req] [zero_output] 3 zero_info (env s) =
    Returned IPMI_OK (map (\<lambda>inp. \<lparr>out_data = ans (system_addr inp) (in_data inp), out_valid = 1\<rparr>)
      [input_of req]) zero_info k'"
    by (rule batch_commands_correct [OF assms(1)])
       (use assms(2) in \<open>simp_all add: good_request_def input_of_def\<close>)
  then obtain k' where run: "IPMI_System_BatchCommands K (InbandDevice al) [input_of req] [zero_output] 3
      zero_info (env s) = Returned IPMI_OK
      [\<lparr>out_data = ans SystemInterfaceAddr (ReqData req), out_valid = 1\<rparr>] zero_info k'"
    by (auto simp: IPMI_System_BatchCommands_def system_addr_def input_of_def)
  show ?thesis
    by (intro exI [of _ k'])
       (simp add: Inband_ExecRaw_def to_input_good [OF assms(2)] act_simps finish_call_def run
         IPMI_OK_def to_response_def)
qed

lemma Inband_Batch_answers:
  assumes "answering_kernel K queue ans" and "\<forall>r \<in> set requests. good_request r"
    and "requests \<noteq> []" and "length requests \<le> 3" and "InbandProtocol al \<noteq> ''node_manager''"
  shows "\<exists>w. Inband_BatchExecRaw K al requests host s =
    Some (Val (map (\<lambda>r. \<lparr>RespData = ans SystemInterfaceAddr (ReqData r), IsValid = 1\<rparr>) requests), s\<lparr>env := w\<rparr>)"
proof -
  have "\<exists>k'. batch_commands K system_addr (InbandDevice al) (map input_of requests)
      (replicate (length requests) zero_output) 3 zero_info (env s) =
    Returned IPMI_OK (map (\<lambda>inp. \<lparr>out_data = ans (system_addr inp) (in_data inp), out_valid = 1\<rparr>)
      (map input_of requests)) zero_info k'"
    by (rule batch_commands_correct [OF assms(1)])
       (use assms(2,4) in \<open>auto simp: good_request_def input_of_def\<close>)
  then obtain k' where run: "IPMI_System_BatchCommands K (InbandDevice al) (map input_of requests)
      (replicate (length requests) zero_output) 3 zero_info (env s) = Returned IPMI_OK
      (map (\<lambda>r. \<lparr>out_data = ans SystemInterfaceAddr (ReqData r), out_valid = 1\<rparr>) requests) zero_info k'"
    by (auto simp: IPMI_System_BatchCommands_def system_addr_def input_of_def comp_def)
  show ?thesis
    using assms(5) by (intro exI [of _ k'])
       (simp add: Inband_Batch_good [OF assms(2,3)] finish_call_def run IPMI_OK_def to_response_def comp_def)
qed

section \<open>Capabilities\<close>

text \<open>What the two commands of the thermal probe answer: the number of the inlet sensor.\<close>

definition thermal_sensor :: "(byte list \<Rightarrow> byte list) \<Rightarrow> globals \<Rightarrow> byte option" where
  "thermal_sensor answer g =
     (let cap = answer CmdDCMIThermalCap in
      if 5 < length cap then
        let sdr = answer ((cmdSDR g)[4 := cap ! 4, 5 := cap ! 5])
        in if 10 < length sdr then Some (sdr ! 10) else None
      else None)"

lemma inband_thermal_answers:
  assumes "answering_kernel K queue ans" and "wf_world s"
  shows "\<exists>w. inband_thermal K al host s =
    (case thermal_sensor (ans SystemInterfaceAddr) (globs s) of
       None \<Rightarrow> Some (Val [], s\<lparr>env := w\<rparr>)
     | Some b \<Rightarrow> Some (Val [DcmiThermal], s\<lparr>env := w, globs :=
         (globs s)\<lparr>dcmiThermalData := (dcmiThermalData (globs s))[2 := b]\<rparr>\<rparr>))"
proof -
  have good1: "good_request (request CmdDCMIThermalCap)"
    by (simp add: good_request_def request_def CmdDCMIThermalCap_def)
  have good2: "good_request (request ((cmdSDR (globs s))[4 := a, 5 := b]))" for a b
    using assms(2) by (simp add: good_request_def request_def wf_world_def wf_globals_def)
  let ?cap = "ans SystemInterfaceAddr CmdDCMIThermalCap"
  let ?req = "(cmdSDR (globs s))[4 := ?cap ! 4, 5 := ?cap ! 5]"
  obtain w1 where 1: "Inband_ExecRaw K al (request CmdDCMIThermalCap) host s =
      Some (Val \<lparr>RespData = ?cap, IsValid = 1\<rparr>, s\<lparr>env := w1\<rparr>)"
    using Inband_ExecRaw_answers [OF assms(1) good1, of al host s] by (auto simp: request_def)
  obtain w2 where 2: "Inband_ExecRaw K al (request ?req) host (s\<lparr>env := w1\<rparr>) =
      Some (Val \<lparr>RespData = ans SystemInterfaceAddr ?req, IsValid = 1\<rparr>, s\<lparr>env := w2\<rparr>)"
    using Inband_ExecRaw_answers [OF assms(1) good2 [of "?cap ! 4" "?cap ! 5"], of al host "s\<lparr>env := w1\<rparr>"]
    by (auto simp: request_def)
  note run = inband_thermal_def 1 2 act_simps thermal_sensor_def Let_def
  consider "length ?cap \<le> 5" | "5 < length ?cap" "length (ans SystemInterfaceAddr ?req) \<le> 10"
    | "5 < length ?cap" "10 < length (ans SystemInterfaceAddr ?req)" by linarith
  then show ?thesis
  proof cases
    case 1 then show ?thesis by (intro exI [of _ w1]) (simp add: run)
  next
    case 2 then show ?thesis by (intro exI [of _ w2]) (simp add: run nth_drop)
  next
    case 3 then show ?thesis by (intro exI [of _ w2]) (simp add: run nth_drop)
  qed
qed

lemma inband_dcmi_caps:
  assumes "answering_kernel K queue ans" and "wf_world s" and "InbandProtocol al = ''dcmi''"
    and "\<forall>rd \<in> set requests. good_request (resolve (globs s) (Request rd))"
    and "requests \<noteq> []" and "length requests \<le> 3"
  shows "\<exists>w. Inband_GetPlatformCapabilities K al requests (host # hosts) s =
    (case thermal_sensor (ans SystemInterfaceAddr) (globs s) of
       None \<Rightarrow> Some (Val [(host, requests)], s\<lparr>env := w\<rparr>)
     | Some b \<Rightarrow> Some (Val [(host, requests @ [DcmiThermal])], s\<lparr>env := w, globs :=
         (globs s)\<lparr>dcmiThermalData := (dcmiThermalData (globs s))[2 := b]\<rparr>\<rparr>))"
proof -
  let ?cmds = "map (\<lambda>rd. resolve (globs s) (Request rd)) requests"
  let ?resp = "map (\<lambda>r. \<lparr>RespData = ans SystemInterfaceAddr (ReqData r), IsValid = 1\<rparr>) ?cmds"
  obtain w where 1: "Inband_BatchExecRaw K al ?cmds host s = Some (Val ?resp, s\<lparr>env := w\<rparr>)"
    using Inband_Batch_answers [OF assms(1), of ?cmds al host s] assms(3-6) by auto
  obtain w' where 2: "inband_thermal K al host (s\<lparr>env := w\<rparr>) =
    (case thermal_sensor (ans SystemInterfaceAddr) (globs s) of
       None \<Rightarrow> Some (Val [], s\<lparr>env := w'\<rparr>)
     | Some b \<Rightarrow> Some (Val [DcmiThermal], s\<lparr>env := w', globs :=
         (globs s)\<lparr>dcmiThermalData := (dcmiThermalData (globs s))[2 := b]\<rparr>\<rparr>))"
    using inband_thermal_answers [OF assms(1), of "s\<lparr>env := w\<rparr>" al host] assms(2)
    by (auto cong: option.case_cong)
  have keep: "map fst (filter (\<lambda>(rd, r). IsValid r = 1) (zip rds
      (map (\<lambda>rd. \<lparr>RespData = f rd, IsValid = 1\<rparr>) rds))) = rds" for f and rds :: "RequestDescription list"
    by (induction rds) auto
  show ?thesis
    by (intro exI [of _ w'])
       (use keep assms(3) 1 2 in \<open>auto simp: Inband_GetPlatformCapabilities_def act_simps
          Let_def comp_def split: option.splits\<close>)
qed

text \<open>
  C20. With the protocol \<open>dcmi\<close> and a device that answers, the capabilities of a table of at
  most three requests are the whole table, followed by the thermal description exactly when
  both thermal commands are answered at length; the sensor number read is then in the request
  it shares, and nothing else of the package state changes.
\<close>

theorem inband_dcmi_capabilities:
  assumes "answering_kernel K queue ans" and "wf_world s" and "InbandProtocol al = ''dcmi''"
    and "\<forall>rd \<in> set requests. good_request (resolve (globs s) (Request rd))"
    and "requests \<noteq> []" and "length requests \<le> 3"
  shows "\<exists>w. Inband_GetPlatformCapabilities K al requests (host # hosts) s =
    (case thermal_sensor (ans SystemInterfaceAddr) (globs s) of
       None \<Rightarrow> Some (Val [(host, requests)], s\<lparr>env := w\<rparr>)
     | Some b \<Rightarrow> Some (Val [(host, requests @ [DcmiThermal])], s\<lparr>env := w, globs :=
         (globs s)\<lparr>dcmiThermalData := (dcmiThermalData (globs s))[2 := b]\<rparr>\<rparr>))"
  using assms by (rule inband_dcmi_caps)

definition thermal_answer :: "ipmi_addr \<Rightarrow> byte list \<Rightarrow> byte list" where
  \<comment> \<open>a controller whose inlet sensor has the record 1 and the number 9\<close>
  "thermal_answer a bs =
     (if take 2 bs = [0x2c, 0x7] then [0, 0xdc, 1, 1, 1, 0]
      else if take 2 bs = [0xa, 0x23] then [0, 2, 0, 1, 0, 0x51, 1, 0x30, 0x20, 0, 9, 7, 1]
      else [0, 0xdc, 1])"

definition thermal_kernel :: "(nat \<times> byte list) list kernel" where
  "thermal_kernel = sample_kernel\<lparr>k_send :=
     (\<lambda>a m f c ds k. (True, (m, thermal_answer a (f # c # ds)) # k))\<rparr>"

lemma thermal_kernel_answers: "answering_kernel thermal_kernel mset thermal_answer"
  by (auto simp: answering_kernel_def thermal_kernel_def sample_kernel_def thermal_answer_def
      neq_Nil_conv)

definition inband_world :: "(nat \<times> byte list) list world" where
  "inband_world = \<lparr>env = [], globs = init_globals, oobLocked = False\<rparr>"

lemma inband_dcmi_capabilities_witness:
  "\<exists>t. Inband_GetPlatformCapabilities thermal_kernel
      \<lparr>InbandDevice = ''/dev/ipmi0'', InbandProtocol = ''dcmi''\<rparr> DCMIVendor [''node''] inband_world
    = Some (Val [(''node'', DCMIVendor @ [DcmiThermal])], t)
    \<and> dcmiThermalData (globs t) = [0x4, 0x2d, 9]"
proof -
  have wf: "wf_world inband_world"
    by (simp add: wf_world_def inband_world_def wf_init_globals)
  have good: "\<forall>rd \<in> set DCMIVendor. good_request (resolve (globs inband_world) (Request rd))"
    by (simp add: DCMIVendor_def good_request_def resolve_def request_def)
  have sensor: "thermal_sensor (thermal_answer SystemInterfaceAddr) (globs inband_world) = Some 9"
    by (simp add: thermal_sensor_def thermal_answer_def CmdDCMIThermalCap_def inband_world_def
        init_globals_def Let_def)
  have len: "DCMIVendor \<noteq> []" "length DCMIVendor \<le> 3" by (simp_all add: DCMIVendor_def)
  show ?thesis
    using inband_dcmi_capabilities [OF thermal_kernel_answers wf _ good len,
        of "\<lparr>InbandDevice = ''/dev/ipmi0'', InbandProtocol = ''dcmi''\<rparr>" "''node''" "[]"]
    unfolding sensor by (auto simp: inband_world_def init_globals_def)
qed

lemma inband_nm_caps:
  assumes "kernel_pending K pending" and "InbandProtocol al = ''node_manager''"
    and "\<forall>rd \<in> set requests. good_request (resolve (globs s) (Request rd))"
    and "3 < length requests"
    and "Inband_GetPlatformCapabilities K al requests (host # hosts) s = Some (Val caps, t)"
  shows "caps = [(host, [])]"
proof -
  let ?cmds = "map (\<lambda>rd. resolve (globs s) (Request rd)) requests"
  have good: "\<forall>r \<in> set ?cmds. good_request r" and "?cmds \<noteq> []" using assms(3,4) by auto
  note batch = Inband_Batch_good [OF this, of K al host]
  have "\<not> (\<exists>resp t. Inband_BatchExecRaw K al ?cmds host s = Some (Val resp, t))"
  proof
    assume "\<exists>resp t. Inband_BatchExecRaw K al ?cmds host s = Some (Val resp, t)"
    then obtain st outs i k where run: "batch_commands K ipmb_addr (InbandDevice al) (map input_of ?cmds)
        (replicate (length ?cmds) zero_output) 3 zero_info (env s) = Returned st outs i k" and "st = 0"
      using assms(2) batch by (auto simp: finish_call_def IPMI_BatchCommands_def
          split: c_result.splits if_splits)
    have "\<forall>inp \<in> set (map input_of ?cmds). 2 \<le> length (in_data inp)"
      using good by (auto simp: input_of_def good_request_def)
    from batch_commands_wide [OF assms(1) _ this run] \<open>st = 0\<close> assms(4) show False
      by (simp add: error_codes)
  qed
  with assms(2,5) show ?thesis
    by (auto simp: Inband_GetPlatformCapabilities_def catch_act_eq_Val act_simps bind_act_eq_Val)
qed

text \<open>
  With the protocol \<open>node_manager\<close> and more than three requests (its table has twelve)
  no capability is ever found, whatever the device answers: the batch is wider than the window
  of the driver loop, and its error is dropped.
\<close>

theorem inband_node_manager_capabilities_empty:
  assumes "kernel_pending K pending" and "InbandProtocol al = ''node_manager''"
    and "\<forall>rd \<in> set requests. good_request (resolve (globs s) (Request rd))"
    and "3 < length requests"
    and "Inband_GetPlatformCapabilities K al requests (host # hosts) s = Some (Val caps, t)"
  shows "caps = [(host, [])]"
  using assms by (rule inband_nm_caps)

lemma GenericVendor_good: "\<forall>rd \<in> set GenericVendor. good_request (resolve g (Request rd))"
  by (simp add: GenericVendor_def describe_def nm_request_def good_request_def resolve_def)

lemma nm_sample_value:
  "(case Inband_GetPlatformCapabilities sample_kernel
      \<lparr>InbandDevice = ''/dev/ipmi0'', InbandProtocol = ''node_manager''\<rparr> GenericVendor [''node'']
      inband_world of Some (Val caps, t) \<Rightarrow> True | _ \<Rightarrow> False)"
  by code_simp

lemma inband_node_manager_capabilities_empty_witness:
  "\<exists>t. Inband_GetPlatformCapabilities sample_kernel
      \<lparr>InbandDevice = ''/dev/ipmi0'', InbandProtocol = ''node_manager''\<rparr> GenericVendor [''node'']
      inband_world = Some (Val [(''node'', [])], t)"
proof -
  obtain caps t where run: "Inband_GetPlatformCapabilities sample_kernel
      \<lparr>InbandDevice = ''/dev/ipmi0'', InbandProtocol = ''node_manager''\<rparr> GenericVendor [''node'']
      inband_world = Some (Val caps, t)"
    using nm_sample_value by (auto split: option.splits go.splits)
  have "3 < length GenericVendor" by (simp add: GenericVendor_def)
  from inband_node_manager_capabilities_empty [OF sample_kernel_pending _ GenericVendor_good this run]
  have "caps = [(''node'', [])]" by simp
  with run show ?thesis by blast
qed

end
