(* ===== verification/Backends.thy ===== *)
theory Backends
  imports Fru_Area Oob Inband
begin

text \<open>
  The two parsers over the three backends. Each backend's \<open>ExecRaw\<close> keeps the contracts
  \<open>ipmi_exec\<close> and \<open>fru_backend\<close>, so that every operation of \<open>sdr.go\<close> but the scan and all of
  \<open>fru.go\<close> return on it: always for the two in-band ones, while its mutex is free for the
  out-of-band one.
\<close>

definition oob_ready :: "'w world \<Rightarrow> bool" where
  "oob_ready s \<longleftrightarrow> wf_world s \<and> \<not> oobLocked s"

lemma wf_world_fru:
  "wf_world s \<Longrightarrow> length xs = length (cmdFruData (globs s)) \<Longrightarrow>
     wf_world (s\<lparr>globs := (globs s)\<lparr>cmdFruData := xs\<rparr>\<rparr>)"
  by (simp add: wf_world_def wf_globals_def)

interpretation local_fru: fru_backend "Local_ExecRaw os al" wf_world for os :: "'w os" and al
  by unfold_locales (simp_all add: returns_Local_ExecRaw wf_world_fru)

interpretation inband_fru: fru_backend "Inband_ExecRaw K al" wf_world for K :: "'w kernel" and al
  by unfold_locales (simp_all add: returns_Inband_ExecRaw wf_world_fru)

interpretation oob_fru: fru_backend "Oob_ExecRaw os al" oob_ready for os :: "'w os" and al
  by unfold_locales
     (use returns_Oob_ExecRaw in \<open>auto simp: oob_ready_def [abs_def] wf_world_fru\<close>)

section \<open>The inventory returns\<close>

text \<open>
  C35. Reading the inventory returns on every backend, whatever the device, the kernel or the
  \<open>ipmitool\<close> program answer, the reading loop included: on the out-of-band backend as long as no
  earlier call has kept its mutex.
\<close>

theorem GetInventoryInfo_returns:
  assumes "wf_world s"
  shows "GetInventoryInfo (Local_ExecRaw os al) host s \<noteq> None
    \<and> GetInventoryInfo (Inband_ExecRaw K al') host s \<noteq> None
    \<and> (GetInventoryInfo (Oob_ExecRaw os al'') host s = None \<longleftrightarrow> oobLocked s)"
proof (intro conjI iffI)
  show "GetInventoryInfo (Local_ExecRaw os al) host s \<noteq> None"
    using returnsD [OF local_fru.returns_GetInventoryInfo assms] by fastforce
  show "GetInventoryInfo (Inband_ExecRaw K al') host s \<noteq> None"
    using returnsD [OF inband_fru.returns_GetInventoryInfo assms] by fastforce
  show "oobLocked s" if "GetInventoryInfo (Oob_ExecRaw os al'') host s = None"
  proof (rule ccontr)
    assume "\<not> oobLocked s"
    with assms have "oob_ready s" by (simp add: oob_ready_def)
    from returnsD [OF oob_fru.returns_GetInventoryInfo this, of os al'' host] that show False by auto
  qed
  show "GetInventoryInfo (Oob_ExecRaw os al'') host s = None" if "oobLocked s"
    using Oob_ExecRaw_locked [OF that] by (simp add: GetInventoryInfo_def exec_tail_def act_simps)
qed

lemma GetInventoryInfo_returns_witness:
  "GetInventoryInfo (Oob_ExecRaw sample_os sample_oob) ''bmc'' sample_world \<noteq> None"
proof -
  have "wf_world sample_world" by (simp add: wf_world_def sample_world_def wf_init_globals)
  from GetInventoryInfo_returns [OF this, of sample_os _ "''bmc''" _ _ sample_oob] show ?thesis
    by (simp add: sample_world_def)
qed

section \<open>Reading a record returns\<close>

lemma allocation_unit_pos: "allocation_unit data = Val n \<Longrightarrow> 0 < n"
  by (auto simp: allocation_unit_def bind_go_eq_Val Let_def word_gt_0 split: if_splits)

text \<open>
  C36. Reading the bytes of a record, of any length and by reads of any nonzero size, returns on
  every backend, out of band as long as no earlier call has kept its mutex, although the loop's end
  is compared with a remainder that shrinks while the offset grows. The size is never zero: the
  header is read by at most sixteen bytes, and so is the body when the device names the size zero.
\<close>

theorem GetSdrBytes_returns:
  assumes "wf_world s" and "0 < sdrMaxReadLen"
  shows "GetSdrBytes (Local_ExecRaw os al) r recordId tot sdrMaxReadLen isDeviceSdr host s \<noteq> None
    \<and> GetSdrBytes (Inband_ExecRaw K al') r recordId tot sdrMaxReadLen isDeviceSdr host s \<noteq> None
    \<and> (\<not> oobLocked s \<longrightarrow>
        GetSdrBytes (Oob_ExecRaw os al'') r recordId tot sdrMaxReadLen isDeviceSdr host s \<noteq> None)
    \<and> (\<forall>data n. allocation_unit data = Val n \<longrightarrow> 0 < n)"
proof (intro conjI impI allI)
  show "0 < n" if "allocation_unit data = Val n" for data n
    using that by (rule allocation_unit_pos)
  show "GetSdrBytes (Local_ExecRaw os al) r recordId tot sdrMaxReadLen isDeviceSdr host s \<noteq> None"
    using returnsD [OF local_fru.returns_GetSdrBytes [OF assms(2)] assms(1)] by fastforce
  show "GetSdrBytes (Inband_ExecRaw K al') r recordId tot sdrMaxReadLen isDeviceSdr host s \<noteq> None"
    using returnsD [OF inband_fru.returns_GetSdrBytes [OF assms(2)] assms(1)] by fastforce
  show "GetSdrBytes (Oob_ExecRaw os al'') r recordId tot sdrMaxReadLen isDeviceSdr host s \<noteq> None"
    if "\<not> oobLocked s"
    using returnsD [OF oob_fru.returns_GetSdrBytes [OF assms(2)], of s] assms(1) that
    by (fastforce simp: oob_ready_def)
qed

lemma GetSdrBytes_returns_witness:
  "GetSdrBytes (Oob_ExecRaw sample_os sample_oob) (Some [1, 2]) 0 300 16 False ''node'' sample_world \<noteq> None"
proof -
  have "wf_world sample_world" by (simp add: wf_world_def sample_world_def wf_init_globals)
  from GetSdrBytes_returns [OF this, of 16 sample_os _ "Some [1, 2]" 0 300 False "''node''" _ _ sample_oob]
  show ?thesis by (simp add: sample_world_def)
qed

end
