(* ===== verification/Collector.thy ===== *)
theory Collector
  imports Backends
begin

text \<open>
  \<open>intelDCMPlugin/plugin.go\<close>: the collector.

  The plugin framework is not in the repository. Of it the model has a parameter \<open>ns_api\<close> with
  \<open>core.NewNamespace\<close> and the method \<open>Strings\<close>, over any type \<open>'n\<close> of namespaces; the
  documented law that \<open>Strings\<close> gives back what the namespace was made of is \<open>ns_law\<close>. A
  configuration table maps names to values, of which only \<open>ConfigValueStr\<close> is looked into.
  \<open>MetricConfig\<close> of a metric is what \<open>Config().Table()\<close> gives for it.

  \<open>platform\<close> collects the other parameters: the operating system, the kernel's IPMI driver, the
  order in which goroutines get a mutex, and the clock. \<open>IpmiAL\<close> is the Go interface, whose
  implementers are the three backends; a nil \<open>IpmiLayer\<close> is \<open>None\<close>.
\<close>

section \<open>Names\<close>

record 'n ns_api =
  NewNamespace :: "string list \<Rightarrow> 'n"
  Strings :: "'n \<Rightarrow> string list"

definition ns_law :: "'n ns_api \<Rightarrow> bool" where
  "ns_law N \<longleftrightarrow> (\<forall>xs. Strings N (NewNamespace N xs) = xs)"

definition namespacePrefix :: "string list" where
  "namespacePrefix = [''intel'', ''dcm'']"

definition makeName :: "'n ns_api \<Rightarrow> string \<Rightarrow> 'n" where
  "makeName N metric = NewNamespace N (namespacePrefix @ Split CHR ''/'' metric)"

definition parseName :: "'n ns_api \<Rightarrow> 'n \<Rightarrow> string go" where
  "parseName N namespace =
     bind_go (slice_from (Strings N namespace) (length namespacePrefix)) (\<lambda>xs. Val (Join CHR ''/'' xs))"

definition extendPath :: "string \<Rightarrow> string \<Rightarrow> string" where
  "extendPath path ext = (if ext = [] then path else path @ ''/'' @ ext)"

fun validate_prefix :: "string list \<Rightarrow> nat \<Rightarrow> string list \<Rightarrow> unit go" where
  "validate_prefix namespace i [] = Val ()"
| "validate_prefix namespace i (e # es) =
     bind_go (idx namespace i) (\<lambda>x.
     if x \<noteq> e then Err (WrongNamespacePrefix namespace) else validate_prefix namespace (i + 1) es)"

definition validateName :: "string list \<Rightarrow> unit go" where
  "validateName namespace = validate_prefix namespace 0 namespacePrefix"

section \<open>Configuration\<close>

datatype ConfigValue = ConfigValueStr string | OtherConfigValue

type_synonym config = "(string, ConfigValue) gomap"

definition config_string :: "config \<Rightarrow> string \<Rightarrow> string \<Rightarrow> string go" where
  \<comment> \<open>the lines the seven readers share\<close>
  "config_string config key dflt =
     (case map_of config key of
        None \<Rightarrow> Val dflt
      | Some (ConfigValueStr v) \<Rightarrow> Val v
      | Some OtherConfigValue \<Rightarrow> Panic TypeAssertion)"

definition getMode :: "config \<Rightarrow> string go" where "getMode config = config_string config ''mode'' []"
definition getChannel :: "config \<Rightarrow> string go" where "getChannel config = config_string config ''channel'' ''0x00''"
definition getSlave :: "config \<Rightarrow> string go" where "getSlave config = config_string config ''slave'' ''0x00''"
definition getPass :: "config \<Rightarrow> string go" where "getPass config = config_string config ''password'' []"
definition getUser :: "config \<Rightarrow> string go" where "getUser config = config_string config ''user'' []"
definition getHost :: "config \<Rightarrow> string go" where "getHost config = config_string config ''host'' []"
definition getProtocol :: "config \<Rightarrow> string go" where
  "getProtocol config = config_string config ''protocol'' ''ipmi''"

lemmas config_readers = getMode_def getChannel_def getSlave_def getPass_def getUser_def getHost_def
  getProtocol_def

section \<open>The backend in use\<close>

record 'w platform =
  System :: "'w os"
  Driver :: "'w kernel"
  Sched :: scheduler
  Now :: "'w \<Rightarrow> int"

datatype IpmiAL =
    LocalLayer LinuxInBandIpmitool
  | OobLayer LinuxOutOfBand
  | InbandLayer LinuxInband

primrec BatchExecRaw ::
  "'w platform \<Rightarrow> IpmiAL \<Rightarrow> IpmiRequest list \<Rightarrow> string \<Rightarrow> ('w world, IpmiResponse list) act" where
  "BatchExecRaw P (LocalLayer al) = Local_BatchExecRaw (System P) al"
| "BatchExecRaw P (OobLayer al) = Oob_BatchExecRaw (System P) (Sched P) al"
| "BatchExecRaw P (InbandLayer al) = Inband_BatchExecRaw (Driver P) al"

primrec ExecRaw :: "'w platform \<Rightarrow> IpmiAL \<Rightarrow> 'w world exec" where
  "ExecRaw P (LocalLayer al) = Local_ExecRaw (System P) al"
| "ExecRaw P (OobLayer al) = Oob_ExecRaw (System P) al"
| "ExecRaw P (InbandLayer al) = Inband_ExecRaw (Driver P) al"

primrec GetPlatformCapabilities ::
  "'w platform \<Rightarrow> IpmiAL \<Rightarrow> RequestDescription list \<Rightarrow> string list
     \<Rightarrow> ('w world, (string, RequestDescription list) gomap) act" where
  "GetPlatformCapabilities P (LocalLayer al) = Local_GetPlatformCapabilities (System P) al"
| "GetPlatformCapabilities P (OobLayer al) = Oob_GetPlatformCapabilities (System P) (Sched P) al"
| "GetPlatformCapabilities P (InbandLayer al) = Inband_GetPlatformCapabilities (Driver P) al"

section \<open>The collector's state\<close>

record IpmiCollector =
  IpmiLayer :: "IpmiAL option"
  Vendor :: "(string, RequestDescription list) gomap"
  Hosts :: "string list"
  Mode :: string
  Initialized :: bool
  NSim :: int
  Inventory :: "(string, (string, string) gomap) gomap"
  ComponentHealth :: "(string, (string, string) gomap) gomap"

definition New :: IpmiCollector where
  "New = \<lparr>IpmiLayer = None, Vendor = [], Hosts = [], Mode = [], Initialized = False, NSim = 0,
     Inventory = [], ComponentHealth = []\<rparr>"

record 'w plugin =
  collector :: IpmiCollector
  world :: "'w world"

definition on_world :: "('w world, 'a) act \<Rightarrow> ('w plugin, 'a) act" where
  "on_world = zoom_act world (\<lambda>t s. s\<lparr>world := t\<rparr>)"

definition get_ic :: "('w plugin, IpmiCollector) act" where
  "get_ic = (\<lambda>s. Some (Val (collector s), s))"

definition modify_ic :: "(IpmiCollector \<Rightarrow> IpmiCollector) \<Rightarrow> ('w plugin, unit) act" where
  "modify_ic f = (\<lambda>s. Some (Val (), s\<lparr>collector := f (collector s)\<rparr>))"

definition use_layer :: "(IpmiAL \<Rightarrow> ('w plugin, 'a) act) \<Rightarrow> ('w plugin, 'a) act" where
  \<comment> \<open>a method call on \<open>ic.IpmiLayer\<close>\<close>
  "use_layer f = bind_act get_ic (\<lambda>ic.
     case IpmiLayer ic of None \<Rightarrow> lift_go (Panic NilDereference) | Some al \<Rightarrow> f al)"

section \<open>construct\<close>

definition layer_of :: "string \<Rightarrow> config \<Rightarrow> string \<Rightarrow> string \<Rightarrow> string \<Rightarrow> string \<Rightarrow> string \<Rightarrow> string
    \<Rightarrow> (IpmiAL \<times> string list) option go" where
  \<comment> \<open>the backend and the hosts of a mode, \<open>None\<close> for an unknown mode\<close>
  "layer_of mode cfg host channel slave user pass protocol =
     (if mode = ''legacy_inband'' then
        Val (Some (LocalLayer \<lparr>LocalDevice = ''ipmitool'', LocalChannel = channel,
          LocalSlave = slave, LocalProtocol = protocol\<rparr>, [host]))
      else if mode = ''oob'' then
        bind_go (getHost cfg) (\<lambda>addr.
        Val (Some (OobLayer \<lparr>OobDevice = ''ipmitool'', OobChannel = channel, OobSlave = slave,
          User = user, Pass = pass, OobProtocol = protocol\<rparr>, [addr])))
      else if mode = ''legacy_inband_openipmi'' then
        Val (Some (InbandLayer \<lparr>InbandDevice = ''/dev/ipmi0'', InbandProtocol = protocol\<rparr>, [host]))
      else Val None)"

definition fresh_mutex :: "('w world, unit) act" where
  \<comment> \<open>a new backend has a mutex of its own, which is free\<close>
  "fresh_mutex = (\<lambda>s. Some (Val (), s\<lparr>oobLocked := False\<rparr>))"

definition error_map :: "go_error + (string, string) gomap \<Rightarrow> (string, string) gomap" where
  \<comment> \<open>\<open>m, _ := f()\<close>, where \<open>f\<close> returns a nil map with its errors\<close>
  "error_map r = (case r of Inl e \<Rightarrow> [] | Inr ret \<Rightarrow> ret)"

fun inventory_loop :: "'w world exec \<Rightarrow> string list \<Rightarrow> ('w plugin, unit) act" where
  "inventory_loop exec [] = return_act ()"
| "inventory_loop exec (host # hosts) =
     bind_act (on_world (catch_act (GetInventoryInfo exec host))) (\<lambda>inventory.
     bind_act (modify_ic (\<lambda>ic. ic\<lparr>Inventory := AList.update host (error_map inventory) (Inventory ic)\<rparr>))
       (\<lambda>_. inventory_loop exec hosts))"

text \<open>The lines of \<open>construct\<close> behind the choice of the backend.\<close>

definition install ::
  "'w platform \<Rightarrow> string \<Rightarrow> IpmiAL \<Rightarrow> string list \<Rightarrow> ('w plugin, unit) act" where
  "install P protocol ipmiLayer hostList =
     bind_act (modify_ic (\<lambda>ic. ic\<lparr>IpmiLayer := Some ipmiLayer, Hosts := hostList\<rparr>)) (\<lambda>_.
     bind_act (on_world fresh_mutex) (\<lambda>_.
     bind_act (on_world (GetPlatformCapabilities P ipmiLayer
         (if protocol = ''node_manager'' then GenericVendor else DCMIVendor) hostList)) (\<lambda>vendor.
     bind_act (modify_ic (\<lambda>ic. ic\<lparr>Vendor := vendor, Inventory := []\<rparr>)) (\<lambda>_.
     bind_act (inventory_loop (ExecRaw P ipmiLayer) hostList) (\<lambda>_.
     modify_ic (\<lambda>ic. ic\<lparr>Initialized := True\<rparr>))))))"

definition construct :: "'w platform \<Rightarrow> config \<Rightarrow> ('w plugin, unit) act" where
  "construct P cfg =
     bind_act (lift_go (getMode cfg)) (\<lambda>mode.
     bind_act (modify_ic (\<lambda>ic. ic\<lparr>Mode := mode\<rparr>)) (\<lambda>_.
     bind_act (lift_go (getChannel cfg)) (\<lambda>channel.
     bind_act (lift_go (getSlave cfg)) (\<lambda>slave.
     bind_act (lift_go (getUser cfg)) (\<lambda>user.
     bind_act (lift_go (getPass cfg)) (\<lambda>pass.
     bind_act (lift_go (getProtocol cfg)) (\<lambda>protocol.
     bind_act (lift_go (layer_of mode cfg (Hostname (System P)) channel slave user pass protocol)) (\<lambda>layer.
     case layer of
       None \<Rightarrow> return_act ()
     | Some (ipmiLayer, hostList) \<Rightarrow> install P protocol ipmiLayer hostList))))))))"

section \<open>Metrics\<close>

datatype metric_data = NoData | StringData string | Uint16Data uint16

record 'n MetricType =
  MetricNamespace :: 'n
  Tags :: "(string, string) gomap"
  Timestamp :: int
  MetricData :: metric_data
  MetricConfig :: config

definition new_metric :: "'n \<Rightarrow> string \<Rightarrow> int \<Rightarrow> metric_data \<Rightarrow> 'n MetricType" where
  \<comment> \<open>a \<open>plugin.MetricType\<close> literal with the tag \<open>source\<close>\<close>
  "new_metric ns host t data =
     \<lparr>MetricNamespace = ns, Tags = [(''source'', host)], Timestamp = t, MetricData = data, MetricConfig = []\<rparr>"

definition advertise :: "'n ns_api \<Rightarrow> string \<Rightarrow> string \<Rightarrow> 'n MetricType" where
  "advertise N host path = new_metric (makeName N path) host 0 NoData"

definition advertised_metrics :: "'n ns_api \<Rightarrow> IpmiCollector \<Rightarrow> 'n MetricType list" where
  "advertised_metrics N ic =
     concat (map (\<lambda>host. concat (map (\<lambda>req.
         map (\<lambda>metric. advertise N host (extendPath (MetricsRoot req) metric)) (GetMetrics (Format req)))
       (lookup_or [] (Vendor ic) host))) (Hosts ic))
     @ concat (map (\<lambda>host. map (advertise N host) InventoryMetrics) (Hosts ic))
     @ concat (map (\<lambda>host. map (advertise N host) HealthMetrics) (Hosts ic))"

text \<open>
  The log call in front reads \<open>config["mode"]\<close> with a type assertion, which panics when the key
  is missing. The metrics that come with the error are none.
\<close>

definition GetMetricTypes ::
  "'n ns_api \<Rightarrow> 'w platform \<Rightarrow> config \<Rightarrow> ('w plugin, 'n MetricType list) act" where
  "GetMetricTypes N P cfg =
     bind_act (lift_go (case map_of cfg ''mode'' of
         Some (ConfigValueStr v) \<Rightarrow> Val v | _ \<Rightarrow> Panic TypeAssertion)) (\<lambda>_.
     bind_act (construct P cfg) (\<lambda>_.
     bind_act get_ic (\<lambda>ic.
     if IpmiLayer ic = None then
       bind_act (modify_ic (\<lambda>ic. ic\<lparr>Initialized := False\<rparr>)) (\<lambda>_. fail_act WrongModeConfiguration)
     else
       bind_act (modify_ic (\<lambda>ic. ic\<lparr>Initialized := True\<rparr>)) (\<lambda>_.
       return_act (advertised_metrics N ic)))))"

section \<open>Collecting\<close>

fun batch_loop_hosts ::
  "(IpmiRequest list \<Rightarrow> string \<Rightarrow> ('w world, IpmiResponse list) act)
     \<Rightarrow> (string, RequestDescription list) gomap \<Rightarrow> string list
     \<Rightarrow> (string, IpmiResponse list) gomap \<Rightarrow> ('w world, (string, IpmiResponse list) gomap) act" where
  "batch_loop_hosts batch vendor [] response = return_act response"
| "batch_loop_hosts batch vendor (host # hosts) response =
     bind_act get_globs (\<lambda>g.
     bind_act (catch_act (batch (map (\<lambda>rd. resolve g (Request rd)) (lookup_or [] vendor host)) host)) (\<lambda>r.
     batch_loop_hosts batch vendor hosts
       (AList.update host (case r of Inl e \<Rightarrow> [] | Inr resp \<Rightarrow> resp) response)))"

definition cache_metrics ::
  "string \<Rightarrow> (string, uint16) gomap \<Rightarrow> (string, uint16) gomap \<Rightarrow> (string, uint16) gomap" where
  "cache_metrics root submetrics cached =
     fold (\<lambda>(k, v). AList.update (extendPath root k) v) submetrics cached"

fun cache_responses ::
  "RequestDescription list \<Rightarrow> IpmiResponse list \<Rightarrow> (string, uint16) gomap
     \<Rightarrow> (string, uint16) gomap go" where
  "cache_responses descs [] cached = Val cached"
| "cache_responses [] (resp # resps) cached = Panic IndexOutOfRange"
| "cache_responses (desc # descs) (resp # resps) cached =
     bind_go (Validate resp) (\<lambda>_.
     bind_go (Parse (Format desc) resp) (\<lambda>submetrics.
     cache_responses descs resps (cache_metrics (MetricsRoot desc) submetrics cached)))"

text \<open>
  The loop over the map of responses, in the order of the hosts. Go fixes none, but a collector
  has one host (\<open>wf_collector\<close>).
\<close>

fun cache_hosts ::
  "(string, RequestDescription list) gomap \<Rightarrow> (string, IpmiResponse list) gomap
     \<Rightarrow> (string, (string, uint16) gomap) gomap \<Rightarrow> (string, (string, uint16) gomap) gomap go" where
  "cache_hosts vendor [] cache = Val cache"
| "cache_hosts vendor ((host, resps) # response) cache =
     bind_go (cache_responses (lookup_or [] vendor host) resps []) (\<lambda>cached.
     cache_hosts vendor response (if resps = [] then cache else AList.update host cached cache))"

fun health_loop :: "'w world exec \<Rightarrow> string list \<Rightarrow> ('w plugin, unit) act" where
  "health_loop exec [] = return_act ()"
| "health_loop exec (host # hosts) =
     bind_act (on_world (catch_act (GetComponentHealth exec host))) (\<lambda>health.
     bind_act (modify_ic (\<lambda>ic. ic\<lparr>ComponentHealth := AList.update host (error_map health) (ComponentHealth ic)\<rparr>))
       (\<lambda>_. health_loop exec hosts))"

definition metric_value ::
  "'w platform \<Rightarrow> (string, (string, uint16) gomap) gomap \<Rightarrow> string \<Rightarrow> string \<Rightarrow> ('w plugin, metric_data) act" where
  \<comment> \<open>the \<open>data\<close> of one metric, by its key\<close>
  "metric_value P responseCache host key =
     (if Contains key ''inventory/'' then
        bind_act get_ic (\<lambda>ic. return_act (StringData (lookup_or [] (lookup_or [] (Inventory ic) host) key)))
      else if Contains key ''health/'' then
        use_layer (\<lambda>al.
        bind_act (modify_ic (\<lambda>ic. ic\<lparr>ComponentHealth := []\<rparr>)) (\<lambda>_.
        bind_act get_ic (\<lambda>ic.
        bind_act (health_loop (ExecRaw P al) (Hosts ic)) (\<lambda>_.
        bind_act get_ic (\<lambda>ic. return_act (StringData (lookup_or [] (lookup_or [] (ComponentHealth ic) host) key)))))))
      else return_act (Uint16Data (lookup_or 0 (lookup_or [] responseCache host) key)))"

definition collect_metric ::
  "'n ns_api \<Rightarrow> 'w platform \<Rightarrow> (string, (string, uint16) gomap) gomap \<Rightarrow> int \<Rightarrow> string \<Rightarrow> 'n MetricType
     \<Rightarrow> ('w plugin, 'n MetricType) act" where
  "collect_metric N P responseCache t host mt =
     bind_act (lift_go (parseName N (MetricNamespace mt))) (\<lambda>key.
     bind_act (metric_value P responseCache host key) (\<lambda>data.
     return_act (new_metric (MetricNamespace mt) host t data)))"

definition CollectMetrics ::
  "'n ns_api \<Rightarrow> 'w platform \<Rightarrow> 'n MetricType list \<Rightarrow> ('w plugin, 'n MetricType list) act" where
  "CollectMetrics N P mts =
     bind_act get_ic (\<lambda>ic.
     bind_act (if \<not> Initialized ic
               then bind_act (lift_go (idx mts 0)) (\<lambda>mt. construct P (MetricConfig mt))
               else return_act ()) (\<lambda>_.
     bind_act get_ic (\<lambda>ic.
     bind_act (if Hosts ic = [] then return_act []
               else use_layer (\<lambda>al. on_world (batch_loop_hosts (BatchExecRaw P al) (Vendor ic) (Hosts ic) [])))
       (\<lambda>response.
     bind_act (lift_go (cache_hosts (Vendor ic) response [])) (\<lambda>responseCache.
     bind_act (\<lambda>s. Some (Val (Now P (env (world s))), s)) (\<lambda>t.
     bind_act (map_act (\<lambda>host. map_act (collect_metric N P responseCache t host) mts) (Hosts ic)) (\<lambda>metrics.
     return_act (concat metrics))))))))"

end
