(* ===== verification/Collector_State.thy ===== *)
theory Collector_State
  imports Collector
begin

text \<open>
  The collector as a state: what running its steps means (\<open>plugin_simps\<close>), the round trip of
  metric names, the reactions to configurations, and the rules by which actions keep a predicate
  (\<open>preserves\<close>).
\<close>

named_theorems plugin_simps \<open>equations that run the collector's own steps\<close>

lemma get_ic_apply [plugin_simps]: "get_ic s = Some (Val (collector s), s)"
  by (simp add: get_ic_def)

lemma modify_ic_apply [plugin_simps]: "modify_ic f s = Some (Val (), s\<lparr>collector := f (collector s)\<rparr>)"
  by (simp add: modify_ic_def)

lemma on_world_Some [plugin_simps]:
  "m (world s) = Some (r, w) \<Longrightarrow> on_world m s = Some (r, s\<lparr>world := w\<rparr>)"
  by (simp add: on_world_def zoom_act_def)

lemma on_world_None [plugin_simps]: "m (world s) = None \<Longrightarrow> on_world m s = None"
  by (simp add: on_world_def zoom_act_def)

lemma on_world_eq_Some:
  "on_world m s = Some (r, t) \<longleftrightarrow> (\<exists>w. m (world s) = Some (r, w) \<and> t = s\<lparr>world := w\<rparr>)"
  by (simp add: on_world_def zoom_act_eq_Some)

section \<open>Names\<close>

lemma parse_makeName: "ns_law N \<Longrightarrow> parseName N (makeName N metric) = Val metric"
  by (simp add: parseName_def makeName_def ns_law_def Join_Split namespacePrefix_def)

lemma validateName_iff:
  "validateName ns = Val () \<longleftrightarrow> prefix namespacePrefix ns"
proof -
  consider "ns = []" | x where "ns = [x]" | x y zs where "ns = x # y # zs"
    by (metis neq_Nil_conv)
  then show ?thesis
    by cases (auto simp: validateName_def namespacePrefix_def)
qed

text \<open>
  A metric's name survives the trip into a namespace and back, its namespace passes
  \<open>validateName\<close>, and only namespaces below \<open>/intel/dcm\<close> do.
\<close>

theorem metric_name_round_trip:
  assumes "ns_law N"
  shows "parseName N (makeName N metric) = Val metric
    \<and> validateName (Strings N (makeName N metric)) = Val ()
    \<and> (validateName ns = Val () \<longleftrightarrow> prefix [''intel'', ''dcm''] ns)"
proof -
  have "prefix namespacePrefix (Strings N (makeName N metric))"
    using assms by (simp add: makeName_def ns_law_def)
  then show ?thesis
    by (simp add: parse_makeName [OF assms] validateName_iff) (simp add: namespacePrefix_def)
qed

definition list_ns :: "string list ns_api" where
  \<comment> \<open>namespaces that are their own list of strings\<close>
  "list_ns = \<lparr>NewNamespace = id, Strings = id\<rparr>"

lemma list_ns_law: "ns_law list_ns"
  by (simp add: ns_law_def list_ns_def)

section \<open>Configurations\<close>

definition all_strings :: "config \<Rightarrow> bool" where
  \<comment> \<open>every value of the table is a string, as the configuration policy asks\<close>
  "all_strings cfg \<longleftrightarrow> (\<forall>(k, v) \<in> set cfg. v \<noteq> OtherConfigValue)"

lemma config_string_Val:
  assumes "all_strings cfg"
  obtains v where "config_string cfg key dflt = Val v"
proof (cases "map_of cfg key")
  case None
  with that show ?thesis by (simp add: config_string_def)
next
  case (Some x)
  then have "(key, x) \<in> set cfg" by (rule map_of_SomeD)
  with assms have "x \<noteq> OtherConfigValue" by (auto simp: all_strings_def)
  with Some that show ?thesis by (cases x) (simp_all add: config_string_def)
qed

lemma getMode_present: "map_of cfg ''mode'' = Some (ConfigValueStr mode) \<Longrightarrow> getMode cfg = Val mode"
  by (simp add: getMode_def config_string_def)

definition layer_config ::
  "'w platform \<Rightarrow> config \<Rightarrow> string \<Rightarrow> (IpmiAL \<times> string list) option go" where
  "layer_config P cfg mode =
     bind_go (getChannel cfg) (\<lambda>channel. bind_go (getSlave cfg) (\<lambda>slave. bind_go (getUser cfg) (\<lambda>user.
     bind_go (getPass cfg) (\<lambda>pass. bind_go (getProtocol cfg) (\<lambda>protocol.
       layer_of mode cfg (Hostname (System P)) channel slave user pass protocol)))))"

definition install_case ::
  "'w platform \<Rightarrow> string \<Rightarrow> (IpmiAL \<times> string list) option \<Rightarrow> ('w plugin, unit) act" where
  "install_case P protocol layer =
     (case layer of None \<Rightarrow> return_act ()
      | Some (ipmiLayer, hostList) \<Rightarrow> install P protocol ipmiLayer hostList)"

lemma construct_run:
  assumes "getMode cfg = Val mode" and "getProtocol cfg = Val protocol" and "all_strings cfg"
  obtains layer where "layer_config P cfg mode = Val layer"
    and "\<And>s. construct P cfg s = install_case P protocol layer (s\<lparr>collector := (collector s)\<lparr>Mode := mode\<rparr>\<rparr>)"
proof -
  note strings = config_string_Val [OF assms(3)]
  obtain channel slave user pass addr where vals: "getChannel cfg = Val channel" "getSlave cfg = Val slave"
    "getUser cfg = Val user" "getPass cfg = Val pass" "getHost cfg = Val addr"
    unfolding config_readers
    using strings [of "''channel''" "''0x00''"] strings [of "''slave''" "''0x00''"]
      strings [of "''user''" "[]"] strings [of "''password''" "[]"] strings [of "''host''" "[]"] by metis
  obtain layer where layer: "layer_of mode cfg (Hostname (System P)) channel slave user pass protocol = Val layer"
    by (cases "layer_of mode cfg (Hostname (System P)) channel slave user pass protocol")
       (auto simp: layer_of_def vals split: if_splits)
  show ?thesis
  proof (rule that)
    show "layer_config P cfg mode = Val layer"
      by (simp add: layer_config_def vals assms(2) layer)
    show "construct P cfg s = install_case P protocol layer (s\<lparr>collector := (collector s)\<lparr>Mode := mode\<rparr>\<rparr>)" for s
      by (simp add: construct_def install_case_def assms(1,2) vals layer act_simps plugin_simps
          split: option.splits)
  qed
qed

lemma layer_config_local:
  assumes "layer_config P cfg ''legacy_inband'' = Val layer" and "getProtocol cfg = Val protocol"
  obtains channel slave where "layer = Some (LocalLayer \<lparr>LocalDevice = ''ipmitool'', LocalChannel = channel,
    LocalSlave = slave, LocalProtocol = protocol\<rparr>, [Hostname (System P)])"
  using assms that by (auto simp: layer_config_def layer_of_def bind_go_eq_Val)

lemma layer_config_oob:
  assumes "layer_config P cfg ''oob'' = Val layer" and "getProtocol cfg = Val protocol"
  obtains channel slave user pass addr where "layer = Some (OobLayer \<lparr>OobDevice = ''ipmitool'',
    OobChannel = channel, OobSlave = slave, User = user, Pass = pass, OobProtocol = protocol\<rparr>, [addr])"
  using assms that by (auto simp: layer_config_def layer_of_def bind_go_eq_Val)

lemma layer_config_openipmi:
  assumes "layer_config P cfg ''legacy_inband_openipmi'' = Val layer" and "getProtocol cfg = Val protocol"
  shows "layer = Some (InbandLayer \<lparr>InbandDevice = ''/dev/ipmi0'', InbandProtocol = protocol\<rparr>,
    [Hostname (System P)])"
  using assms by (auto simp: layer_config_def layer_of_def bind_go_eq_Val)

lemma layer_config_unknown:
  assumes "layer_config P cfg mode = Val layer"
    and "mode \<notin> {''legacy_inband'', ''oob'', ''legacy_inband_openipmi''}"
  shows "layer = None"
  using assms by (auto simp: layer_config_def layer_of_def bind_go_eq_Val)

text \<open>
  C17. Configurations without a usable mode. When \<open>mode\<close> is missing or is no string,
  \<open>GetMetricTypes\<close> panics and changes nothing. With an unknown mode it fails on a collector
  without a backend, as it should; on one that has a backend it advertises the metrics of that
  old backend without an error, while \<open>Mode\<close> is the unknown one.
\<close>

theorem GetMetricTypes_without_mode:
  assumes "all_strings cfg"
  shows "(map_of cfg ''mode'' = None \<longrightarrow> GetMetricTypes N P cfg s = Some (Panic TypeAssertion, s)) \<and>
    (\<forall>mode. map_of cfg ''mode'' = Some (ConfigValueStr mode)
        \<and> mode \<notin> {''legacy_inband'', ''oob'', ''legacy_inband_openipmi''} \<longrightarrow>
      GetMetricTypes N P cfg s =
        (if IpmiLayer (collector s) = None
         then Some (Err WrongModeConfiguration,
           s\<lparr>collector := (collector s)\<lparr>Mode := mode, Initialized := False\<rparr>\<rparr>)
         else Some (Val (advertised_metrics N (collector s)),
           s\<lparr>collector := (collector s)\<lparr>Mode := mode, Initialized := True\<rparr>\<rparr>)))"
proof (intro conjI impI allI)
  assume "map_of cfg ''mode'' = None"
  then show "GetMetricTypes N P cfg s = Some (Panic TypeAssertion, s)"
    by (simp add: GetMetricTypes_def act_simps)
next
  fix mode
  assume m: "map_of cfg ''mode'' = Some (ConfigValueStr mode)
    \<and> mode \<notin> {''legacy_inband'', ''oob'', ''legacy_inband_openipmi''}"
  obtain protocol where "getProtocol cfg = Val protocol"
    unfolding getProtocol_def by (rule config_string_Val [OF assms])
  from construct_run [OF getMode_present [OF m [THEN conjunct1]] this assms, of P]
  obtain layer where "layer_config P cfg mode = Val layer"
    and c: "\<And>s. construct P cfg s = install_case P protocol layer (s\<lparr>collector := (collector s)\<lparr>Mode := mode\<rparr>\<rparr>)"
    by metis
  with m have "layer = None" by (blast dest: layer_config_unknown)
  then have "construct P cfg s = Some (Val (), s\<lparr>collector := (collector s)\<lparr>Mode := mode\<rparr>\<rparr>)"
    by (simp add: c install_case_def act_simps)
  then show "GetMetricTypes N P cfg s =
        (if IpmiLayer (collector s) = None
         then Some (Err WrongModeConfiguration,
           s\<lparr>collector := (collector s)\<lparr>Mode := mode, Initialized := False\<rparr>\<rparr>)
         else Some (Val (advertised_metrics N (collector s)),
           s\<lparr>collector := (collector s)\<lparr>Mode := mode, Initialized := True\<rparr>\<rparr>))"
    using m by (simp add: GetMetricTypes_def act_simps plugin_simps advertised_metrics_def)
qed

definition sample_platform :: "unit platform" where
  "sample_platform = \<lparr>System = sample_os, Driver = undefined, Sched = (\<lambda>n. [0 ..< n]), Now = (\<lambda>_. 0)\<rparr>"

definition sample_plugin :: "unit plugin" where
  "sample_plugin = \<lparr>collector = New, world = sample_world\<rparr>"

lemma GetMetricTypes_without_mode_witness:
  "GetMetricTypes list_ns sample_platform [(''mode'', ConfigValueStr ''other'')] sample_plugin
     = Some (Err WrongModeConfiguration, sample_plugin\<lparr>collector := New\<lparr>Mode := ''other''\<rparr>\<rparr>)"
proof -
  let ?cfg = "[(''mode'', ConfigValueStr ''other'')]"
  have "all_strings ?cfg" by (simp add: all_strings_def)
  note this [THEN GetMetricTypes_without_mode, of list_ns sample_platform sample_plugin,
      THEN conjunct2, THEN spec, of "''other''"]
  then show ?thesis by (simp add: sample_plugin_def New_def)
qed

section \<open>The invariant of the collector\<close>

text \<open>
  \<open>preserves J m\<close>: the action keeps \<open>J\<close> whenever it returns, with a value, an error or a panic.
\<close>

definition preserves :: "('s \<Rightarrow> bool) \<Rightarrow> ('s, 'a) act \<Rightarrow> bool" where
  "preserves J m \<longleftrightarrow> (\<forall>s r t. J s \<and> m s = Some (r, t) \<longrightarrow> J t)"

lemma preservesD: "preserves J m \<Longrightarrow> J s \<Longrightarrow> m s = Some (r, t) \<Longrightarrow> J t"
  unfolding preserves_def by blast

named_theorems preserves_intros \<open>rules that an action keeps a predicate\<close>

lemma preserves_lift [preserves_intros]: "preserves J (lift_go r)"
  by (simp add: preserves_def act_simps)

lemma preserves_return [preserves_intros]: "preserves J (return_act x)"
  by (simp add: preserves_def act_simps)

lemma preserves_fail [preserves_intros]: "preserves J (fail_act e)"
  by (simp add: preserves_def act_simps)

lemma preserves_get_ic [preserves_intros]: "preserves J get_ic"
  by (simp add: preserves_def plugin_simps)

lemma preserves_bind [preserves_intros]:
  "preserves J m \<Longrightarrow> (\<And>x. preserves J (f x)) \<Longrightarrow> preserves J (bind_act m f)"
  unfolding preserves_def bind_act_eq_Some by blast

lemma preserves_map_act [preserves_intros]: "(\<And>x. preserves J (f x)) \<Longrightarrow> preserves J (map_act f xs)"
  by (induction xs) (auto intro!: preserves_intros)

lemma preserves_If [preserves_intros]: "preserves J m \<Longrightarrow> preserves J n \<Longrightarrow> preserves J (if b then m else n)"
  by simp

lemma preserves_on_world:
  "(\<And>s w. J s \<Longrightarrow> J (s\<lparr>world := w\<rparr>)) \<Longrightarrow> preserves J (on_world m)"
  by (auto simp: preserves_def on_world_eq_Some)

lemma preserves_modify_ic:
  "(\<And>s. J s \<Longrightarrow> J (s\<lparr>collector := f (collector s)\<rparr>)) \<Longrightarrow> preserves J (modify_ic f)"
  by (simp add: preserves_def plugin_simps)

lemma preserves_use_layer [preserves_intros]: "(\<And>al. preserves J (f al)) \<Longrightarrow> preserves J (use_layer f)"
  unfolding use_layer_def
  by (intro preserves_bind preserves_get_ic) (auto intro: preserves_lift split: option.splits)

text \<open>
  A collector serves at most one host, has a backend exactly when it has a host, and is
  initialized only with a backend.
\<close>

definition wf_collector :: "IpmiCollector \<Rightarrow> bool" where
  "wf_collector ic \<longleftrightarrow> length (Hosts ic) \<le> 1 \<and> (Hosts ic = [] \<longleftrightarrow> IpmiLayer ic = None)
     \<and> (Initialized ic \<longrightarrow> IpmiLayer ic \<noteq> None)"

lemma layer_of_one_host:
  "layer_of mode cfg host channel slave user pass protocol = Val (Some (al, hosts)) \<Longrightarrow> length hosts = 1"
  by (auto simp: layer_of_def bind_go_eq_Val split: if_splits)

lemma inventory_loop_keeps:
  assumes "\<And>ic m. Q ic \<Longrightarrow> Q (ic\<lparr>Inventory := m\<rparr>)"
  shows "preserves (\<lambda>s. Q (collector s)) (inventory_loop exec hosts)"
  by (induction hosts)
     (auto intro!: preserves_intros preserves_on_world preserves_modify_ic assms)

lemma health_loop_keeps:
  assumes "\<And>ic m. Q ic \<Longrightarrow> Q (ic\<lparr>ComponentHealth := m\<rparr>)"
  shows "preserves (\<lambda>s. Q (collector s)) (health_loop exec hosts)"
  by (induction hosts)
     (auto intro!: preserves_intros preserves_on_world preserves_modify_ic assms)

lemma preserves_bind_lift:
  "(\<And>x. r = Val x \<Longrightarrow> preserves J (f x)) \<Longrightarrow> preserves J (bind_act (lift_go r) f)"
  by (cases r) (auto simp: act_simps preserves_lift)

lemma preserves_after_modify:
  assumes "\<And>s. J s \<Longrightarrow> J' (s\<lparr>collector := f (collector s)\<rparr>)" and "\<And>s. J' s \<Longrightarrow> J s"
    and "preserves J' (g ())"
  shows "preserves J (bind_act (modify_ic f) g)"
  using assms unfolding preserves_def by (simp add: act_simps plugin_simps) blast

lemma preserves_case_layer:
  "preserves J m \<Longrightarrow> (\<And>al hosts. r = Some (al, hosts) \<Longrightarrow> preserves J (f al hosts)) \<Longrightarrow>
     preserves J (case r of None \<Rightarrow> m | Some (al, hosts) \<Rightarrow> f al hosts)"
  by (auto split: option.splits)

end
