(* ===== verification/Collector_Layers.thy ===== *)
theory Collector_Layers
  imports Collector_State
begin

text \<open>
  The collector over its backends. The locale \<open>ipmi_layer\<close> is the contract of \<open>IpmiAL\<close>: all three
  operations return. It holds of both in-band backends, and of the out-of-band one unless its
  protocol is \<open>dcmi\<close>; from it follow the loops of the collector and \<open>construct\<close>.
\<close>

section \<open>The contract of a backend\<close>

lemma returns_on_world:
  "returns I m \<Longrightarrow> returns (\<lambda>s. I (world s)) (on_world m)"
  unfolding returns_def by (auto simp: on_world_eq_Some)

lemma returns_modify_ic: "returns (\<lambda>s. I (world s)) (modify_ic f)"
  by (simp add: returns_def plugin_simps)

context fru_backend
begin

lemma returns_inventory_loop: "returns (\<lambda>s. I (world s)) (inventory_loop exec hosts)"
  by (induction hosts)
     (auto intro!: returns_return returns_bind returns_on_world returns_catch returns_GetInventoryInfo
       returns_modify_ic)

end

locale ipmi_layer = fru_backend exec I for exec :: "'w world exec" and I +
  fixes batch :: "IpmiRequest list \<Rightarrow> string \<Rightarrow> ('w world, IpmiResponse list) act"
    and caps :: "RequestDescription list \<Rightarrow> string list
      \<Rightarrow> ('w world, (string, RequestDescription list) gomap) act"
  assumes batch_returns: "returns I (batch requests host)"
    and caps_returns: "returns I (caps rds hosts)"
begin

lemma returns_batch_loop: "returns I (batch_loop_hosts batch vendor hosts response)"
  by (induction hosts arbitrary: response)
     (auto intro!: act_intros batch_returns)

end

lemma run_releasing:
  assumes "\<And>i. i \<in> set order \<Longrightarrow> style i \<noteq> DoneThenLock"
  shows "run_goroutines style body order False st = Some (fold body order st, False)"
  using assms
  by (auto simp: run_goroutines_def pool_outcome_def list_ex_iff dest: in_set_butlastD)

lemma caps_body_wf: "wf_world (snd st) \<Longrightarrow> wf_world (snd (caps_body os al addr requests i st))"
proof (cases st)
  case (Pair valid s)
  assume wf: "wf_world (snd st)"
  have "returns wf_world (thermal_probe (\<lambda>req. on_env (ExecIpmiToolRemote os req al addr False)))"
    by (intro returns_thermal_probe returns_on_env) simp
  moreover have "wf_world s" using wf Pair by simp
  ultimately obtain r t where
    "thermal_probe (\<lambda>req. on_env (ExecIpmiToolRemote os req al addr False)) s = Some (r, t)" "wf_world t"
    by (blast dest: returnsD)
  then show ?thesis
    using wf Pair by (auto simp: caps_body_def Let_def split: prod.splits go.splits option.splits)
qed

lemma fold_caps_body_wf:
  "wf_world (snd st) \<Longrightarrow> wf_world (snd (fold (caps_body os al addr requests) order st))"
  by (induction order arbitrary: st) (simp_all add: caps_body_wf)

lemma returns_oob_caps:
  assumes "fair_scheduler sched" and "OobProtocol al \<noteq> ''dcmi''"
  shows "returns oob_ready (oob_caps os sched al requests hosts validRequests)"
proof (induction hosts arbitrary: validRequests)
  case Nil
  then show ?case by (simp add: returns_return)
next
  case (Cons addr hosts)
  have count: "caps_count al requests = length requests" using assms(2) by (simp add: caps_count_def)
  have "schedule (length requests) (sched (length requests))"
    using assms(1) by (simp add: fair_scheduler_def)
  then have style: "caps_style (length requests) i \<noteq> DoneThenLock"
    if "i \<in> set (sched (length requests))" for i
    using that by (auto simp: schedule_def caps_style_def)
  show ?case
    unfolding returns_def
  proof (intro allI impI)
    fix s :: "'a world"
    assume ready: "oob_ready s"
    let ?st = "fold (caps_body os al addr requests) (sched (length requests)) ([], s)"
    have run: "run_goroutines (caps_style (length requests)) (caps_body os al addr requests)
        (sched (caps_count al requests)) (oobLocked s) ([], s) = Some (?st, False)"
      using run_releasing [of "sched (length requests)", OF style] ready
      by (simp add: count oob_ready_def)
    obtain valid t where st: "?st = (valid, t)" by (cases ?st)
    have "wf_world (snd ?st)" by (rule fold_caps_body_wf) (use ready in \<open>simp add: oob_ready_def\<close>)
    then have "oob_ready (t\<lparr>oobLocked := False\<rparr>)" by (simp add: st oob_ready_def wf_world_def)
    from returnsD [OF Cons.IH this, of "AList.update addr valid validRequests"]
    show "\<exists>r s'. oob_caps os sched al requests (addr # hosts) validRequests s = Some (r, s') \<and> oob_ready s'"
      by (simp add: run [unfolded st])
  qed
qed

definition layer_ready :: "'w platform \<Rightarrow> IpmiAL \<Rightarrow> 'w world \<Rightarrow> bool" where
  \<comment> \<open>when the operations of a backend return\<close>
  "layer_ready P al s \<longleftrightarrow> wf_world s \<and>
     (case al of OobLayer oob \<Rightarrow> \<not> oobLocked s \<and> fair_scheduler (Sched P) \<and> OobProtocol oob \<noteq> ''dcmi''
      | _ \<Rightarrow> True)"

lemma layer_ready_simps [simp]:
  "layer_ready P (LocalLayer local) = wf_world"
  "layer_ready P (InbandLayer inb) = wf_world"
  "layer_ready P (OobLayer oob) =
     (\<lambda>s. oob_ready s \<and> fair_scheduler (Sched P) \<and> OobProtocol oob \<noteq> ''dcmi'')"
  by (auto simp: layer_ready_def oob_ready_def fun_eq_iff)

lemma returns_side: "(c \<Longrightarrow> returns I m) \<Longrightarrow> returns (\<lambda>s. I s \<and> c) m"
  unfolding returns_def by blast

lemma returns_Oob_Batch: "returns oob_ready (Oob_BatchExecRaw os sched al requests host)"
  unfolding returns_def
proof (intro allI impI)
  fix s :: "'a world"
  assume "oob_ready s"
  then have "wf_world s" "\<not> oobLocked s" by (simp_all add: oob_ready_def)
  from Oob_Batch_Val [OF this(2), of os sched al requests host] obtain resp t where
    "Oob_BatchExecRaw os sched al requests host s = Some (Val resp, t)" "globs t = globs s" "\<not> oobLocked t"
    by blast
  with \<open>wf_world s\<close> show "\<exists>r s'. Oob_BatchExecRaw os sched al requests host s = Some (r, s') \<and> oob_ready s'"
    by (auto simp: oob_ready_def wf_world_def)
qed

lemma layer_exec: "returns (layer_ready P al) (ExecRaw P al cmd host)"
  by (cases al) (auto intro!: returns_Local_ExecRaw returns_Inband_ExecRaw returns_side
      oob_fru.exec_returns simp: conj_assoc)

interpretation any_layer: ipmi_layer "ExecRaw P al" "layer_ready P al" "BatchExecRaw P al"
  "GetPlatformCapabilities P al" for P :: "'w platform" and al
proof unfold_locales
  show "returns (layer_ready P al) (ExecRaw P al cmd host)" for cmd host
    by (rule layer_exec)
  show "layer_ready P al (s\<lparr>globs := (globs s)\<lparr>cmdFruData := xs\<rparr>\<rparr>)"
    if "layer_ready P al s" and "length xs = length (cmdFruData (globs s))" for s xs
    using that by (cases al) (auto simp: wf_world_fru oob_fru.fru_data_free)
  show "returns (layer_ready P al) (BatchExecRaw P al requests host)" for requests host
    by (cases al) (auto intro!: returns_Local_Batch returns_Inband_Batch returns_side returns_Oob_Batch)
  show "returns (layer_ready P al) (GetPlatformCapabilities P al requests hosts)" for requests hosts
    by (cases al) (auto intro!: returns_Local_Caps returns_Inband_Caps returns_side returns_oob_caps
        simp: Oob_GetPlatformCapabilities_def)
qed

section \<open>construct returns\<close>

lemma fresh_mutex_apply [plugin_simps]: "fresh_mutex s = Some (Val (), s\<lparr>oobLocked := False\<rparr>)"
  by (simp add: fresh_mutex_def)

lemma install_run:
  "install P protocol al hosts s =
     bind_act (on_world (GetPlatformCapabilities P al
         (if protocol = ''node_manager'' then GenericVendor else DCMIVendor) hosts)) (\<lambda>vendor.
     bind_act (modify_ic (\<lambda>ic. ic\<lparr>Vendor := vendor, Inventory := []\<rparr>)) (\<lambda>_.
     bind_act (inventory_loop (ExecRaw P al) hosts) (\<lambda>_.
     modify_ic (\<lambda>ic. ic\<lparr>Initialized := True\<rparr>))))
       (s\<lparr>collector := (collector s)\<lparr>IpmiLayer := Some al, Hosts := hosts\<rparr>, world := (world s)\<lparr>oobLocked := False\<rparr>\<rparr>)"
  by (simp add: install_def act_simps plugin_simps)

lemma install_returns:
  assumes "wf_world (world s)" and "fair_scheduler (Sched P)"
    and "\<And>oob. al = OobLayer oob \<Longrightarrow> OobProtocol oob \<noteq> ''dcmi''"
  shows "\<exists>r t. install P protocol al hosts s = Some (r, t) \<and> wf_world (world t)"
proof -
  have "layer_ready P al ((world s)\<lparr>oobLocked := False\<rparr>)"
    using assms by (cases al) (auto simp: oob_ready_def wf_world_def)
  moreover have "returns (\<lambda>s. layer_ready P al (world s)) (bind_act (on_world (GetPlatformCapabilities P al
         (if protocol = ''node_manager'' then GenericVendor else DCMIVendor) hosts)) (\<lambda>vendor.
     bind_act (modify_ic (\<lambda>ic. ic\<lparr>Vendor := vendor, Inventory := []\<rparr>)) (\<lambda>_.
     bind_act (inventory_loop (ExecRaw P al) hosts) (\<lambda>_.
     modify_ic (\<lambda>ic. ic\<lparr>Initialized := True\<rparr>)))))"
    by (intro returns_bind returns_on_world any_layer.caps_returns returns_modify_ic
        any_layer.returns_inventory_loop)
  ultimately obtain r t where "install P protocol al hosts s = Some (r, t)" "layer_ready P al (world t)"
    unfolding install_run by (force dest: returnsD)
  then show ?thesis by (auto simp: layer_ready_def)
qed

lemma install_case_returns:
  assumes "wf_world (world s)" and "fair_scheduler (Sched P)"
    and "\<And>oob. al = OobLayer oob \<Longrightarrow> OobProtocol oob \<noteq> ''dcmi''"
  shows "install_case P protocol (Some (al, hosts)) s \<noteq> None"
  using install_returns [OF assms] by (fastforce simp: install_case_def)

lemma oob_caps_dcmi_locked:
  assumes "OobProtocol al = ''dcmi''" and "fair_scheduler sched"
    and "Oob_GetPlatformCapabilities os sched al requests [host] s = Some (r, t)"
  shows "oobLocked t \<and> (\<exists>v. r = Val v)"
proof -
  have "schedule (caps_count al requests) (sched (caps_count al requests))"
    using assms(2) by (simp add: fair_scheduler_def)
  then show ?thesis
    using assms(3) caps_outcome_dcmi [OF assms(1)]
    by (auto simp: Oob_GetPlatformCapabilities_def act_simps split: option.splits prod.splits)
qed

lemma inventory_locked: "oobLocked s \<Longrightarrow> GetInventoryInfo (Oob_ExecRaw os al) host s = None"
  by (simp add: GetInventoryInfo_def exec_tail_def act_simps Oob_ExecRaw_locked)

lemma install_dcmi_hangs:
  assumes "OobProtocol oob = ''dcmi''" and "fair_scheduler (Sched P)"
  shows "install P protocol (OobLayer oob) [host] s = None"
proof -
  let ?table = "if protocol = ''node_manager'' then GenericVendor else DCMIVendor"
  let ?s = "s\<lparr>collector := (collector s)\<lparr>IpmiLayer := Some (OobLayer oob), Hosts := [host]\<rparr>,
    world := (world s)\<lparr>oobLocked := False\<rparr>\<rparr>"
  show ?thesis
  proof (cases "Oob_GetPlatformCapabilities (System P) (Sched P) oob ?table [host] (world ?s)")
    case None
    then show ?thesis unfolding install_run by (simp add: act_simps plugin_simps)
  next
    case (Some rt)
    then obtain v t where t: "Oob_GetPlatformCapabilities (System P) (Sched P) oob ?table [host] (world ?s)
        = Some (Val v, t)" "oobLocked t"
      using oob_caps_dcmi_locked [OF assms] by (metis prod.exhaust)
    let ?u = "?s\<lparr>world := t, collector := (collector ?s)\<lparr>Vendor := v, Inventory := []\<rparr>\<rparr>"
    have "catch_act (GetInventoryInfo (Oob_ExecRaw (System P) oob) host) t = None"
      by (simp add: catch_act_def inventory_locked [OF t(2)])
    then have "on_world (catch_act (GetInventoryInfo (Oob_ExecRaw (System P) oob) host)) ?u = None"
      by (simp add: plugin_simps)
    then have "inventory_loop (ExecRaw P (OobLayer oob)) [host] ?u = None"
      by (simp add: act_simps)
    with t(1) show ?thesis
      unfolding install_run by (simp add: act_simps plugin_simps del: inventory_loop.simps)
  qed
qed

text \<open>
  C7. With a configuration of strings, \<open>construct\<close> always returns, whatever the devices answer,
  except in the mode \<open>oob\<close> with the protocol \<open>dcmi\<close>, where it never does: the capability probe
  keeps the mutex, and the inventory waits for it.
\<close>

theorem construct_hangs_iff:
  assumes "all_strings cfg" and "getMode cfg = Val mode" and "getProtocol cfg = Val protocol"
    and "wf_world (world s)" and "fair_scheduler (Sched P)"
  shows "construct P cfg s = None \<longleftrightarrow> mode = ''oob'' \<and> protocol = ''dcmi''"
proof -
  obtain layer where layer: "layer_config P cfg mode = Val layer"
    and run: "\<And>s. construct P cfg s = install_case P protocol layer (s\<lparr>collector := (collector s)\<lparr>Mode := mode\<rparr>\<rparr>)"
    using construct_run [OF assms(2,3,1), of P] by metis
  let ?s = "s\<lparr>collector := (collector s)\<lparr>Mode := mode\<rparr>\<rparr>"
  have wf: "wf_world (world ?s)" using assms(4) by simp
  have returns: "construct P cfg s \<noteq> None"
    if "layer = Some (al, hosts)" and "\<And>oob. al = OobLayer oob \<Longrightarrow> OobProtocol oob \<noteq> ''dcmi''" for al hosts
    using install_case_returns [OF wf assms(5) that(2)] by (simp add: run that(1))
  consider "mode = ''legacy_inband''" | "mode = ''oob''" | "mode = ''legacy_inband_openipmi''"
    | "mode \<notin> {''legacy_inband'', ''oob'', ''legacy_inband_openipmi''}" by blast
  then show ?thesis
  proof cases
    case 1
    then obtain channel slave where "layer = Some (LocalLayer \<lparr>LocalDevice = ''ipmitool'',
      LocalChannel = channel, LocalSlave = slave, LocalProtocol = protocol\<rparr>, [Hostname (System P)])"
      using layer_config_local [OF layer [unfolded 1] assms(3)] by metis
    then have "construct P cfg s \<noteq> None" by (rule returns) simp
    then show ?thesis using 1 by simp
  next
    case 2
    then obtain channel slave user pass addr where l: "layer = Some (OobLayer \<lparr>OobDevice = ''ipmitool'',
      OobChannel = channel, OobSlave = slave, User = user, Pass = pass, OobProtocol = protocol\<rparr>, [addr])"
      using layer_config_oob [OF layer [unfolded 2] assms(3)] by metis
    show ?thesis
    proof (cases "protocol = ''dcmi''")
      case True
      then show ?thesis using 2 by (simp add: run install_case_def l install_dcmi_hangs assms(5))
    next
      case False
      have "construct P cfg s \<noteq> None" by (rule returns [OF l]) (use False in auto)
      then show ?thesis using False by simp
    qed
  next
    case 3
    have "construct P cfg s \<noteq> None"
      by (rule returns [OF layer_config_openipmi [OF layer [unfolded 3] assms(3)]]) simp
    then show ?thesis using 3 by simp
  next
    case 4
    then have "layer = None" using layer_config_unknown [OF layer] by blast
    then show ?thesis using 4 by (simp add: run install_case_def act_simps)
  qed
qed

definition oob_config :: config where
  "oob_config = [(''mode'', ConfigValueStr ''oob''), (''protocol'', ConfigValueStr ''dcmi''),
     (''host'', ConfigValueStr ''bmc'')]"

lemma construct_hangs_iff_witness: "construct sample_platform oob_config sample_plugin = None"
proof -
  have "all_strings oob_config" "getMode oob_config = Val ''oob''" "getProtocol oob_config = Val ''dcmi''"
    by (simp_all add: oob_config_def all_strings_def config_readers config_string_def)
  moreover have "wf_world (world sample_plugin)"
    by (simp add: sample_plugin_def sample_world_def wf_world_def wf_init_globals)
  moreover have "fair_scheduler (Sched sample_platform)"
    by (auto simp: sample_platform_def fair_scheduler_def schedule_def)
  ultimately show ?thesis using construct_hangs_iff by blast
qed

end
