(* ===== verification/Collector_Tables.thy ===== *)
theory Collector_Tables
  imports Collector "HOL-Library.Sublist"
begin

text \<open>
  The paths the tables of requests publish, by evaluation: none is taken for a metric of the
  inventory or of the health, and within a table no request publishes a path that another one
  publishes, the paths of memory modules behind the advertised ones included.
\<close>

section \<open>Where a metric's value comes from\<close>

datatype source = FromInventory | FromHealth | FromDevice

definition metric_source :: "string \<Rightarrow> source" where
  \<comment> \<open>by the group whose name and separator occur in the key; the tables below bear it out\<close>
  "metric_source key =
     (case List.find (\<lambda>(group, _). sublist (group @ ''/'') key)
        [(''inventory'', FromInventory), (''health'', FromHealth)] of
        Some (_, src) \<Rightarrow> src
      | None \<Rightarrow> FromDevice)"

lemma metric_source_Contains:
  "metric_source key =
     (if Contains key ''inventory/'' then FromInventory
      else if Contains key ''health/'' then FromHealth else FromDevice)"
  by (simp add: metric_source_def Contains_sublist)

definition vendor_paths :: "RequestDescription list \<Rightarrow> string list" where
  "vendor_paths rds = concat (map (\<lambda>rd. map (extendPath (MetricsRoot rd)) (GetMetrics (Format rd))) rds)"

definition known_requests :: "RequestDescription list" where
  "known_requests = GenericVendor @ DCMIVendor @ [DcmiThermal]"

lemma known_paths_device: "list_all (\<lambda>path. metric_source path = FromDevice) (vendor_paths known_requests)"
  by code_simp

lemma table_sources:
  "list_all (\<lambda>path. metric_source path = FromInventory) InventoryMetrics"
  "list_all (\<lambda>path. metric_source path = FromHealth) HealthMetrics"
  by code_simp+

section \<open>No request shadows another\<close>

lemma extendPath_inj [simp]: "extendPath root k = extendPath root k' \<longleftrightarrow> k = k'"
  by (auto simp: extendPath_def)

definition request_paths :: "RequestDescription \<Rightarrow> string list" where
  "request_paths rd = map (extendPath (MetricsRoot rd)) (GetMetrics (Format rd))"

definition may_publish :: "RequestDescription \<Rightarrow> string \<Rightarrow> bool" where
  \<comment> \<open>a path the response to a request can be published under\<close>
  "may_publish rd key \<longleftrightarrow> key \<in> set (request_paths rd)
     \<or> Format rd = FormatTemp \<and> prefix (MetricsRoot rd @ ''/memory/dimm/'') key"

definition unshadowed :: "RequestDescription \<Rightarrow> RequestDescription \<Rightarrow> bool" where
  "unshadowed rd other \<longleftrightarrow> list_all (\<lambda>key. \<not> may_publish other key) (request_paths rd)"

definition no_dimm :: "RequestDescription list \<Rightarrow> RequestDescription \<Rightarrow> bool" where
  \<comment> \<open>no other request of the table has a path among the memory modules of a request\<close>
  "no_dimm rds temp \<longleftrightarrow>
     list_all (\<lambda>rd. if MetricsRoot rd = MetricsRoot temp then rd = temp
       else list_all (\<lambda>key. \<not> prefix (MetricsRoot temp @ ''/memory/dimm/'') key) (request_paths rd)) rds"

definition separate :: "RequestDescription list \<Rightarrow> bool" where
  "separate rds \<longleftrightarrow> (\<forall>rd \<in> set rds. \<forall>other \<in> set rds. rd \<noteq> other \<longrightarrow> unshadowed rd other)"

lemma distinct_concat_disjoint:
  "distinct (concat (map f xs)) \<Longrightarrow> x \<in> set xs \<Longrightarrow> y \<in> set xs \<Longrightarrow> x \<noteq> y \<Longrightarrow> set (f x) \<inter> set (f y) = {}"
  by (induction xs) auto

lemma distinct_separate:
  assumes "distinct (vendor_paths rds)" and "list_all (no_dimm rds) (filter (\<lambda>rd. Format rd = FormatTemp) rds)"
  shows "separate rds"
  unfolding separate_def
proof (intro ballI impI)
  fix rd other
  assume in_rds: "rd \<in> set rds" "other \<in> set rds" and "rd \<noteq> other"
  have "distinct (concat (map request_paths rds))"
    using assms(1) by (simp add: vendor_paths_def request_paths_def [abs_def])
  then have "set (request_paths rd) \<inter> set (request_paths other) = {}"
    using in_rds \<open>rd \<noteq> other\<close> by (rule distinct_concat_disjoint)
  moreover have "Format other = FormatTemp \<longrightarrow> no_dimm rds other" using assms(2) in_rds by (auto simp: list_all_iff)
  ultimately show "unshadowed rd other"
    using \<open>rd \<noteq> other\<close> in_rds by (auto simp: unshadowed_def may_publish_def no_dimm_def list_all_iff split: if_splits)
qed

text \<open>Within one format the names are distinct anyway, so only the requests are compared.\<close>

fun apart :: "string list \<Rightarrow> string list \<Rightarrow> bool" where
  "apart [] ys = True"
| "apart (x # xs) ys = (if List.member ys x then False else apart xs ys)"

fun all_apart :: "string list list \<Rightarrow> bool" where
  "all_apart [] = True"
| "all_apart (xs # xss) = (list_all (apart xs) xss \<and> all_apart xss)"

lemma apart_iff: "apart xs ys \<longleftrightarrow> set xs \<inter> set ys = {}"
  by (induction xs ys rule: apart.induct) (auto simp: List.member_iff)

lemma request_paths_distinct: "distinct (request_paths rd)"
  using GetMetrics_distinct [of "Format rd"]
  by (simp add: request_paths_def distinct_map inj_on_def)

lemma all_apart_distinct:
  assumes "all_apart (map request_paths rds)"
  shows "distinct (vendor_paths rds)"
proof -
  have "distinct (concat (map request_paths rds))"
    using assms
  proof (induction rds)
    case (Cons rd rds)
    then show ?case
      using request_paths_distinct [of rd] by (fastforce simp: list_all_iff apart_iff)
  qed simp
  then show ?thesis by (simp add: vendor_paths_def request_paths_def [abs_def])
qed

lemma generic_paths_distinct: "distinct (vendor_paths GenericVendor)"
  by (rule all_apart_distinct) code_simp

lemma generic_no_dimm:
  "list_all (no_dimm GenericVendor) (filter (\<lambda>rd. Format rd = FormatTemp) GenericVendor)"
  by code_simp

lemma dcmi_paths_distinct: "distinct (vendor_paths (DCMIVendor @ [DcmiThermal]))"
  by code_simp

lemma dcmi_no_dimm:
  "list_all (no_dimm (DCMIVendor @ [DcmiThermal]))
     (filter (\<lambda>rd. Format rd = FormatTemp) (DCMIVendor @ [DcmiThermal]))"
  by code_simp

lemma tables_distinct: "distinct GenericVendor" "distinct (DCMIVendor @ [DcmiThermal])"
  by code_simp+

text \<open>A selection from one of the tables, in any order.\<close>

definition selection :: "RequestDescription list \<Rightarrow> bool" where
  "selection rds \<longleftrightarrow>
     distinct rds \<and> (set rds \<subseteq> set GenericVendor \<or> set rds \<subseteq> set (DCMIVendor @ [DcmiThermal]))"

lemma separate_subset: "separate table \<Longrightarrow> set rds \<subseteq> set table \<Longrightarrow> separate rds"
  by (auto simp: separate_def)

lemma selection_separate:
  assumes "selection rds"
  shows "separate rds"
  using assms unfolding selection_def
  using separate_subset [OF distinct_separate [OF generic_paths_distinct generic_no_dimm]]
    separate_subset [OF distinct_separate [OF dcmi_paths_distinct dcmi_no_dimm]] by blast

lemma selection_unshadowed:
  assumes "selection rds" and "i < j" and "j < length rds"
  shows "unshadowed (rds ! i) (rds ! j)"
proof -
  have "rds ! i \<noteq> rds ! j"
    using assms by (auto simp: selection_def nth_eq_iff_index_eq)
  then show ?thesis
    using selection_separate [OF assms(1)] assms(2,3) by (auto simp: separate_def)
qed

lemma selection_Nil [simp]: "selection []"
  by (simp add: selection_def)

lemma selection_known:
  assumes "selection rds"
  shows "set rds \<subseteq> set known_requests"
  using assms unfolding selection_def known_requests_def set_append by blast

lemma selection_device:
  assumes "selection rds" and "rd \<in> set rds" and "key \<in> set (request_paths rd)"
  shows "metric_source key = FromDevice"
proof -
  have "key \<in> set (vendor_paths known_requests)"
    using selection_known [OF assms(1)] assms(2,3) by (auto simp: vendor_paths_def request_paths_def)
  then show ?thesis using known_paths_device by (simp add: list_all_iff)
qed

lemma Parse_keys:
  assumes "Parse f r = Val m" and "k \<in> fst ` set m"
  shows "k \<in> set (GetMetrics f) \<or> f = FormatTemp \<and> (\<exists>i. k = dimm_name i)"
proof (cases f)
  case FormatTemp
  with assms show ?thesis
    by (force simp: Parse_Temp_def Let_def bind_go_eq_Val cpu_names_def split: if_splits
        dest!: for_names_keys)
qed (use assms in \<open>auto simp: parse_defs bind_go_eq_Val keys_update split: if_splits\<close>)

lemma dimm_path: "prefix (root @ ''/memory/dimm/'') (extendPath root (dimm_name i))"
  by (simp add: extendPath_def dimm_name_def)

end
