(* ===== verification/Collector_Capabilities.thy ===== *)
theory Collector_Capabilities
  imports Collector_Layers Collector_Tables
begin

text \<open>
  What \<open>GetPlatformCapabilities\<close> can find: whatever the devices answer, and in whatever order the
  goroutines of the out-of-band backend add to their list, every backend's capabilities are a
  selection of the table it was asked about, with the thermal sensor at most once. It follows
  that the collector always holds a selection (\<open>collector_ok\<close>).
\<close>

section \<open>Results of actions\<close>

text \<open>\<open>results Q m\<close>: every value the action returns satisfies \<open>Q\<close>.\<close>

definition results :: "('a \<Rightarrow> bool) \<Rightarrow> ('s, 'a) act \<Rightarrow> bool" where
  "results Q m \<longleftrightarrow> (\<forall>s x t. m s = Some (Val x, t) \<longrightarrow> Q x)"

named_theorems results_intros \<open>rules that the values of an action satisfy a predicate\<close>

lemma resultsD: "results Q m \<Longrightarrow> m s = Some (Val x, t) \<Longrightarrow> Q x"
  unfolding results_def by blast

lemma results_bind: "results R m \<Longrightarrow> (\<And>x. R x \<Longrightarrow> results Q (f x)) \<Longrightarrow> results Q (bind_act m f)"
  unfolding results_def bind_act_eq_Val by blast

lemma results_any_bind [results_intros]: "(\<And>x. results Q (f x)) \<Longrightarrow> results Q (bind_act m f)"
  unfolding results_def bind_act_eq_Val by blast

lemma results_return [results_intros]: "Q x \<Longrightarrow> results Q (return_act x)"
  by (simp add: results_def act_simps)

lemma results_If [results_intros]: "results Q m \<Longrightarrow> results Q n \<Longrightarrow> results Q (if b then m else n)"
  by simp

lemma results_case_sum [results_intros]:
  "(\<And>e. results Q (m e)) \<Longrightarrow> (\<And>x. results Q (n x)) \<Longrightarrow> results Q (case r of Inl e \<Rightarrow> m e | Inr x \<Rightarrow> n x)"
  by (cases r) simp_all

section \<open>The capabilities of each backend\<close>

definition caps_of :: "RequestDescription list \<Rightarrow> bool \<Rightarrow> RequestDescription list \<Rightarrow> bool" where
  \<comment> \<open>a selection of a table, with the thermal sensor if that is asked for\<close>
  "caps_of table thermal rds \<longleftrightarrow>
     distinct rds \<and> set rds \<subseteq> set (table @ (if thermal then [DcmiThermal] else []))"

lemma caps_of_Nil [simp]: "caps_of table thermal []"
  by (simp add: caps_of_def)

lemma subseq_distinct: "subseq xs ys \<Longrightarrow> distinct ys \<Longrightarrow> distinct xs \<and> set xs \<subseteq> set ys"
  by (induction rule: list_emb.induct) auto

lemma caps_of_subseq:
  assumes "subseq rds table" and "distinct (table @ [DcmiThermal])"
  shows "caps_of table thermal rds" and "caps_of table True (rds @ [DcmiThermal])"
proof -
  have "distinct rds \<and> set rds \<subseteq> set table"
    using subseq_distinct [OF assms(1)] assms(2) by simp
  then show "caps_of table thermal rds" and "caps_of table True (rds @ [DcmiThermal])"
    using assms(2) by (auto simp: caps_of_def)
qed

lemma results_thermal_probe: "results (\<lambda>r. r = None \<or> r = Some DcmiThermal) (thermal_probe run)"
  unfolding thermal_probe_def Let_def by (intro results_intros) simp_all

lemma results_inband_thermal: "results (\<lambda>r. r = [] \<or> r = [DcmiThermal]) (inband_thermal K al host)"
  unfolding inband_thermal_def Let_def by (intro results_intros) simp_all

lemma results_local_probe:
  "results (\<lambda>r. \<exists>ys. subseq ys rds \<and> r = acc @ ys) (local_probe os al rds acc)"
proof (induction rds arbitrary: acc)
  case Nil
  show ?case by (auto intro: results_return)
next
  case (Cons rd rds)
  have "results (\<lambda>r. \<exists>ys. subseq ys (rd # rds) \<and> r = acc @ ys)
      (local_probe os al rds (if b then acc @ [rd] else acc))" for b
    using Cons.IH [of "if b then acc @ [rd] else acc"]
    by (fastforce simp: results_def split: if_splits)
  then show ?case by (auto intro!: results_intros)
qed

lemma local_caps:
  assumes "Local_GetPlatformCapabilities os al table hosts s = Some (Val caps, t)"
    and "distinct (table @ [DcmiThermal])"
  shows "caps_of table (LocalProtocol al = ''dcmi'') (lookup_or [] caps host)"
proof -
  let ?Q = "\<lambda>caps. caps_of table (LocalProtocol al = ''dcmi'') (lookup_or [] caps host)"
  have "results ?Q (Local_GetPlatformCapabilities os al table hosts)"
    unfolding Local_GetPlatformCapabilities_def
  proof (intro results_bind [OF results_local_probe])
    fix valid
    assume "\<exists>ys. subseq ys table \<and> valid = [] @ ys"
    then have valid: "subseq valid table" by simp
    have plain: "results ?Q (return_act [(Hostname os, valid)])"
      using caps_of_subseq(1) [OF valid assms(2)] by (auto simp: lookup_or_def intro!: results_return)
    have probed: "results ?Q (bind_act (thermal_probe run) (\<lambda>thermal.
       return_act [(Hostname os, valid @ (case thermal of None \<Rightarrow> [] | Some rd \<Rightarrow> [rd]))]))"
      if "LocalProtocol al = ''dcmi''" for run
      using that caps_of_subseq [OF valid assms(2)]
      by (intro results_bind [OF results_thermal_probe] results_return) (auto simp: lookup_or_def)
    show "results ?Q (if LocalProtocol al = ''dcmi''
       then bind_act (thermal_probe (\<lambda>req. on_env (ExecIpmiToolLocal os req al False))) (\<lambda>thermal.
         return_act [(Hostname os, valid @ (case thermal of None \<Rightarrow> [] | Some rd \<Rightarrow> [rd]))])
       else return_act [(Hostname os, valid)])"
    proof (cases "LocalProtocol al = ''dcmi''")
      case True
      show ?thesis unfolding if_P [OF True] by (rule probed [OF True])
    next
      case False
      show ?thesis unfolding if_not_P [OF False] by (rule plain)
    qed
  qed
  then show ?thesis using assms(1) by (rule resultsD)
qed

lemma map_fst_filter_zip: "subseq (map fst (filter Q (zip xs ys))) xs"
proof (induction xs arbitrary: ys)
  case (Cons x xs)
  then show ?case by (cases ys) auto
qed simp

lemma inband_caps:
  assumes "Inband_GetPlatformCapabilities K al table hosts s = Some (Val caps, t)"
    and "distinct (table @ [DcmiThermal])"
  shows "caps_of table (InbandProtocol al = ''dcmi'') (lookup_or [] caps host)"
proof -
  let ?Q = "\<lambda>caps. caps_of table (InbandProtocol al = ''dcmi'') (lookup_or [] caps host)"
  have step: "results ?Q (if InbandProtocol al = ''dcmi''
      then bind_act (inband_thermal K al h) (\<lambda>thermal. return_act [(h, valid @ thermal)])
      else return_act [(h, valid)])" if valid: "subseq valid table" for valid h
    using caps_of_subseq [OF valid assms(2)]
    by (auto simp: lookup_or_def intro!: results_return results_bind [OF results_inband_thermal])
  have "results ?Q (Inband_GetPlatformCapabilities K al table hosts)"
    unfolding Inband_GetPlatformCapabilities_def Let_def
    by (intro results_any_bind step) (simp add: map_fst_filter_zip split: sum.splits)
  then show ?thesis using assms(1) by (rule resultsD)
qed

text \<open>
  A goroutine of the out-of-band backend appends the request of its index or nothing, the one
  behind them the thermal sensor or nothing.
\<close>

lemma caps_body_appends:
  assumes "i \<le> length requests"
  shows "fst (caps_body os al addr requests i st) = fst st
    \<or> fst (caps_body os al addr requests i st) = fst st @ [(requests @ [DcmiThermal]) ! i]"
proof (cases "i < length requests")
  case True
  then show ?thesis
    by (cases st) (auto simp: caps_body_def Let_def nth_append split: prod.splits)
next
  case False
  then have "i = length requests" using assms by simp
  moreover have "rd = DcmiThermal"
    if "thermal_probe (\<lambda>req. on_env (ExecIpmiToolRemote os req al addr False)) s = Some (Val (Some rd), s')" for rd s s'
    using resultsD [OF results_thermal_probe that] by simp
  ultimately show ?thesis
    by (cases st) (auto simp: caps_body_def Let_def nth_append split: prod.splits option.splits go.splits)
qed

lemma fold_caps_body:
  assumes "distinct order" and "set order \<subseteq> {..< n}" and "n \<le> length requests + 1"
    and "distinct (requests @ [DcmiThermal])"
  shows "\<exists>js. subseq js order \<and> fst (fold (caps_body os al addr requests) order st)
    = fst st @ map ((!) (requests @ [DcmiThermal])) js"
  using assms(1,2)
proof (induction order arbitrary: st)
  case Nil
  then show ?case by simp
next
  case (Cons i order)
  let ?st = "caps_body os al addr requests i st"
  obtain js where js: "subseq js order" "fst (fold (caps_body os al addr requests) order ?st)
      = fst ?st @ map ((!) (requests @ [DcmiThermal])) js"
    using Cons.IH [of ?st] Cons.prems by (metis distinct.simps(2) insert_subset list.simps(15))
  have "i \<le> length requests" using Cons.prems(2) assms(3) by auto
  then consider "fst ?st = fst st" | "fst ?st = fst st @ [(requests @ [DcmiThermal]) ! i]"
    using caps_body_appends by blast
  then show ?case
  proof cases
    case 1
    then show ?thesis using js by (intro exI [of _ js]) auto
  next
    case 2
    then show ?thesis using js by (intro exI [of _ "i # js"]) auto
  qed
qed

lemma indices_caps_of:
  assumes "distinct js" and "set js \<subseteq> {..< length table + (if thermal then 1 else 0)}"
    and "distinct (table @ [DcmiThermal])"
  shows "caps_of table thermal (map ((!) (table @ [DcmiThermal])) js)"
proof -
  have below: "j < length (table @ [DcmiThermal])" if "j \<in> set js" for j
    using assms(2) that by (auto split: if_splits)
  have "inj_on ((!) (table @ [DcmiThermal])) (set js)"
    using inj_on_nth [OF assms(3), of "set js"] below by blast
  moreover have "(table @ [DcmiThermal]) ! j \<in> set (table @ (if thermal then [DcmiThermal] else []))"
    if "j \<in> set js" for j
    using assms(2) that by (auto simp: nth_append split: if_splits)
  ultimately show ?thesis using assms(1) by (auto simp: caps_of_def distinct_map)
qed

lemma oob_caps_selection:
  assumes "oob_caps os sched al table hosts valid s = Some (Val caps, t)" and "fair_scheduler sched"
    and "distinct (table @ [DcmiThermal])"
    and "\<And>host. caps_of table (OobProtocol al = ''dcmi'') (lookup_or [] valid host)"
  shows "caps_of table (OobProtocol al = ''dcmi'') (lookup_or [] caps host)"
  using assms(1,4)
proof (induction hosts arbitrary: valid s)
  case Nil
  then show ?case by (simp add: act_simps)
next
  case (Cons addr hosts)
  let ?n = "caps_count al table"
  let ?order = "sched ?n"
  have sch: "distinct ?order" "set ?order = {..< ?n}"
    using assms(2) by (auto simp: fair_scheduler_def schedule_def)
  have n: "?n = length table + (if OobProtocol al = ''dcmi'' then 1 else 0)" by (simp add: caps_count_def)
  obtain v s' l where run: "run_goroutines (caps_style (length table)) (caps_body os al addr table) ?order
      (oobLocked s) ([], s) = Some ((v, s'), l)"
    and rest: "oob_caps os sched al table hosts (AList.update addr v valid) (s'\<lparr>oobLocked := l\<rparr>) = Some (Val caps, t)"
    using Cons.prems(1) by (auto split: option.splits prod.splits)
  have v: "v = fst (fold (caps_body os al addr table) ?order ([], s))"
    using run by (auto simp: run_goroutines_def pool_outcome_def split: if_splits)
  have bound: "?n \<le> length table + 1" by (simp add: n)
  obtain js where js: "subseq js ?order" "v = map ((!) (table @ [DcmiThermal])) js"
    using fold_caps_body [OF sch(1) eq_refl [OF sch(2)] bound assms(3), of os al addr "([], s)"] v
    by auto
  have "distinct js" "set js \<subseteq> {..< ?n}"
    using subseq_distinct [OF js(1) sch(1)] sch(2) by auto
  then have "caps_of table (OobProtocol al = ''dcmi'') v"
    unfolding js(2) by (intro indices_caps_of [OF _ _ assms(3)]) (auto simp: n)
  then show ?case
    by (intro Cons.IH [OF rest]) (use Cons.prems(2) in \<open>auto simp: lookup_or_def\<close>)
qed

section \<open>The collector's requests\<close>

primrec layer_protocol :: "IpmiAL \<Rightarrow> string" where
  "layer_protocol (LocalLayer al) = LocalProtocol al"
| "layer_protocol (OobLayer al) = OobProtocol al"
| "layer_protocol (InbandLayer al) = InbandProtocol al"

lemma capabilities_caps_of:
  assumes "GetPlatformCapabilities P al table hosts s = Some (Val caps, t)" and "fair_scheduler (Sched P)"
    and "distinct (table @ [DcmiThermal])"
  shows "caps_of table (layer_protocol al = ''dcmi'') (lookup_or [] caps host)"
proof (cases al)
  case (LocalLayer l)
  then show ?thesis using local_caps [OF _ assms(3)] assms(1) by simp
next
  case (InbandLayer l)
  then show ?thesis using inband_caps [OF _ assms(3)] assms(1) by simp
next
  case (OobLayer l)
  then have "oob_caps (System P) (Sched P) l table hosts [] s = Some (Val caps, t)"
    using assms(1) by (simp add: Oob_GetPlatformCapabilities_def)
  from oob_caps_selection [OF this assms(2,3)] show ?thesis
    by (simp add: OobLayer lookup_or_def)
qed

lemma thermal_not_listed: "DcmiThermal \<notin> set GenericVendor"
  by (simp add: GenericVendor_def DcmiThermal_def describe_def)

lemma construct_selection:
  assumes "GetPlatformCapabilities P al
      (if protocol = ''node_manager'' then GenericVendor else DCMIVendor) hosts s = Some (Val caps, t)"
    and "fair_scheduler (Sched P)" and "layer_protocol al = protocol"
  shows "selection (lookup_or [] caps host)"
proof (cases "protocol = ''node_manager''")
  case True
  have "distinct (GenericVendor @ [DcmiThermal])" using tables_distinct(1) thermal_not_listed by simp
  moreover have "GetPlatformCapabilities P al GenericVendor hosts s = Some (Val caps, t)"
    using assms(1) True by simp
  ultimately have "caps_of GenericVendor (layer_protocol al = ''dcmi'') (lookup_or [] caps host)"
    using capabilities_caps_of [OF _ assms(2)] by blast
  then show ?thesis using assms(3) True by (simp add: caps_of_def selection_def)
next
  case False
  then have "GetPlatformCapabilities P al DCMIVendor hosts s = Some (Val caps, t)"
    using assms(1) by simp
  from capabilities_caps_of [OF this assms(2) tables_distinct(2), of host] show ?thesis
    by (auto simp: caps_of_def selection_def split: if_splits)
qed

section \<open>The invariant\<close>

definition collector_ok :: "IpmiCollector \<Rightarrow> bool" where
  "collector_ok ic \<longleftrightarrow> wf_collector ic \<and> (\<forall>host. selection (lookup_or [] (Vendor ic) host))"

abbreviation plugin_ok :: "'w plugin \<Rightarrow> bool" where
  "plugin_ok s \<equiv> collector_ok (collector s)"

lemma preserves_bind_results:
  "preserves J m \<Longrightarrow> results Q m \<Longrightarrow> (\<And>x. Q x \<Longrightarrow> preserves J (f x)) \<Longrightarrow> preserves J (bind_act m f)"
  unfolding preserves_def results_def bind_act_eq_Some by blast

lemma results_on_world: "results Q m \<Longrightarrow> results Q (on_world m)"
  by (auto simp: results_def on_world_eq_Some)

lemma install_ok:
  assumes "length hostList = 1" and "layer_protocol al = protocol" and "fair_scheduler (Sched P)"
  shows "preserves plugin_ok (install P protocol al hostList)"
  unfolding install_def
proof (rule preserves_after_modify [where J' = "\<lambda>s. plugin_ok s \<and> IpmiLayer (collector s) \<noteq> None"])
  let ?table = "if protocol = ''node_manager'' then GenericVendor else DCMIVendor"
  let ?J = "\<lambda>s. plugin_ok s \<and> IpmiLayer (collector s) \<noteq> None"
  have "results (\<lambda>caps. \<forall>host. selection (lookup_or [] caps host)) (GetPlatformCapabilities P al ?table hostList)"
    unfolding results_def using construct_selection [OF _ assms(3,2)] by blast
  then have caps: "results (\<lambda>caps. \<forall>host. selection (lookup_or [] caps host))
      (on_world (GetPlatformCapabilities P al ?table hostList))"
    by (rule results_on_world)
  show "preserves ?J
    (bind_act (on_world fresh_mutex) (\<lambda>_.
     bind_act (on_world (GetPlatformCapabilities P al ?table hostList)) (\<lambda>vendor.
     bind_act (modify_ic (\<lambda>ic. ic\<lparr>Vendor := vendor, Inventory := []\<rparr>)) (\<lambda>_.
     bind_act (inventory_loop (ExecRaw P al) hostList) (\<lambda>_.
     modify_ic (\<lambda>ic. ic\<lparr>Initialized := True\<rparr>))))))"
    by (intro preserves_bind [OF preserves_on_world] preserves_bind_results [OF _ caps] preserves_on_world
        preserves_bind [OF preserves_modify_ic] preserves_modify_ic preserves_bind [OF
        inventory_loop_keeps [where Q = "\<lambda>ic. collector_ok ic \<and> IpmiLayer ic \<noteq> None"]])
       (auto simp: collector_ok_def wf_collector_def)
qed (use assms in \<open>auto simp: collector_ok_def wf_collector_def\<close>)

lemma layer_of_protocol:
  "layer_of mode cfg host channel slave user pass protocol = Val (Some (al, hosts)) \<Longrightarrow> layer_protocol al = protocol"
  by (auto simp: layer_of_def bind_go_eq_Val split: if_splits)

lemma construct_ok:
  assumes "fair_scheduler (Sched P)"
  shows "preserves plugin_ok (construct P cfg)"
proof -
  have mode: "preserves plugin_ok (modify_ic (\<lambda>ic. ic\<lparr>Mode := mode\<rparr>))" for mode
    by (intro preserves_modify_ic) (simp add: collector_ok_def wf_collector_def)
  show ?thesis
    unfolding construct_def
    by (intro preserves_bind_lift preserves_bind [OF mode] preserves_case_layer preserves_return
        install_ok [OF _ _ assms])
       (blast intro: layer_of_one_host layer_of_protocol)+
qed

lemma GetMetricTypes_ok:
  assumes "fair_scheduler (Sched P)"
  shows "preserves plugin_ok (GetMetricTypes N P cfg)"
  unfolding GetMetricTypes_def
proof (intro preserves_bind_lift preserves_bind [OF construct_ok [OF assms]])
  show "preserves plugin_ok (bind_act get_ic (\<lambda>ic.
     if IpmiLayer ic = None then
       bind_act (modify_ic (\<lambda>ic. ic\<lparr>Initialized := False\<rparr>)) (\<lambda>_. fail_act WrongModeConfiguration)
     else
       bind_act (modify_ic (\<lambda>ic. ic\<lparr>Initialized := True\<rparr>)) (\<lambda>_.
       return_act (advertised_metrics N ic))))"
    by (auto simp: preserves_def act_simps plugin_simps collector_ok_def wf_collector_def split: if_splits)
qed

lemma metric_value_ok: "preserves plugin_ok (metric_value P responseCache host key)"
  unfolding metric_value_def
  by (intro preserves_intros preserves_modify_ic health_loop_keeps)
     (auto simp: collector_ok_def wf_collector_def)

lemma CollectMetrics_ok:
  assumes "fair_scheduler (Sched P)"
  shows "preserves plugin_ok (CollectMetrics N P mts)"
proof -
  have "preserves plugin_ok (\<lambda>s. Some (Val (Now P (env (world s))), s))"
    by (simp add: preserves_def)
  then show ?thesis
    unfolding CollectMetrics_def collect_metric_def
    by (intro preserves_intros construct_ok [OF assms] metric_value_ok preserves_on_world) simp_all
qed

text \<open>
  C8. Every operation of the collector keeps its invariant, on every path: a collector serves at
  most one host, has a host exactly when it has a backend, is initialized only with one, and asks
  each host for distinct requests of one table. A new collector satisfies it.
\<close>

theorem collector_invariant:
  assumes "fair_scheduler (Sched P)"
  shows "collector_ok New \<and> preserves plugin_ok (construct P cfg) \<and> preserves plugin_ok (GetMetricTypes N P cfg)
    \<and> preserves plugin_ok (CollectMetrics N P mts)"
  by (intro conjI construct_ok GetMetricTypes_ok CollectMetrics_ok assms)
     (simp add: collector_ok_def wf_collector_def New_def lookup_or_def)

lemma collector_invariant_witness:
  "preserves plugin_ok (construct sample_platform oob_config)
    \<and> preserves plugin_ok (CollectMetrics list_ns sample_platform [])"
proof -
  have "fair_scheduler (Sched sample_platform)"
    by (auto simp: sample_platform_def fair_scheduler_def schedule_def)
  from collector_invariant [OF this] show ?thesis by blast
qed

end
