(* ===== verification/Collector_Metrics.thy ===== *)
theory Collector_Metrics
  imports Collector_Capabilities
begin

text \<open>
  What \<open>CollectMetrics\<close> returns. A run with an initialized collector is a batch, a pure
  computation of the cache (\<open>cache_responses\<close>) and one metric after the other
  (\<open>CollectMetrics_run\<close>); the cache holds every published path with the value of the last
  response that publishes it.
\<close>

section \<open>The cache\<close>

lemma cache_metrics_lookup:
  "distinct (map fst m) \<Longrightarrow>
     map_of (cache_metrics root m cached) (extendPath root k) =
       (case map_of m k of None \<Rightarrow> map_of cached (extendPath root k) | Some v \<Rightarrow> Some v)"
proof (induction m arbitrary: cached)
  case (Cons kv m)
  obtain k0 v0 where kv: "kv = (k0, v0)" by (cases kv)
  have "cache_metrics root (kv # m) cached = cache_metrics root m (AList.update (extendPath root k0) v0 cached)"
    by (simp add: cache_metrics_def kv)
  moreover have "map_of m k0 = None"
    using Cons.prems by (simp add: kv map_of_eq_None_iff)
  ultimately show ?case
    using Cons by (simp add: kv split: option.splits)
qed (simp add: cache_metrics_def)

lemma cache_metrics_other:
  "key \<notin> extendPath root ` fst ` set m \<Longrightarrow> map_of (cache_metrics root m cached) key = map_of cached key"
  by (induction m arbitrary: cached) (auto simp: cache_metrics_def)

definition publishes :: "RequestDescription \<Rightarrow> IpmiResponse \<Rightarrow> string \<Rightarrow> bool" where
  "publishes desc resp key \<longleftrightarrow>
     (\<exists>m. Parse (Format desc) resp = Val m \<and> key \<in> extendPath (MetricsRoot desc) ` fst ` set m)"

definition accepted :: "RequestDescription \<Rightarrow> IpmiResponse \<Rightarrow> bool" where
  \<comment> \<open>a response that is validated and parsed\<close>
  "accepted desc resp \<longleftrightarrow> Validate resp = Val () \<and> (\<exists>m. Parse (Format desc) resp = Val m)"

lemma cache_responses_unpublished:
  assumes "list_all2 accepted descs resps"
    and "\<And>desc resp. (desc, resp) \<in> set (zip descs resps) \<Longrightarrow> \<not> publishes desc resp key"
  shows "\<exists>cached'. cache_responses descs resps cached = Val cached' \<and> map_of cached' key = map_of cached key"
  using assms
proof (induction descs resps arbitrary: cached rule: list_all2_induct)
  case (Cons desc descs resp resps)
  obtain m where m: "Validate resp = Val ()" "Parse (Format desc) resp = Val m"
    using Cons.hyps(1) by (auto simp: accepted_def)
  have "\<not> publishes desc resp key" using Cons.prems by simp
  then have "key \<notin> extendPath (MetricsRoot desc) ` fst ` set m"
    using m(2) by (auto simp: publishes_def)
  then have "map_of (cache_metrics (MetricsRoot desc) m cached) key = map_of cached key"
    by (rule cache_metrics_other)
  moreover have "\<exists>cached'. cache_responses descs resps (cache_metrics (MetricsRoot desc) m cached) = Val cached'
      \<and> map_of cached' key = map_of (cache_metrics (MetricsRoot desc) m cached) key"
    by (rule Cons.IH) (use Cons.prems in auto)
  ultimately show ?case by (simp add: m)
qed simp

lemma cache_responses_accepted:
  "list_all2 accepted descs resps \<Longrightarrow> \<exists>c. cache_responses descs resps cached = Val c"
proof (induction descs resps arbitrary: cached rule: list_all2_induct)
  case (Cons desc descs resp resps)
  then show ?case by (auto simp: accepted_def)
qed simp

lemma cache_responses_append:
  "list_all2 accepted descs resps \<Longrightarrow>
     cache_responses (descs @ descs') (resps @ resps') cached =
       bind_go (cache_responses descs resps cached) (cache_responses descs' resps')"
proof (induction descs resps arbitrary: cached rule: list_all2_induct)
  case (Cons desc descs resp resps)
  then show ?case by (auto simp: accepted_def)
qed simp

lemma cache_responses_value:
  assumes "list_all2 accepted descs resps" and "i < length descs"
    and "Parse (Format (descs ! i)) (resps ! i) = Val m" and "distinct (map fst m)" and "map_of m k = Some v"
    and "key = extendPath (MetricsRoot (descs ! i)) k"
    and "\<And>j. i < j \<Longrightarrow> j < length descs \<Longrightarrow> \<not> publishes (descs ! j) (resps ! j) key"
  shows "\<exists>cached. cache_responses descs resps [] = Val cached \<and> map_of cached key = Some v"
proof -
  have len: "length resps = length descs" using assms(1) by (auto dest: list_all2_lengthD)
  have before: "list_all2 accepted (take i descs) (take i resps)"
    and after: "list_all2 accepted (drop (Suc i) descs) (drop (Suc i) resps)"
    using assms(1) by (auto intro: list_all2_takeI list_all2_dropI)
  have ok: "Validate (resps ! i) = Val ()"
    using assms(1,2) by (auto simp: list_all2_conv_all_nth accepted_def)
  obtain c where c: "cache_responses (take i descs) (take i resps) [] = Val c"
    using cache_responses_accepted [OF before] by blast
  let ?c = "cache_metrics (MetricsRoot (descs ! i)) m c"
  have unpub: "\<not> publishes desc resp key" if "(desc, resp) \<in> set (zip (drop (Suc i) descs) (drop (Suc i) resps))"
    for desc resp
  proof -
    obtain j where j: "j < length descs - Suc i" "desc = drop (Suc i) descs ! j" "resp = drop (Suc i) resps ! j"
      using \<open>(desc, resp) \<in> set _\<close> by (auto simp: in_set_zip)
    then have "desc = descs ! (Suc i + j)" "resp = resps ! (Suc i + j)"
      using assms(2) len by simp_all
    with j(1) show ?thesis using assms(7) [of "Suc i + j"] by simp
  qed
  obtain c' where c': "cache_responses (drop (Suc i) descs) (drop (Suc i) resps) ?c = Val c'"
    "map_of c' key = map_of ?c key"
    using cache_responses_unpublished [OF after unpub] by blast
  have "cache_responses descs resps [] = cache_responses (take i descs @ descs ! i # drop (Suc i) descs)
      (take i resps @ resps ! i # drop (Suc i) resps) []"
    using assms(2) len by (simp add: id_take_nth_drop [symmetric])
  also have "\<dots> = Val c'"
    by (simp add: cache_responses_append [OF before] c ok assms(3) c'(1))
  finally have "cache_responses descs resps [] = Val c'" .
  moreover have "map_of ?c key = Some v" by (simp add: assms(4-6) cache_metrics_lookup)
  ultimately show ?thesis using c'(2) by auto
qed

section \<open>A run\<close>

lemma CollectMetrics_run:
  assumes "Initialized (collector s)" and "IpmiLayer (collector s) = Some al" and "Hosts (collector s) = [host]"
    and "BatchExecRaw P al (map (\<lambda>rd. resolve (globs (world s)) (Request rd))
      (lookup_or [] (Vendor (collector s)) host)) host (world s) = Some (Val resps, w)"
  shows "CollectMetrics N P mts s =
    bind_act (lift_go (cache_responses (lookup_or [] (Vendor (collector s)) host) resps [])) (\<lambda>cached.
      map_act (collect_metric N P (if resps = [] then [] else [(host, cached)]) (Now P (env w)) host) mts)
      (s\<lparr>world := w\<rparr>)"
proof -
  let ?desc = "lookup_or [] (Vendor (collector s)) host"
  have batch: "on_world (batch_loop_hosts (BatchExecRaw P al) (Vendor (collector s)) [host] []) s
      = Some (Val [(host, resps)], s\<lparr>world := w\<rparr>)"
    using assms(4) by (simp add: plugin_simps act_simps)
  have one: "map_act (\<lambda>host. map_act (f host) mts) [host] = bind_act (map_act (f host) mts) (\<lambda>ms. return_act [ms])"
    for f :: "string \<Rightarrow> 'b MetricType \<Rightarrow> ('a plugin, 'b MetricType) act"
    by (simp add: bind_return_act)
  have ret: "bind_act m (\<lambda>x a. Some (Val x, a)) = m" for m :: "('a plugin, 'b MetricType list) act"
    by (rule ext) (auto simp: bind_act_def act_simps split: option.splits go.splits Option.bind_splits)
  show ?thesis
    using assms(1-3) batch
    by (cases "cache_responses ?desc resps []")
       (simp_all add: CollectMetrics_def use_layer_def act_simps plugin_simps one ret bind_act_assoc
         del: batch_loop_hosts.simps map_act.simps)
qed

lemma collect_device_metric:
  assumes "parseName N (MetricNamespace mt) = Val key"
    and "\<not> Contains key ''inventory/''" and "\<not> Contains key ''health/''"
  shows "collect_metric N P responseCache t host mt s =
    Some (Val (new_metric (MetricNamespace mt) host t
      (Uint16Data (lookup_or 0 (lookup_or [] responseCache host) key))), s)"
  using assms by (simp add: collect_metric_def metric_value_def act_simps)

section \<open>A sample run\<close>

definition uniform_kernel :: "byte list \<Rightarrow> (nat \<times> byte list) list kernel" where
  \<comment> \<open>a driver whose device gives the same answer to every command\<close>
  "uniform_kernel answer = sample_kernel\<lparr>k_send := (\<lambda>a m f c ds k. (True, (m, answer) # k))\<rparr>"

lemma uniform_kernel_answers:
  "length answer \<le> 1024 \<Longrightarrow> answering_kernel (uniform_kernel answer) mset (\<lambda>_ _. answer)"
  by (auto simp: answering_kernel_def uniform_kernel_def sample_kernel_def neq_Nil_conv)

lemma uniform_kernel_pending: "kernel_pending (uniform_kernel answer) length"
  by (auto simp: kernel_pending_def uniform_kernel_def sample_kernel_def split: list.splits if_splits)

definition kernel_platform :: "byte list \<Rightarrow> (nat \<times> byte list) list platform" where
  "kernel_platform answer =
     \<lparr>System = \<lparr>LookPath = (\<lambda>_. None), RunCommand = (\<lambda>_ _ w. (None, w)), Hostname = ''node''\<rparr>,
      Driver = uniform_kernel answer, Sched = (\<lambda>n. [0 ..< n]), Now = (\<lambda>_. 0)\<rparr>"

definition dcmi_layer :: IpmiAL where
  "dcmi_layer = InbandLayer \<lparr>InbandDevice = ''/dev/ipmi0'', InbandProtocol = ''dcmi''\<rparr>"

definition dcmi_plugin :: "(nat \<times> byte list) list plugin" where
  \<comment> \<open>a collector initialized on the kernel driver, for one request: the power of the system\<close>
  "dcmi_plugin = \<lparr>collector = New\<lparr>IpmiLayer := Some dcmi_layer, Vendor := [(''node'', DCMIVendor)],
     Hosts := [''node''], Initialized := True\<rparr>, world = inband_world\<rparr>"

definition power_ns :: "string list" where
  "power_ns = [''intel'', ''dcm'', ''power'', ''system'', ''cur'']"

definition asked :: "string list \<Rightarrow> string list MetricType" where
  \<comment> \<open>a metric as the framework asks for it\<close>
  "asked ns = \<lparr>MetricNamespace = ns, Tags = [], Timestamp = 0, MetricData = NoData, MetricConfig = []\<rparr>"

definition power_answer :: "byte list" where
  "power_answer = [0, 0xdc, 0x2c, 1, 0x10, 0, 0x30, 2, 0x20, 1]"

lemmas sample_run_simps = kernel_platform_def dcmi_layer_def dcmi_plugin_def New_def lookup_or_def

lemma power_key [simp]: "parseName list_ns power_ns = Val ''power/system/cur''"
  by (simp add: parseName_def list_ns_def power_ns_def namespacePrefix_def slice_from_def)

lemma power_device: "metric_source ''power/system/cur'' = FromDevice"
  by code_simp


lemma dcmi_batch:
  assumes "length answer \<le> 1024"
  obtains w where "BatchExecRaw (kernel_platform answer) dcmi_layer
      (map (\<lambda>rd. resolve (globs (world dcmi_plugin)) (Request rd)) DCMIVendor) ''node'' (world dcmi_plugin)
    = Some (Val [\<lparr>RespData = answer, IsValid = 1\<rparr>], w)"
proof -
  let ?reqs = "map (\<lambda>rd. resolve (globs inband_world) (Request rd)) DCMIVendor"
  let ?al = "\<lparr>InbandDevice = ''/dev/ipmi0'', InbandProtocol = ''dcmi''\<rparr>"
  have "\<forall>r \<in> set ?reqs. good_request r" "?reqs \<noteq> []" "length ?reqs \<le> 3"
    by (simp_all add: DCMIVendor_def good_request_def resolve_def request_def)
  from Inband_Batch_answers [OF uniform_kernel_answers [OF assms] this, of ?al "''node''" inband_world]
  show ?thesis using that by (auto simp: sample_run_simps DCMIVendor_def)
qed

lemma dcmi_selection: "selection DCMIVendor" "selection (DCMIVendor @ [DcmiThermal])"
  using tables_distinct(2) by (auto simp: selection_def)

lemma dcmi_plugin_ok: "plugin_ok dcmi_plugin"
  using dcmi_selection(1) by (simp add: collector_ok_def wf_collector_def dcmi_plugin_def New_def lookup_or_def)

lemma power_name: "power_ns = makeName list_ns (extendPath ''power/system'' ''cur'')"
  by (simp add: makeName_def list_ns_def power_ns_def namespacePrefix_def extendPath_def)

section \<open>The value of a metric\<close>

lemma Validate_zero: "RespData r \<noteq> [] \<Longrightarrow> RespData r ! 0 = 0 \<Longrightarrow> Validate r = Val ()"
  by (simp add: Validate_def)

lemma complete_accepted:
  assumes "IsValid resp = 1" and "RespData resp ! 0 = 0" and "full_length (Format desc) \<le> length (RespData resp)"
  shows "accepted desc resp"
proof -
  have "0 < full_length (Format desc)" by (cases "Format desc") simp_all
  with assms(3) have "RespData resp \<noteq> []" by auto
  then show ?thesis
    using fmt.parse_total [OF assms(1,3)] by (auto simp: accepted_def Validate_zero assms(2))
qed

lemma collected_value:
  assumes "Initialized (collector s)" and "IpmiLayer (collector s) = Some al"
    and "Hosts (collector s) = [host]" and "descs = lookup_or [] (Vendor (collector s)) host"
    and "BatchExecRaw P al (map (\<lambda>rd. resolve (globs (world s)) (Request rd)) descs) host (world s)
      = Some (Val resps, w)"
    and "length resps = length descs"
    and "\<And>j. j < length descs \<Longrightarrow> IsValid (resps ! j) = 1 \<and> RespData (resps ! j) ! 0 = 0
      \<and> full_length (Format (descs ! j)) \<le> length (RespData (resps ! j))"
    and "i < length descs" and "(k, fld) \<in> set (layout (Format (descs ! i)))"
    and "key = extendPath (MetricsRoot (descs ! i)) k" and "parseName N (MetricNamespace mt) = Val key"
    and "\<And>j. i < j \<Longrightarrow> j < length descs \<Longrightarrow> \<not> publishes (descs ! j) (resps ! j) key"
    and "\<not> Contains key ''inventory/''" and "\<not> Contains key ''health/''"
  shows "CollectMetrics N P [mt] s =
    Some (Val [new_metric (MetricNamespace mt) host (Now P (env w))
      (Uint16Data (decode_field (RespData (resps ! i)) fld))], s\<lparr>world := w\<rparr>)"
proof -
  have "accepted (descs ! j) (resps ! j)" if "j < length descs" for j
    using complete_accepted assms(7) [OF that] by blast
  then have all: "list_all2 accepted descs resps"
    using assms(6) by (simp add: list_all2_conv_all_nth)
  obtain m where m: "Parse (Format (descs ! i)) (resps ! i) = Val m" "distinct (map fst m)"
    "map_of m k = Some (decode_field (RespData (resps ! i)) fld)"
    using Parse_layout [of "resps ! i" "Format (descs ! i)"] assms(7) [OF assms(8)] assms(9) by blast
  obtain cached where c: "cache_responses descs resps [] = Val cached"
    "map_of cached key = Some (decode_field (RespData (resps ! i)) fld)"
    using cache_responses_value [OF all assms(8) m assms(10,12)] by blast
  have "resps \<noteq> []" using assms(6,8) by auto
  then have "collect_metric N P (if resps = [] then [] else [(host, cached)]) (Now P (env w)) host mt (s\<lparr>world := w\<rparr>)
      = Some (Val (new_metric (MetricNamespace mt) host (Now P (env w))
          (Uint16Data (decode_field (RespData (resps ! i)) fld))), s\<lparr>world := w\<rparr>)"
    by (simp add: collect_device_metric [OF assms(11,13,14)] lookup_or_def c(2))
  then show ?thesis
    using CollectMetrics_run [OF assms(1-3) assms(5) [unfolded assms(4)], of N "[mt]"] c(1)
    by (simp add: assms(4) [symmetric] act_simps)
qed

lemma publishes_may: "publishes desc resp key \<Longrightarrow> may_publish desc key"
  unfolding publishes_def may_publish_def request_paths_def
  using dimm_path by (auto dest: Parse_keys)

lemma selection_unpublished:
  assumes "selection descs" and "i < j" and "j < length descs" and "key \<in> set (request_paths (descs ! i))"
  shows "\<not> publishes (descs ! j) resp key"
proof -
  have "unshadowed (descs ! i) (descs ! j)" by (rule selection_unshadowed [OF assms(1-3)])
  then have "\<not> may_publish (descs ! j) key" using assms(4) by (simp add: unshadowed_def list_all_iff)
  then show ?thesis using publishes_may by blast
qed

lemma layout_path:
  assumes "(k, fld) \<in> set (layout (Format rd))"
  shows "extendPath (MetricsRoot rd) k \<in> set (request_paths rd)"
proof -
  have "k \<in> set (map fst (layout (Format rd)))" using assms by force
  then show ?thesis unfolding layout_keys by (simp add: request_paths_def)
qed

lemma collected_selection:
  assumes "ns_law N" and "Initialized (collector s)" and "IpmiLayer (collector s) = Some al"
    and "Hosts (collector s) = [host]" and "descs = lookup_or [] (Vendor (collector s)) host"
    and "selection descs"
    and "BatchExecRaw P al (map (\<lambda>rd. resolve (globs (world s)) (Request rd)) descs) host (world s)
      = Some (Val resps, w)"
    and "length resps = length descs"
    and "\<And>j. j < length descs \<Longrightarrow> IsValid (resps ! j) = 1 \<and> RespData (resps ! j) ! 0 = 0
      \<and> full_length (Format (descs ! j)) \<le> length (RespData (resps ! j))"
    and "i < length descs" and "(k, fld) \<in> set (layout (Format (descs ! i)))"
    and "MetricNamespace mt = makeName N (extendPath (MetricsRoot (descs ! i)) k)"
  shows "CollectMetrics N P [mt] s =
    Some (Val [new_metric (MetricNamespace mt) host (Now P (env w))
      (Uint16Data (decode_field (RespData (resps ! i)) fld))], s\<lparr>world := w\<rparr>)"
proof -
  let ?key = "extendPath (MetricsRoot (descs ! i)) k"
  have path: "?key \<in> set (request_paths (descs ! i))" by (rule layout_path [OF assms(11)])
  have "metric_source ?key = FromDevice"
    using selection_device [OF assms(6) nth_mem [OF assms(10)] path] .
  then have key: "\<not> Contains ?key ''inventory/''" "\<not> Contains ?key ''health/''"
    by (auto simp: metric_source_Contains split: if_splits)
  have parse: "parseName N (MetricNamespace mt) = Val ?key"
    by (simp add: assms(12) parse_makeName [OF assms(1)])
  show ?thesis
    by (rule collected_value [OF assms(2-5) assms(7-11) refl parse selection_unpublished [OF assms(6) _ _ path] key])
qed

text \<open>
  C5. From the device to the published value, on any backend: when a collector that satisfies its
  invariant gets complete answers without an error code to its batch, a metric of the \<open>i\<close>-th
  request has the value that the wire layout of its format assigns to the bytes of the \<open>i\<close>-th
  answer. No other request of the batch shadows it.
\<close>

theorem collected_value_is_layout:
  assumes "ns_law N" and "collector_ok (collector s)" and "Initialized (collector s)"
    and "IpmiLayer (collector s) = Some al"
    and "Hosts (collector s) = [host]" and "descs = lookup_or [] (Vendor (collector s)) host"
    and "BatchExecRaw P al (map (\<lambda>rd. resolve (globs (world s)) (Request rd)) descs) host (world s)
      = Some (Val resps, w)"
    and "length resps = length descs"
    and "\<And>j. j < length descs \<Longrightarrow> IsValid (resps ! j) = 1 \<and> RespData (resps ! j) ! 0 = 0
      \<and> full_length (Format (descs ! j)) \<le> length (RespData (resps ! j))"
    and "i < length descs" and "(k, fld) \<in> set (layout (Format (descs ! i)))"
    and "MetricNamespace mt = makeName N (extendPath (MetricsRoot (descs ! i)) k)"
  shows "CollectMetrics N P [mt] s =
    Some (Val [new_metric (MetricNamespace mt) host (Now P (env w))
      (Uint16Data (decode_field (RespData (resps ! i)) fld))], s\<lparr>world := w\<rparr>)"
proof -
  have "selection descs" using assms(2,6) by (simp add: collector_ok_def)
  then show ?thesis by (rule collected_selection [OF assms(1,3-6) _ assms(7-12)])
qed

lemma collected_value_is_layout_witness:
  "\<exists>w. CollectMetrics list_ns (kernel_platform power_answer) [asked power_ns] dcmi_plugin =
     Some (Val [new_metric power_ns ''node'' 0 (Uint16Data 300)], dcmi_plugin\<lparr>world := w\<rparr>)"
proof -
  have "length power_answer \<le> 1024" by (simp add: power_answer_def)
  then obtain w where w: "BatchExecRaw (kernel_platform power_answer) dcmi_layer
      (map (\<lambda>rd. resolve (globs (world dcmi_plugin)) (Request rd)) DCMIVendor) ''node'' (world dcmi_plugin)
    = Some (Val [\<lparr>RespData = power_answer, IsValid = 1\<rparr>], w)" by (rule dcmi_batch)
  have fld: "(''cur'', Word16 2) \<in> set (layout (Format (DCMIVendor ! 0)))" by (simp add: DCMIVendor_def)
  have "CollectMetrics list_ns (kernel_platform power_answer) [asked power_ns] dcmi_plugin =
     Some (Val [new_metric (MetricNamespace (asked power_ns)) ''node'' (Now (kernel_platform power_answer) (env w))
      (Uint16Data (decode_field (RespData ([\<lparr>RespData = power_answer, IsValid = 1\<rparr>] ! 0)) (Word16 2)))],
      dcmi_plugin\<lparr>world := w\<rparr>)"
    by (rule collected_value_is_layout [OF list_ns_law dcmi_plugin_ok _ _ _ _ w _ _ _ fld])
       (simp_all add: sample_run_simps DCMIVendor_def asked_def power_answer_def power_name)
  moreover have "decode_field power_answer (Word16 2) = 300" by code_simp
  ultimately have "CollectMetrics list_ns (kernel_platform power_answer) [asked power_ns] dcmi_plugin =
     Some (Val [new_metric power_ns ''node'' 0 (Uint16Data 300)], dcmi_plugin\<lparr>world := w\<rparr>)"
    by (simp add: asked_def kernel_platform_def)
  then show ?thesis by blast
qed

text \<open>
  C14. One response that is not validated loses every metric of the call: \<open>CollectMetrics\<close>
  returns its error and no metric, whatever the other responses hold.
\<close>

theorem rejected_response_loses_all:
  assumes "Initialized (collector s)" and "IpmiLayer (collector s) = Some al"
    and "Hosts (collector s) = [host]" and "lookup_or [] (Vendor (collector s)) host = descs @ desc # descs'"
    and "BatchExecRaw P al (map (\<lambda>rd. resolve (globs (world s)) (Request rd)) (descs @ desc # descs')) host (world s)
      = Some (Val (resps @ resp # resps'), w)"
    and "list_all2 accepted descs resps" and "Validate resp = Err e"
  shows "CollectMetrics N P mts s = Some (Err e, s\<lparr>world := w\<rparr>)"
proof -
  obtain c where "cache_responses descs resps [] = Val c"
    using cache_responses_accepted [OF assms(6)] by blast
  then have "cache_responses (descs @ desc # descs') (resps @ resp # resps') [] = Err e"
    by (simp add: cache_responses_append [OF assms(6)] assms(7))
  then show ?thesis
    using CollectMetrics_run [OF assms(1-3) assms(5) [folded assms(4)], of N mts]
    by (simp add: assms(4) act_simps)
qed

lemma rejected_response_loses_all_witness:
  "\<exists>w. CollectMetrics list_ns (kernel_platform [0xc1]) [asked power_ns] dcmi_plugin =
     Some (Err (UnexpectedErrorCode 0xc1), dcmi_plugin\<lparr>world := w\<rparr>)"
proof -
  have "length [0xc1 :: byte] \<le> 1024" by simp
  then obtain w where "BatchExecRaw (kernel_platform [0xc1]) dcmi_layer
      (map (\<lambda>rd. resolve (globs (world dcmi_plugin)) (Request rd)) DCMIVendor) ''node'' (world dcmi_plugin)
    = Some (Val [\<lparr>RespData = [0xc1], IsValid = 1\<rparr>], w)" by (rule dcmi_batch)
  then have "CollectMetrics list_ns (kernel_platform [0xc1]) [asked power_ns] dcmi_plugin =
     Some (Err (UnexpectedErrorCode 0xc1), dcmi_plugin\<lparr>world := w\<rparr>)"
    by (intro rejected_response_loses_all [where resps = "[]" and resps' = "[]" and descs = "[]" and descs' = "[]"
        and desc = "DCMIVendor ! 0" and resp = "\<lparr>RespData = [0xc1], IsValid = 1\<rparr>" and al = dcmi_layer and host = "''node''"])
       (simp_all add: sample_run_simps DCMIVendor_def Validate_def idx_def)
  then show ?thesis by blast
qed


section \<open>The shape of the result\<close>









section \<open>Where a metric's value comes from\<close>

text \<open>
  C11. Every advertised metric can be collected from the right place: its namespace is valid and
  parses to a key that \<open>CollectMetrics\<close> looks up in the inventory exactly for the names of
  \<open>InventoryMetrics\<close>, in the health exactly for those of \<open>HealthMetrics\<close>, and otherwise in the
  cache of a request that publishes it.
\<close>

theorem advertised_metrics_routed:
  assumes "ns_law N" and "collector_ok ic"
    and "mt \<in> set (advertised_metrics N ic)"
  shows "\<exists>key. parseName N (MetricNamespace mt) = Val key
    \<and> validateName (Strings N (MetricNamespace mt)) = Val ()
    \<and> (case metric_source key of
         FromInventory \<Rightarrow> key \<in> set InventoryMetrics
       | FromHealth \<Rightarrow> key \<in> set HealthMetrics
       | FromDevice \<Rightarrow> \<exists>host \<in> set (Hosts ic). key \<in> set (vendor_paths (lookup_or [] (Vendor ic) host)))"
proof -
  obtain key where mt: "MetricNamespace mt = makeName N key"
    and key: "(\<exists>host \<in> set (Hosts ic). key \<in> set (vendor_paths (lookup_or [] (Vendor ic) host)))
      \<or> key \<in> set InventoryMetrics \<or> key \<in> set HealthMetrics"
    using assms(3)
    by (fastforce simp: advertised_metrics_def advertise_def new_metric_def vendor_paths_def)
  have "validateName (Strings N (makeName N key)) = Val ()"
    using assms(1) by (simp add: validateName_iff makeName_def ns_law_def)
  moreover have "metric_source key = FromDevice"
    if path: "key \<in> set (vendor_paths (lookup_or [] (Vendor ic) host))" for host
  proof -
    have "selection (lookup_or [] (Vendor ic) host)" using assms(2) by (simp add: collector_ok_def)
    moreover obtain rd where "rd \<in> set (lookup_or [] (Vendor ic) host)" "key \<in> set (request_paths rd)"
      using path by (auto simp: vendor_paths_def request_paths_def)
    ultimately show ?thesis by (rule selection_device)
  qed
  ultimately show ?thesis
    using key table_sources by (auto simp: mt parse_makeName [OF assms(1)] list_all_iff)
qed

lemma advertised_metrics_routed_witness:
  "\<exists>key. parseName list_ns power_ns = Val key \<and> metric_source key = FromDevice
     \<and> key \<in> set (vendor_paths DCMIVendor)"
proof -
  let ?ic = "collector dcmi_plugin"
  have "collector_ok ?ic" by (rule dcmi_plugin_ok)
  moreover have "advertise list_ns ''node'' ''power/system/cur'' \<in> set (advertised_metrics list_ns ?ic)"
    by (auto simp: advertised_metrics_def sample_run_simps DCMIVendor_def extendPath_def)
  ultimately have "\<exists>key. parseName list_ns (MetricNamespace (advertise list_ns ''node'' ''power/system/cur'')) = Val key
    \<and> validateName (Strings list_ns (MetricNamespace (advertise list_ns ''node'' ''power/system/cur''))) = Val ()
    \<and> (case metric_source key of
         FromInventory \<Rightarrow> key \<in> set InventoryMetrics
       | FromHealth \<Rightarrow> key \<in> set HealthMetrics
       | FromDevice \<Rightarrow> \<exists>host \<in> set (Hosts ?ic). key \<in> set (vendor_paths (lookup_or [] (Vendor ?ic) host)))"
    by (rule advertised_metrics_routed [OF list_ns_law])
  moreover have "MetricNamespace (advertise list_ns ''node'' ''power/system/cur'') = power_ns"
    by (simp add: advertise_def new_metric_def makeName_def list_ns_def power_ns_def namespacePrefix_def)
  ultimately show ?thesis using power_device by (auto simp: sample_run_simps)
qed

section \<open>Collecting returns\<close>

lemma returns_map_act_in:
  "(\<And>x. x \<in> set xs \<Longrightarrow> returns J (f x)) \<Longrightarrow> returns J (map_act f xs)"
  by (induction xs) (auto intro!: returns_return returns_bind)

text \<open>
  C13. Collecting inventory and device metrics returns on every backend in working order,
  whatever its device answers: the health metrics alone scan the repository.
\<close>

theorem CollectMetrics_returns:
  assumes "Initialized (collector s)" and "IpmiLayer (collector s) = Some al"
    and "layer_ready P al (world s)"
    and "\<And>mt key. mt \<in> set mts \<Longrightarrow> parseName N (MetricNamespace mt) = Val key \<Longrightarrow>
      metric_source key \<noteq> FromHealth"
  shows "\<exists>r t. CollectMetrics N P mts s = Some (r, t) \<and> layer_ready P al (world t)"
proof -
  let ?J = "\<lambda>s. layer_ready P al (world s)"
  have metric: "returns ?J (collect_metric N P c t host mt)" if "mt \<in> set mts" for c t host mt
  proof (cases "parseName N (MetricNamespace mt)")
    case (Val key)
    then have "metric_source key \<noteq> FromHealth" using assms(4) that by blast
    then have "Contains key ''inventory/'' \<or> \<not> Contains key ''health/''"
      by (auto simp: metric_source_Contains split: if_splits)
    then show ?thesis
      by (auto simp: collect_metric_def metric_value_def Val act_simps returns_def plugin_simps)
  qed (simp_all add: collect_metric_def act_simps returns_def)
  have batch: "returns ?J (on_world (batch_loop_hosts (BatchExecRaw P al) vendor hosts []))" for vendor hosts
    by (intro returns_on_world any_layer.returns_batch_loop)
  have now: "returns ?J (\<lambda>s. Some (Val (Now P (env (world s))), s))"
    by (simp add: returns_def)
  have "returns ?J
      (bind_act (if Hosts ic = [] then return_act []
         else on_world (batch_loop_hosts (BatchExecRaw P al) (Vendor ic) (Hosts ic) []))
       (\<lambda>response. bind_act (lift_go (cache_hosts (Vendor ic) response [])) (\<lambda>responseCache.
        bind_act (\<lambda>s. Some (Val (Now P (env (world s))), s)) (\<lambda>t.
        bind_act (map_act (\<lambda>host. map_act (collect_metric N P responseCache t host) mts) (Hosts ic)) (\<lambda>metrics.
        return_act (concat metrics))))))" for ic
    by (intro returns_bind returns_If returns_return returns_lift batch now returns_map_act_in metric)
  then have "\<exists>r t. bind_act (if Hosts (collector s) = [] then return_act []
         else on_world (batch_loop_hosts (BatchExecRaw P al) (Vendor (collector s)) (Hosts (collector s)) []))
       (\<lambda>response. bind_act (lift_go (cache_hosts (Vendor (collector s)) response [])) (\<lambda>responseCache.
        bind_act (\<lambda>s. Some (Val (Now P (env (world s))), s)) (\<lambda>t.
        bind_act (map_act (\<lambda>host. map_act (collect_metric N P responseCache t host) mts) (Hosts (collector s)))
          (\<lambda>metrics. return_act (concat metrics))))) s = Some (r, t) \<and> ?J t"
    using assms(3) by (blast dest: returnsD)
  moreover have use: "bind_act (if b then m else use_layer f) k s = bind_act (if b then m else f al) k s"
    for b m k and f :: "IpmiAL \<Rightarrow> ('a plugin, (string, IpmiResponse list) gomap) act"
    using assms(2) by (cases b) (simp_all add: use_layer_def bind_act_def get_ic_def)
  ultimately show ?thesis
    using assms(1) by (simp add: CollectMetrics_def use get_ic_def bind_act_Val return_act_apply)
qed

lemma CollectMetrics_returns_witness:
  "CollectMetrics list_ns (kernel_platform power_answer) [asked power_ns] dcmi_plugin \<noteq> None"
proof -
  have "metric_source ''power/system/cur'' \<noteq> FromHealth" using power_device by simp
  then have "\<exists>r t. CollectMetrics list_ns (kernel_platform power_answer) [asked power_ns] dcmi_plugin = Some (r, t)
      \<and> layer_ready (kernel_platform power_answer) dcmi_layer (world t)"
    by (intro CollectMetrics_returns)
       (auto simp: sample_run_simps asked_def inband_world_def wf_world_def wf_init_globals)
  then show ?thesis by auto
qed

section \<open>Two broken installations\<close>

lemma install_Val:
  assumes "install P protocol al hosts s = Some (Val (), t)"
  obtains vendor w t1 where
    "GetPlatformCapabilities P al (if protocol = ''node_manager'' then GenericVendor else DCMIVendor) hosts
       ((world s)\<lparr>oobLocked := False\<rparr>) = Some (Val vendor, w)"
    "inventory_loop (ExecRaw P al) hosts (s\<lparr>world := w, collector := (collector s)\<lparr>IpmiLayer := Some al,
       Hosts := hosts, Vendor := vendor, Inventory := []\<rparr>\<rparr>) = Some (Val (), t1)"
    "t = t1\<lparr>collector := (collector t1)\<lparr>Initialized := True\<rparr>\<rparr>"
  using assms unfolding install_run bind_act_eq_Val
  by (auto simp: on_world_eq_Some modify_ic_def simp del: inventory_loop.simps)

lemma missing_local:
  "LookPath os ''ipmitool'' = None \<Longrightarrow> on_env (ExecIpmiToolLocal os req al b) s = Some (Val [], s)"
  by (simp add: on_env_def ExecIpmiToolLocal_def run_ipmitool_missing)

lemma missing_local_caps:
  assumes "LookPath os ''ipmitool'' = None"
  shows "Local_GetPlatformCapabilities os al rds hosts s = Some (Val [(Hostname os, [])], s)"
proof -
  have "local_probe os al rds acc s = Some (Val acc, s)" for acc
    by (induction rds arbitrary: acc)
       (simp_all add: act_simps missing_local [OF assms] has_data_def)
  moreover have "thermal_probe (\<lambda>req. on_env (ExecIpmiToolLocal os req al False)) s = Some (Val None, s)"
    by (simp add: thermal_probe_def act_simps missing_local [OF assms])
  ultimately show ?thesis by (simp add: Local_GetPlatformCapabilities_def act_simps)
qed

lemma missing_local_inventory:
  assumes "LookPath os ''ipmitool'' = None"
  shows "GetInventoryInfo (Local_ExecRaw os al) host s = Some (Panic SliceOutOfRange, s)"
  by (simp add: GetInventoryInfo_def exec_tail_def Local_ExecRaw_def act_simps missing_local [OF assms])

text \<open>
  C16. Without the \<open>ipmitool\<close> program the mode \<open>legacy_inband\<close> panics at initialization: every
  command is answered with nil, and the inventory cuts the completion code off it.
\<close>

theorem missing_ipmitool_panics:
  assumes "LookPath (System P) ''ipmitool'' = None" and "all_strings cfg"
    and "getMode cfg = Val ''legacy_inband''"
  shows "\<exists>t. construct P cfg s = Some (Panic SliceOutOfRange, t)"
proof -
  obtain protocol where protocol: "getProtocol cfg = Val protocol"
    unfolding getProtocol_def by (rule config_string_Val [OF assms(2)])
  obtain layer where layer: "layer_config P cfg ''legacy_inband'' = Val layer"
    and run: "\<And>s. construct P cfg s = install_case P protocol layer (s\<lparr>collector := (collector s)\<lparr>Mode := ''legacy_inband''\<rparr>\<rparr>)"
    using construct_run [OF assms(3) protocol assms(2), of P] by metis
  obtain channel slave where "layer = Some (LocalLayer \<lparr>LocalDevice = ''ipmitool'',
      LocalChannel = channel, LocalSlave = slave, LocalProtocol = protocol\<rparr>, [Hostname (System P)])"
    using layer_config_local [OF layer protocol] by metis
  then show ?thesis
    by (simp add: run install_case_def install_run act_simps plugin_simps missing_local_caps [OF assms(1)]
        missing_local_inventory [OF assms(1)])
qed

definition bare_platform :: "unit platform" where
  "bare_platform = sample_platform\<lparr>System := sample_os\<lparr>LookPath := (\<lambda>_. None)\<rparr>\<rparr>"

lemma missing_ipmitool_panics_witness:
  "\<exists>t. construct bare_platform [(''mode'', ConfigValueStr ''legacy_inband'')] sample_plugin
     = Some (Panic SliceOutOfRange, t)"
  by (rule missing_ipmitool_panics)
     (simp_all add: bare_platform_def all_strings_def getMode_def config_string_def)

text \<open>
  C15. On the kernel driver with the protocol \<open>node_manager\<close>, a successful initialization finds
  no request of the table, whatever the device answers, and every collection then panics on the
  empty batch, even one of inventory metrics only.
\<close>

theorem openipmi_node_manager_panics:
  assumes "kernel_pending (Driver P) pending" and "all_strings cfg"
    and "getMode cfg = Val ''legacy_inband_openipmi''" and "getProtocol cfg = Val ''node_manager''"
    and "construct P cfg s = Some (Val (), t)"
  shows "Vendor (collector t) = [(Hostname (System P), [])]
    \<and> CollectMetrics N P mts t = Some (Panic IndexOutOfRange, t)"
proof -
  let ?al = "\<lparr>InbandDevice = ''/dev/ipmi0'', InbandProtocol = ''node_manager''\<rparr>"
  let ?host = "Hostname (System P)"
  obtain layer where layer: "layer_config P cfg ''legacy_inband_openipmi'' = Val layer"
    and run: "\<And>s. construct P cfg s = install_case P ''node_manager'' layer
      (s\<lparr>collector := (collector s)\<lparr>Mode := ''legacy_inband_openipmi''\<rparr>\<rparr>)"
    using construct_run [OF assms(3,4,2), of P] by metis
  let ?s = "s\<lparr>collector := (collector s)\<lparr>Mode := ''legacy_inband_openipmi''\<rparr>\<rparr>"
  have "construct P cfg s = install P ''node_manager'' (InbandLayer ?al) [?host] ?s"
    by (simp add: run install_case_def layer_config_openipmi [OF layer assms(4)])
  then have "install P ''node_manager'' (InbandLayer ?al) [?host] ?s = Some (Val (), t)"
    using assms(5) by simp
  from install_Val [OF this] obtain vendor w t1 where
    caps: "Inband_GetPlatformCapabilities (Driver P) ?al GenericVendor [?host] ((world ?s)\<lparr>oobLocked := False\<rparr>)
      = Some (Val vendor, w)"
    and inv: "inventory_loop (ExecRaw P (InbandLayer ?al)) [?host]
      (?s\<lparr>world := w, collector := (collector ?s)\<lparr>IpmiLayer := Some (InbandLayer ?al), Hosts := [?host],
        Vendor := vendor, Inventory := []\<rparr>\<rparr>) = Some (Val (), t1)"
    and t: "t = t1\<lparr>collector := (collector t1)\<lparr>Initialized := True\<rparr>\<rparr>"
    unfolding GetPlatformCapabilities.simps if_P [OF refl] by metis
  have "3 < length GenericVendor" by (simp add: GenericVendor_def)
  then have vendor: "vendor = [(?host, [])]"
    using inband_nm_caps [OF assms(1) _ GenericVendor_good _ caps] by simp
  have "preserves (\<lambda>s. Vendor (collector s) = vendor \<and> Hosts (collector s) = [?host]
      \<and> IpmiLayer (collector s) = Some (InbandLayer ?al)) (inventory_loop (ExecRaw P (InbandLayer ?al)) [?host])"
    by (rule inventory_loop_keeps [where Q = "\<lambda>ic. Vendor ic = vendor \<and> Hosts ic = [?host]
      \<and> IpmiLayer ic = Some (InbandLayer ?al)"]) simp
  from preservesD [OF this _ inv]
  have ic: "Initialized (collector t)" "Vendor (collector t) = [(?host, [])]" "Hosts (collector t) = [?host]"
    "IpmiLayer (collector t) = Some (InbandLayer ?al)"
    by (simp_all add: t vendor)
  have "batch_loop_hosts (BatchExecRaw P (InbandLayer ?al)) [(?host, [])] [?host] [] (world t)
      = Some (Panic IndexOutOfRange, world t)"
    by (simp add: act_simps lookup_or_def Inband_Batch_Nil)
  then have "CollectMetrics N P mts t = Some (Panic IndexOutOfRange, t)"
    by (simp add: CollectMetrics_def use_layer_def ic act_simps plugin_simps del: batch_loop_hosts.simps)
  with ic(2) show ?thesis by blast
qed

definition node_manager_config :: config where
  "node_manager_config = [(''mode'', ConfigValueStr ''legacy_inband_openipmi''),
     (''protocol'', ConfigValueStr ''node_manager'')]"

declare fru_loop.simps [code]

lemma node_manager_value:
  "(case construct (kernel_platform [0, 0, 0, 0]) node_manager_config \<lparr>collector = New, world = inband_world\<rparr> of
      Some (Val (), t) \<Rightarrow> True | _ \<Rightarrow> False)"
  by code_simp

lemma openipmi_node_manager_panics_witness:
  "\<exists>t. construct (kernel_platform [0, 0, 0, 0]) node_manager_config \<lparr>collector = New, world = inband_world\<rparr>
       = Some (Val (), t)
     \<and> CollectMetrics list_ns (kernel_platform [0, 0, 0, 0]) [asked power_ns] t = Some (Panic IndexOutOfRange, t)"
proof -
  have pending: "kernel_pending (Driver (kernel_platform [0, 0, 0, 0])) length"
    by (simp add: kernel_platform_def uniform_kernel_pending)
  have cfg: "all_strings node_manager_config" "getMode node_manager_config = Val ''legacy_inband_openipmi''"
    "getProtocol node_manager_config = Val ''node_manager''"
    by (simp_all add: node_manager_config_def all_strings_def config_readers config_string_def)
  obtain t where run: "construct (kernel_platform [0, 0, 0, 0]) node_manager_config
      \<lparr>collector = New, world = inband_world\<rparr> = Some (Val (), t)"
    using node_manager_value by (auto split: option.splits go.splits)
  from openipmi_node_manager_panics [OF pending cfg this, of list_ns "[asked power_ns]"] run
  show ?thesis by blast
qed

end
