(* ===== verification/Collector_Device.thy ===== *)
theory Collector_Device
  imports Collector_Metrics
begin

text \<open>
  The kernel-driver mode with the protocol \<open>dcmi\<close>, from the configuration to the published value:
  what \<open>construct\<close> leaves in the collector when the device answers, and what \<open>CollectMetrics\<close> then
  reads. The inventory in between reads through the same backend and writes the package state, of
  which it leaves the bytes of the thermal request alone (\<open>thermal_is\<close>).
\<close>

section \<open>The inventory keeps the thermal request\<close>

definition thermal_is :: "byte list \<Rightarrow> 'w world \<Rightarrow> bool" where
  "thermal_is d s \<longleftrightarrow> wf_world s \<and> dcmiThermalData (globs s) = d"

lemma thermal_is_env: "thermal_is d s \<Longrightarrow> thermal_is d (s\<lparr>env := w\<rparr>)"
  by (simp add: thermal_is_def)

lemma returns_finish_call_thermal: "returns (thermal_is d) (finish_call f)"
  unfolding returns_def using finish_call_env [of f] by (metis thermal_is_env)

lemma returns_Inband_ExecRaw_thermal: "returns (thermal_is d) (Inband_ExecRaw K al req host)"
  unfolding Inband_ExecRaw_def
  by (intro returns_bind returns_lift returns_finish_call_thermal)

interpretation thermal_fru: fru_backend "Inband_ExecRaw K al" "thermal_is d"
  for K :: "'w kernel" and al and d
  by unfold_locales (simp_all add: returns_Inband_ExecRaw_thermal thermal_is_def wf_world_fru)

lemma inventory_thermal:
  assumes "inventory_loop (Inband_ExecRaw K al) hosts s = Some (r, t)" and "thermal_is d (world s)"
  shows "thermal_is d (world t)"
  using returnsD [OF thermal_fru.returns_inventory_loop [of d K al hosts], of s] assms by auto

section \<open>The initialized collector\<close>

definition dcmi_table :: "(ipmi_addr \<Rightarrow> byte list \<Rightarrow> byte list) \<Rightarrow> globals \<Rightarrow> RequestDescription list" where
  \<comment> \<open>the requests of a device: its power, and its inlet sensor if it names one\<close>
  "dcmi_table ans g =
     DCMIVendor @ (if thermal_sensor (ans SystemInterfaceAddr) g = None then [] else [DcmiThermal])"

definition thermal_request :: "(ipmi_addr \<Rightarrow> byte list \<Rightarrow> byte list) \<Rightarrow> globals \<Rightarrow> byte list" where
  \<comment> \<open>the bytes of \<open>dcmiThermalData\<close> behind the probe\<close>
  "thermal_request ans g =
     (case thermal_sensor (ans SystemInterfaceAddr) g of
        None \<Rightarrow> dcmiThermalData g | Some b \<Rightarrow> (dcmiThermalData g)[2 := b])"

lemma dcmi_table_selection: "selection (dcmi_table ans g)"
  using dcmi_selection by (simp add: dcmi_table_def)

lemma DCMIVendor_good: "\<forall>rd \<in> set DCMIVendor. good_request (resolve g (Request rd))"
  by (simp add: DCMIVendor_def good_request_def resolve_def request_def)

lemma dcmi_install:
  assumes "answering_kernel (Driver P) queue ans" and "wf_world (world s)"
    and "InbandProtocol al = ''dcmi''"
    and "install P ''dcmi'' (InbandLayer al) [host] s = Some (Val (), t)"
  shows "Initialized (collector t)" and "IpmiLayer (collector t) = Some (InbandLayer al)"
    and "Hosts (collector t) = [host]" and "Vendor (collector t) = [(host, dcmi_table ans (globs (world s)))]"
    and "thermal_is (thermal_request ans (globs (world s))) (world t)"
proof -
  obtain vendor w t1 where
    caps: "GetPlatformCapabilities P (InbandLayer al) (if ''dcmi'' = ''node_manager'' then GenericVendor else DCMIVendor)
      [host] ((world s)\<lparr>oobLocked := False\<rparr>) = Some (Val vendor, w)"
    and inv: "inventory_loop (ExecRaw P (InbandLayer al)) [host]
      (s\<lparr>world := w, collector := (collector s)\<lparr>IpmiLayer := Some (InbandLayer al), Hosts := [host],
        Vendor := vendor, Inventory := []\<rparr>\<rparr>) = Some (Val (), t1)"
    and t: "t = t1\<lparr>collector := (collector t1)\<lparr>Initialized := True\<rparr>\<rparr>"
    using assms(4) by (rule install_Val)
  have wf: "wf_world ((world s)\<lparr>oobLocked := False\<rparr>)" using assms(2) by (simp add: wf_world_def)
  have table: "DCMIVendor \<noteq> []" "length DCMIVendor \<le> 3" by (simp_all add: DCMIVendor_def)
  have "Inband_GetPlatformCapabilities (Driver P) al DCMIVendor [host] ((world s)\<lparr>oobLocked := False\<rparr>)
      = Some (Val vendor, w)"
    using caps by simp
  with inband_dcmi_caps [OF assms(1) wf assms(3) DCMIVendor_good table, of host "[]"]
  have vendor: "vendor = [(host, dcmi_table ans (globs (world s)))]"
    and w: "thermal_is (thermal_request ans (globs (world s))) w"
    using assms(2)
    by (auto simp: dcmi_table_def thermal_request_def thermal_is_def wf_world_def wf_globals_def
        split: option.splits)
  have "preserves (\<lambda>s. Vendor (collector s) = vendor \<and> Hosts (collector s) = [host]
      \<and> IpmiLayer (collector s) = Some (InbandLayer al)) (inventory_loop (ExecRaw P (InbandLayer al)) [host])"
    by (rule inventory_loop_keeps [where Q = "\<lambda>ic. Vendor ic = vendor \<and> Hosts ic = [host]
      \<and> IpmiLayer ic = Some (InbandLayer al)"]) simp
  from preservesD [OF this _ inv]
  show "Initialized (collector t)" "IpmiLayer (collector t) = Some (InbandLayer al)"
    "Hosts (collector t) = [host]" "Vendor (collector t) = [(host, dcmi_table ans (globs (world s)))]"
    by (simp_all add: t vendor)
  have "thermal_is (thermal_request ans (globs (world s))) (world t1)"
    by (rule inventory_thermal [OF inv [unfolded ExecRaw.simps]]) (simp add: w)
  then show "thermal_is (thermal_request ans (globs (world s))) (world t)" by (simp add: t)
qed

lemma dcmi_construct:
  assumes "all_strings cfg" and "getMode cfg = Val ''legacy_inband_openipmi''" and "getProtocol cfg = Val ''dcmi''"
  shows "construct P cfg s = install P ''dcmi'' (InbandLayer \<lparr>InbandDevice = ''/dev/ipmi0'', InbandProtocol = ''dcmi''\<rparr>)
    [Hostname (System P)] (s\<lparr>collector := (collector s)\<lparr>Mode := ''legacy_inband_openipmi''\<rparr>\<rparr>)"
proof -
  obtain layer where layer: "layer_config P cfg ''legacy_inband_openipmi'' = Val layer"
    and run: "\<And>s. construct P cfg s = install_case P ''dcmi'' layer
      (s\<lparr>collector := (collector s)\<lparr>Mode := ''legacy_inband_openipmi''\<rparr>\<rparr>)"
    using construct_run [OF assms(2,3,1), of P] by metis
  show ?thesis by (simp add: run install_case_def layer_config_openipmi [OF layer assms(3)])
qed

section \<open>From the device to the metric\<close>

definition dcmi_wire :: "(ipmi_addr \<Rightarrow> byte list \<Rightarrow> byte list) \<Rightarrow> globals \<Rightarrow> RequestDescription \<Rightarrow> byte list" where
  \<comment> \<open>what the device answers to a request of the table\<close>
  "dcmi_wire ans g rd = ans SystemInterfaceAddr
     (case Request rd of Owned req \<Rightarrow> ReqData req | SharedThermal \<Rightarrow> thermal_request ans g)"

lemma dcmi_wire_resolve:
  "thermal_is (thermal_request ans g) s \<Longrightarrow>
     ans SystemInterfaceAddr (ReqData (resolve (globs s) (Request rd))) = dcmi_wire ans g rd"
  by (simp add: thermal_is_def dcmi_wire_def resolve_def request_def split: request_ref.splits)

lemma dcmi_table_good:
  assumes "wf_world s"
  shows "\<forall>rd \<in> set (dcmi_table ans g). good_request (resolve (globs s) (Request rd))"
  using assms DCMIVendor_good [of "globs s"]
  by (auto simp: dcmi_table_def DcmiThermal_def good_request_def resolve_def request_def wf_world_def wf_globals_def)

lemma dcmi_table_length: "dcmi_table ans g \<noteq> []" "length (dcmi_table ans g) \<le> 3"
  by (simp_all add: dcmi_table_def DCMIVendor_def)

lemma dcmi_batch_wire:
  assumes "answering_kernel (Driver P) queue ans" and "thermal_is (thermal_request ans g) s"
    and "InbandProtocol al \<noteq> ''node_manager''"
  shows "\<exists>w. BatchExecRaw P (InbandLayer al) (map (\<lambda>rd. resolve (globs s) (Request rd)) (dcmi_table ans g)) host s
    = Some (Val (map (\<lambda>rd. \<lparr>RespData = dcmi_wire ans g rd, IsValid = 1\<rparr>) (dcmi_table ans g)), s\<lparr>env := w\<rparr>)"
proof -
  let ?reqs = "map (\<lambda>rd. resolve (globs s) (Request rd)) (dcmi_table ans g)"
  have wf: "wf_world s" using assms(2) by (simp add: thermal_is_def)
  have good: "\<forall>r \<in> set ?reqs. good_request r" using dcmi_table_good [OF wf] by auto
  have len: "?reqs \<noteq> []" "length ?reqs \<le> 3" using dcmi_table_length by auto
  from Inband_Batch_answers [OF assms(1) good len assms(3), of host s]
  show ?thesis by (auto simp: comp_def dcmi_wire_resolve [OF assms(2)])
qed

text \<open>
  C1. The whole way in the mode \<open>legacy_inband_openipmi\<close> with the protocol \<open>dcmi\<close>, for a device
  that answers: a successful initialization finds the system's power and, if the device names one,
  the inlet sensor; if the device then answers these requests completely and without an error
  code, collecting a metric of either gives the value that the wire layout assigns to the answer.
\<close>

theorem dcmi_end_to_end:
  assumes "answering_kernel (Driver P) queue ans" and "ns_law N" and "wf_world (world s)"
    and "all_strings cfg" and "getMode cfg = Val ''legacy_inband_openipmi''" and "getProtocol cfg = Val ''dcmi''"
    and "construct P cfg s = Some (Val (), t)"
    and "g = globs (world s)"
    and "\<And>rd. rd \<in> set (dcmi_table ans g) \<Longrightarrow>
      dcmi_wire ans g rd ! 0 = 0 \<and> full_length (Format rd) \<le> length (dcmi_wire ans g rd)"
    and "rd \<in> set (dcmi_table ans g)" and "(k, fld) \<in> set (layout (Format rd))"
    and "MetricNamespace mt = makeName N (extendPath (MetricsRoot rd) k)"
  shows "\<exists>w. CollectMetrics N P [mt] t =
    Some (Val [new_metric (MetricNamespace mt) (Hostname (System P)) (Now P w)
      (Uint16Data (decode_field (dcmi_wire ans g rd) fld))], t\<lparr>world := (world t)\<lparr>env := w\<rparr>\<rparr>)"
proof -
  let ?host = "Hostname (System P)"
  let ?al = "\<lparr>InbandDevice = ''/dev/ipmi0'', InbandProtocol = ''dcmi''\<rparr>"
  let ?descs = "dcmi_table ans g"
  let ?s = "s\<lparr>collector := (collector s)\<lparr>Mode := ''legacy_inband_openipmi''\<rparr>\<rparr>"
  have "wf_world (world ?s)" "InbandProtocol ?al = ''dcmi''" using assms(3) by simp_all
  moreover have "install P ''dcmi'' (InbandLayer ?al) [?host] ?s = Some (Val (), t)"
    using assms(7) by (simp add: dcmi_construct [OF assms(4-6)])
  ultimately have ic: "Initialized (collector t)" "IpmiLayer (collector t) = Some (InbandLayer ?al)"
    "Hosts (collector t) = [?host]" "Vendor (collector t) = [(?host, ?descs)]"
    and kept: "thermal_is (thermal_request ans g) (world t)"
    using dcmi_install [OF assms(1), of ?s ?al ?host t] by (simp_all add: assms(8))
  have "InbandProtocol ?al \<noteq> ''node_manager''" by simp
  from dcmi_batch_wire [OF assms(1) kept this] obtain w where
    w: "BatchExecRaw P (InbandLayer ?al) (map (\<lambda>rd. resolve (globs (world t)) (Request rd)) ?descs) ?host (world t)
      = Some (Val (map (\<lambda>rd. \<lparr>RespData = dcmi_wire ans g rd, IsValid = 1\<rparr>) ?descs), (world t)\<lparr>env := w\<rparr>)"
    by blast
  obtain i where i: "i < length ?descs" "?descs ! i = rd"
    using assms(10) by (auto simp: in_set_conv_nth)
  let ?resps = "map (\<lambda>rd. \<lparr>RespData = dcmi_wire ans g rd, IsValid = 1\<rparr>) ?descs"
  have descs: "?descs = lookup_or [] (Vendor (collector t)) ?host" by (simp add: ic(4) lookup_or_def)
  have complete: "IsValid (?resps ! j) = 1 \<and> RespData (?resps ! j) ! 0 = 0
      \<and> full_length (Format (?descs ! j)) \<le> length (RespData (?resps ! j))" if "j < length ?descs" for j
    using assms(9) [OF nth_mem [OF that]] that by simp
  have "CollectMetrics N P [mt] t =
    Some (Val [new_metric (MetricNamespace mt) ?host (Now P (env ((world t)\<lparr>env := w\<rparr>)))
      (Uint16Data (decode_field (RespData (?resps ! i)) fld))], t\<lparr>world := (world t)\<lparr>env := w\<rparr>\<rparr>)"
    by (rule collected_selection [OF assms(2) ic(1-3) descs dcmi_table_selection w _ complete i(1)])
       (simp_all add: i(2) assms(11,12))
  then show ?thesis using i by auto
qed

definition inlet_answer :: "ipmi_addr \<Rightarrow> byte list \<Rightarrow> byte list" where
  \<comment> \<open>a device of 300 watts whose inlet sensor has the number 9 and reads 23, without an inventory\<close>
  "inlet_answer a bs =
     (if bs = [0x4, 0x2d, 9] then [0, 23, 0]
      else if take 2 bs = [0x2c, 2] then power_answer
      else if take 2 bs = [0xa, 0x10] then [0, 0, 0, 0]
      else thermal_answer a bs)"

definition inlet_platform :: "(nat \<times> byte list) list platform" where
  "inlet_platform = (kernel_platform [])\<lparr>Driver := sample_kernel\<lparr>k_send :=
     (\<lambda>a m f c ds k. (True, (m, inlet_answer a (f # c # ds)) # k))\<rparr>\<rparr>"

lemma inlet_platform_answers: "answering_kernel (Driver inlet_platform) mset inlet_answer"
  by (auto simp: answering_kernel_def inlet_platform_def sample_kernel_def inlet_answer_def power_answer_def
      thermal_answer_def neq_Nil_conv)

definition dcmi_config :: config where
  "dcmi_config = [(''mode'', ConfigValueStr ''legacy_inband_openipmi''), (''protocol'', ConfigValueStr ''dcmi'')]"

lemma inlet_construct_value:
  "(case construct inlet_platform dcmi_config \<lparr>collector = New, world = inband_world\<rparr> of
      Some (Val (), t) \<Rightarrow> True | _ \<Rightarrow> False)"
  by code_simp

lemma inlet_wire:
  "thermal_sensor (inlet_answer SystemInterfaceAddr) init_globals = Some 9"
  "dcmi_wire inlet_answer init_globals DcmiThermal = [0, 23, 0]"
  "dcmi_wire inlet_answer init_globals (DCMIVendor ! 0) = power_answer"
  by code_simp+

lemma dcmi_end_to_end_witness:
  "\<exists>t w. construct inlet_platform dcmi_config \<lparr>collector = New, world = inband_world\<rparr> = Some (Val (), t)
     \<and> CollectMetrics list_ns inlet_platform [asked [''intel'', ''dcm'', ''thermal'', ''inlet'', ''cur'']] t
       = Some (Val [new_metric [''intel'', ''dcm'', ''thermal'', ''inlet'', ''cur''] ''node'' 0 (Uint16Data 23)],
           t\<lparr>world := (world t)\<lparr>env := w\<rparr>\<rparr>)"
proof -
  let ?ns = "[''intel'', ''dcm'', ''thermal'', ''inlet'', ''cur'']"
  let ?s = "\<lparr>collector = New, world = inband_world\<rparr>"
  obtain t where run: "construct inlet_platform dcmi_config ?s = Some (Val (), t)"
    using inlet_construct_value by (auto split: option.splits go.splits)
  have globs: "init_globals = globs (world ?s)" by (simp add: inband_world_def)
  have table: "dcmi_table inlet_answer init_globals = [DCMIVendor ! 0, DcmiThermal]"
    by (simp add: dcmi_table_def inlet_wire(1) DCMIVendor_def)
  have formats: "Format (DCMIVendor ! 0) = FormatDCMIPower" "Format DcmiThermal = FormatSensorReading"
    by (simp_all add: DCMIVendor_def DcmiThermal_def)
  have cfg: "all_strings dcmi_config" "getMode dcmi_config = Val ''legacy_inband_openipmi''"
    "getProtocol dcmi_config = Val ''dcmi''"
    by (simp_all add: dcmi_config_def all_strings_def config_readers config_string_def)
  have wf: "wf_world (world ?s)" by (simp add: wf_world_def inband_world_def wf_init_globals)
  have complete: "dcmi_wire inlet_answer init_globals rd ! 0 = 0 \<and>
      full_length (Format rd) \<le> length (dcmi_wire inlet_answer init_globals rd)"
    if "rd \<in> set (dcmi_table inlet_answer init_globals)" for rd
    using that by (auto simp: table inlet_wire(2,3) formats power_answer_def)
  have "\<exists>w. CollectMetrics list_ns inlet_platform [asked ?ns] t =
    Some (Val [new_metric (MetricNamespace (asked ?ns)) (Hostname (System inlet_platform)) (Now inlet_platform w)
      (Uint16Data (decode_field (dcmi_wire inlet_answer init_globals DcmiThermal) (Byte 1)))],
      t\<lparr>world := (world t)\<lparr>env := w\<rparr>\<rparr>)"
    by (rule dcmi_end_to_end [OF inlet_platform_answers list_ns_law wf cfg run globs complete, where k = "''cur''"])
       (simp_all add: table formats asked_def DcmiThermal_def makeName_def list_ns_def extendPath_def
         namespacePrefix_def)
  with run show ?thesis
    by (auto simp: inlet_wire(2) asked_def inlet_platform_def kernel_platform_def)
qed

end
