(* ===== verification/Collector_Session.thy ===== *)
theory Collector_Session
  imports Collector_Device
begin

text \<open>
  Sessions: the framework calls the collector any number of times, and between two calls the world
  outside the plugin changes in any way. \<open>session\<close> relates the states before and after a list of
  calls that all return, with a value, an error or a panic that is recovered; its properties are by
  rule induction.
\<close>

section \<open>What a call keeps\<close>

definition same_setup :: "IpmiCollector \<Rightarrow> 'w plugin \<Rightarrow> bool" where
  \<comment> \<open>all fields but the component health are those of \<open>ic\<close>\<close>
  "same_setup ic s \<longleftrightarrow> collector s = ic\<lparr>ComponentHealth := ComponentHealth (collector s)\<rparr>"

lemma same_setup_refl [simp]: "same_setup (collector s) s"
  by (simp add: same_setup_def)

lemma same_setup_health: "same_setup ic s \<Longrightarrow> same_setup ic (s\<lparr>collector := (collector s)\<lparr>ComponentHealth := h\<rparr>\<rparr>)"
  by (cases ic; cases "collector s") (simp add: same_setup_def)

lemma same_setup_world: "same_setup ic s \<Longrightarrow> same_setup ic (s\<lparr>world := w\<rparr>)"
  by (simp add: same_setup_def)

lemma same_setup_fields:
  assumes "same_setup ic s"
  shows "Initialized (collector s) = Initialized ic" and "IpmiLayer (collector s) = IpmiLayer ic"
proof -
  have "collector s = ic\<lparr>ComponentHealth := ComponentHealth (collector s)\<rparr>"
    using assms by (simp add: same_setup_def)
  from arg_cong [OF this, of Initialized] arg_cong [OF this, of IpmiLayer]
  show "Initialized (collector s) = Initialized ic" and "IpmiLayer (collector s) = IpmiLayer ic" by simp_all
qed

lemma health_loop_setup: "preserves (same_setup ic) (health_loop exec hosts)"
  by (induction hosts)
     (auto intro!: preserves_intros preserves_on_world preserves_modify_ic same_setup_world same_setup_health)

lemma metric_value_setup: "preserves (same_setup ic) (metric_value P responseCache host key)"
  unfolding metric_value_def
  by (intro preserves_intros preserves_modify_ic health_loop_setup same_setup_health)

lemma CollectMetrics_setup:
  assumes "Initialized (collector s)" and "CollectMetrics N P mts s = Some (r, t)"
  shows "same_setup (collector s) t"
proof -
  let ?rest = "bind_act get_ic (\<lambda>ic.
     bind_act (if Hosts ic = [] then return_act []
               else use_layer (\<lambda>al. on_world (batch_loop_hosts (BatchExecRaw P al) (Vendor ic) (Hosts ic) [])))
       (\<lambda>response.
     bind_act (lift_go (cache_hosts (Vendor ic) response [])) (\<lambda>responseCache.
     bind_act (\<lambda>s. Some (Val (Now P (env (world s))), s)) (\<lambda>now.
     bind_act (map_act (\<lambda>host. map_act (collect_metric N P responseCache now host) mts) (Hosts ic)) (\<lambda>metrics.
     return_act (concat metrics))))))"
  have "preserves (same_setup (collector s)) (\<lambda>s. Some (Val (Now P (env (world s))), s))"
    by (simp add: preserves_def)
  then have keeps: "preserves (same_setup (collector s)) ?rest"
    unfolding collect_metric_def
    by (intro preserves_intros preserves_on_world metric_value_setup same_setup_world)
  have run: "?rest s = Some (r, t)"
  proof -
    have start: "bind_act get_ic f s = f (collector s) s" for f :: "IpmiCollector \<Rightarrow> ('a plugin, 'b MetricType list) act"
      by (simp add: get_ic_def bind_act_Val)
    show ?thesis
      using assms(2) unfolding CollectMetrics_def
      by (subst (asm) start) (simp only: assms(1) not_True_eq_False if_False bind_return_act)
  qed
  show ?thesis by (rule preservesD [OF keeps _ run]) simp
qed

abbreviation ready :: "'w plugin \<Rightarrow> bool" where
  "ready s \<equiv> Initialized (collector s) \<and> IpmiLayer (collector s) \<noteq> None"

lemma install_ready: "preserves ready (install P protocol al hosts)"
  unfolding install_def
  by (intro preserves_bind preserves_modify_ic preserves_on_world
      inventory_loop_keeps [where Q = "\<lambda>ic. Initialized ic \<and> IpmiLayer ic \<noteq> None"]) simp_all

lemma construct_ready: "preserves ready (construct P cfg)"
  unfolding construct_def
  by (intro preserves_bind_lift preserves_bind [OF preserves_modify_ic] preserves_case_layer preserves_return
      install_ready) simp_all

lemma GetMetricTypes_ready: "preserves ready (GetMetricTypes N P cfg)"
  unfolding GetMetricTypes_def
  by (intro preserves_bind_lift preserves_bind [OF construct_ready])
     (auto simp: preserves_def act_simps plugin_simps split: if_splits)

section \<open>Sessions\<close>

datatype 'n call = ListMetrics config | Collect "'n MetricType list"

primrec is_collect :: "'n call \<Rightarrow> bool" where
  "is_collect (ListMetrics cfg) = False"
| "is_collect (Collect mts) = True"

inductive session :: "'n ns_api \<Rightarrow> 'w platform \<Rightarrow> 'w plugin \<Rightarrow> 'n call list \<Rightarrow> 'w plugin \<Rightarrow> bool"
  for N :: "'n ns_api" and P :: "'w platform" and s :: "'w plugin" where
  begin_session: "session N P s [] s"
| outside: "session N P s cs t \<Longrightarrow> session N P s cs (t\<lparr>world := (world t)\<lparr>env := w\<rparr>\<rparr>)"
| list_call: "session N P s cs t \<Longrightarrow> GetMetricTypes N P cfg t = Some (r, u) \<Longrightarrow>
    session N P s (cs @ [ListMetrics cfg]) u"
| collect_call: "session N P s cs t \<Longrightarrow> CollectMetrics N P mts t = Some (r, u) \<Longrightarrow>
    session N P s (cs @ [Collect mts]) u"

lemma session_ok:
  assumes "session N P s cs t" and "fair_scheduler (Sched P)" and "plugin_ok s"
  shows "plugin_ok t"
  using assms(1)
proof (induction rule: session.induct)
  case (list_call cs t cfg r u)
  show ?case by (rule preservesD [OF GetMetricTypes_ok [OF assms(2)] list_call.IH list_call.hyps(2)])
next
  case (collect_call cs t mts r u)
  show ?case by (rule preservesD [OF CollectMetrics_ok [OF assms(2)] collect_call.IH collect_call.hyps(2)])
qed (use assms(3) in simp_all)

lemma session_ready:
  assumes "session N P s cs t" and "ready s"
  shows "ready t"
  using assms(1)
proof (induction rule: session.induct)
  case (list_call cs t cfg r u)
  show ?case by (rule preservesD [OF GetMetricTypes_ready list_call.IH list_call.hyps(2)])
next
  case (collect_call cs t mts r u)
  then show ?case using CollectMetrics_setup [of t N P mts r u] by (auto dest: same_setup_fields)
qed (use assms(2) in simp_all)

lemma same_setup_trans: "same_setup ic s \<Longrightarrow> same_setup (collector s) t \<Longrightarrow> same_setup ic t"
  unfolding same_setup_def by (metis IpmiCollector.update_convs(8) IpmiCollector.surjective)

lemma session_setup:
  assumes "session N P s cs t" and "ready s" and "list_all is_collect cs"
  shows "same_setup (collector s) t"
  using assms(1,3)
proof (induction rule: session.induct)
  case (outside cs t w)
  then show ?case by (intro same_setup_world) simp
next
  case (collect_call cs t mts r u)
  have "Initialized (collector t)" using session_ready [OF collect_call.hyps(1) assms(2)] by simp
  then have "same_setup (collector t) u" using collect_call.hyps(2) by (rule CollectMetrics_setup)
  moreover have "same_setup (collector s) t" using collect_call by simp
  ultimately show ?case by (blast intro: same_setup_trans)
qed simp_all

text \<open>
  C9. Sessions from a new collector. Whatever is called, in any order, with any configurations and
  outcomes, and however the world changes in between: the collector satisfies its invariant; once a
  call has initialized it, it stays initialized and keeps a backend; and as long as metrics are only
  collected after that, nothing in it changes but the component health, so neither a configuration
  that comes with the metrics nor a changed machine is noticed.
\<close>

theorem session_keeps_setup:
  assumes "fair_scheduler (Sched P)" and "collector s = New" and "session N P s cs t"
    and "Initialized (collector t)" and "session N P t cs' u"
  shows "collector_ok (collector t) \<and> collector_ok (collector u)
    \<and> Initialized (collector u) \<and> IpmiLayer (collector u) \<noteq> None
    \<and> (list_all is_collect cs' \<longrightarrow>
         collector u = (collector t)\<lparr>ComponentHealth := ComponentHealth (collector u)\<rparr>)"
proof -
  have new: "plugin_ok s"
    using assms(2) by (simp add: collector_ok_def wf_collector_def New_def lookup_or_def)
  have t: "plugin_ok t" by (rule session_ok [OF assms(3,1) new])
  have "ready t" using t assms(4) by (simp add: collector_ok_def wf_collector_def)
  then show ?thesis
    using t session_ok [OF assms(5,1) t] session_ready [OF assms(5)] session_setup [OF assms(5)]
    by (simp add: same_setup_def)
qed

lemma sample_session_value:
  "(case GetMetricTypes list_ns inlet_platform dcmi_config \<lparr>collector = New, world = inband_world\<rparr> of
      Some (Val ms, t) \<Rightarrow> Initialized (collector t) \<and>
        (case CollectMetrics list_ns inlet_platform [asked power_ns] t of
           Some (Val ms, u) \<Rightarrow> True | _ \<Rightarrow> False)
    | _ \<Rightarrow> False)"
  by code_simp

lemma session_keeps_setup_witness:
  "\<exists>t u. session list_ns inlet_platform \<lparr>collector = New, world = inband_world\<rparr> [ListMetrics dcmi_config] t
     \<and> session list_ns inlet_platform t [Collect [asked power_ns]] u
     \<and> collector u = (collector t)\<lparr>ComponentHealth := ComponentHealth (collector u)\<rparr>"
proof -
  let ?s = "\<lparr>collector = New, world = inband_world\<rparr>"
  obtain r t where run: "GetMetricTypes list_ns inlet_platform dcmi_config ?s = Some (r, t)"
    using sample_session_value
    by (cases "GetMetricTypes list_ns inlet_platform dcmi_config ?s") auto
  obtain ms where r: "r = Val ms" using sample_session_value by (cases r) (simp_all add: run)
  note t = run [unfolded r]
  have inner: "Initialized (collector t)"
    "(case CollectMetrics list_ns inlet_platform [asked power_ns] t of Some (Val ms, u) \<Rightarrow> True | _ \<Rightarrow> False)"
    using sample_session_value by (simp_all add: t)
  obtain r' u where u: "CollectMetrics list_ns inlet_platform [asked power_ns] t = Some (r', u)"
    using inner(2) by (cases "CollectMetrics list_ns inlet_platform [asked power_ns] t") auto
  have st: "session list_ns inlet_platform ?s [ListMetrics dcmi_config] t"
    using list_call [OF begin_session t] by simp
  have tu: "session list_ns inlet_platform t [Collect [asked power_ns]] u"
    using collect_call [OF begin_session u] by simp
  have "fair_scheduler (Sched inlet_platform)"
    by (auto simp: inlet_platform_def kernel_platform_def fair_scheduler_def schedule_def)
  from session_keeps_setup [OF this _ st inner(1) tu] st tu show ?thesis by auto
qed

end
