(* ===== verification/Collector_Ipmitool.thy ===== *)
theory Collector_Ipmitool
  imports Collector_Metrics
begin

text \<open>
  The two backends that run \<open>ipmitool\<close>, from what the program prints to the published value. The
  device behind it is a function \<open>device\<close> from the bytes of a command to the bytes printed; the
  completion code is not printed, and reading the output puts a zero in its place.
\<close>

section \<open>A batch\<close>

primrec tool_args :: "IpmiAL \<Rightarrow> string \<Rightarrow> byte list \<Rightarrow> string list" where
  \<comment> \<open>the command line of a request in a batch\<close>
  "tool_args (LocalLayer al) host req = local_args req al True"
| "tool_args (OobLayer al) host req = remote_args req al host True"
| "tool_args (InbandLayer al) host req = []"

definition prints :: "'w os \<Rightarrow> string list \<Rightarrow> byte list \<Rightarrow> bool" where
  \<comment> \<open>\<open>ipmitool\<close> is found, and with these arguments it always prints these bytes\<close>
  "prints os args bs \<longleftrightarrow> (\<exists>c. LookPath os ''ipmitool'' = Some c \<and>
     (\<forall>w. \<exists>w'. RunCommand os c args w = (Some (print_bytes 0 bs), w')))"

lemma run_prints:
  assumes "prints os args bs" and "bs \<noteq> []"
  shows "fst (run_ipmitool os args w) = 0 # bs"
proof -
  obtain b bs' where bs: "bs = b # bs'" using assms(2) by (cases bs) auto
  obtain c w' where "LookPath os ''ipmitool'' = Some c" "RunCommand os c args w = (Some (print_bytes 0 bs), w')"
    using assms(1) unfolding prints_def by metis
  then show ?thesis
    by (simp add: run_ipmitool_ok parse_output_print_eq bs del: print_bytes.simps)
qed

lemma local_batch_prints:
  assumes "\<And>r. r \<in> set requests \<Longrightarrow>
    prints os (local_args (ReqData r) al True) (device (ReqData r)) \<and> device (ReqData r) \<noteq> []"
  shows "\<exists>w. Local_BatchExecRaw os al requests host s =
    Some (Val (map (\<lambda>r. \<lparr>RespData = 0 # device (ReqData r), IsValid = 1\<rparr>) requests), s\<lparr>env := w\<rparr>)"
  using assms
proof (induction requests arbitrary: s)
  case Nil
  show ?case by (intro exI [of _ "env s"]) (simp add: Local_BatchExecRaw_def act_simps)
next
  case (Cons r requests)
  let ?run = "ExecIpmiToolLocal os (ReqData r) al True (env s)"
  have "fst ?run = 0 # device (ReqData r)"
    unfolding ExecIpmiToolLocal_def by (rule run_prints) (use Cons.prems in auto)
  then obtain w where run: "?run = (0 # device (ReqData r), w)" by (metis prod.collapse)
  obtain w' where "Local_BatchExecRaw os al requests host (s\<lparr>env := w\<rparr>) =
    Some (Val (map (\<lambda>r. \<lparr>RespData = 0 # device (ReqData r), IsValid = 1\<rparr>) requests), (s\<lparr>env := w\<rparr>)\<lparr>env := w'\<rparr>)"
    using Cons.IH [of "s\<lparr>env := w\<rparr>"] Cons.prems by (metis list.set_intros(2))
  with run show ?case
    by (intro exI [of _ w']) (simp add: Local_BatchExecRaw_def act_simps)
qed

lemma oob_batch_prints:
  assumes "fair_scheduler sched" and "\<not> oobLocked s"
    and "\<And>r. r \<in> set requests \<Longrightarrow>
      prints os (remote_args (ReqData r) al host True) (device (ReqData r)) \<and> device (ReqData r) \<noteq> []"
  shows "\<exists>w. Oob_BatchExecRaw os sched al requests host s =
    Some (Val (map (\<lambda>r. \<lparr>RespData = 0 # device (ReqData r), IsValid = 1\<rparr>) requests),
      s\<lparr>env := w, oobLocked := False\<rparr>)"
proof (rule oob_batch_schedule [OF assms(1,2)])
  fix r w
  assume "r \<in> set requests"
  then have "fst (ExecIpmiToolRemote os (ReqData r) al host True w) = 0 # device (ReqData r)"
    unfolding ExecIpmiToolRemote_def by (intro run_prints) (use assms(3) in auto)
  then show "fst (fillStruct os (ReqData r) al host True w) = \<lparr>RespData = 0 # device (ReqData r), IsValid = 1\<rparr>"
    by (cases "ExecIpmiToolRemote os (ReqData r) al host True w") (simp add: fillStruct_def)
qed

lemma tool_batch:
  assumes "\<And>inband. al \<noteq> InbandLayer inband"
    and "\<And>oob. al = OobLayer oob \<Longrightarrow> fair_scheduler (Sched P) \<and> \<not> oobLocked s"
    and "\<And>r. r \<in> set requests \<Longrightarrow>
      prints (System P) (tool_args al host (ReqData r)) (device (ReqData r)) \<and> device (ReqData r) \<noteq> []"
  shows "\<exists>t. BatchExecRaw P al requests host s =
    Some (Val (map (\<lambda>r. \<lparr>RespData = 0 # device (ReqData r), IsValid = 1\<rparr>) requests), t)"
proof (cases al)
  case (LocalLayer l)
  then show ?thesis using local_batch_prints [of requests "System P" l device host s] assms(3) by auto
next
  case (OobLayer l)
  then show ?thesis
    using oob_batch_prints [of "Sched P" s requests "System P" l host device] assms(2,3) by auto
next
  case (InbandLayer l)
  then show ?thesis using assms(1) by blast
qed

section \<open>From the printed bytes to the metric\<close>

lemma printed_value:
  assumes "ns_law N" and "collector_ok (collector s)" and "Initialized (collector s)"
    and "IpmiLayer (collector s) = Some al" and "Hosts (collector s) = [host]"
    and "\<And>inband. al \<noteq> InbandLayer inband"
    and "\<And>oob. al = OobLayer oob \<Longrightarrow> fair_scheduler (Sched P) \<and> \<not> oobLocked (world s)"
    and "descs = lookup_or [] (Vendor (collector s)) host" and "g = globs (world s)"
    and "\<And>rd. rd \<in> set descs \<Longrightarrow>
      prints (System P) (tool_args al host (ReqData (resolve g (Request rd)))) (device (ReqData (resolve g (Request rd))))
      \<and> full_length (Format rd) \<le> length (0 # device (ReqData (resolve g (Request rd))))"
    and "rd \<in> set descs" and "(k, fld) \<in> set (layout (Format rd))"
    and "MetricNamespace mt = makeName N (extendPath (MetricsRoot rd) k)"
  shows "\<exists>w. CollectMetrics N P [mt] s =
    Some (Val [new_metric (MetricNamespace mt) host (Now P (env w))
      (Uint16Data (decode_field (0 # device (ReqData (resolve g (Request rd)))) fld))], s\<lparr>world := w\<rparr>)"
proof -
  let ?bytes = "\<lambda>rd. 0 # device (ReqData (resolve g (Request rd)))"
  let ?resps = "map (\<lambda>rd. \<lparr>RespData = ?bytes rd, IsValid = 1\<rparr>) descs"
  have long: "1 < full_length f" for f by (cases f) simp_all
  have "device (ReqData (resolve g (Request rd))) \<noteq> []" if "rd \<in> set descs" for rd
    using assms(10) [OF that] long [of "Format rd"] by auto
  then have "\<exists>t. BatchExecRaw P al (map (\<lambda>rd. resolve g (Request rd)) descs) host (world s) =
    Some (Val (map (\<lambda>r. \<lparr>RespData = 0 # device (ReqData r), IsValid = 1\<rparr>) (map (\<lambda>rd. resolve g (Request rd)) descs)), t)"
    using assms(10) by (intro tool_batch [OF assms(6,7)]) auto
  then obtain w where w: "BatchExecRaw P al (map (\<lambda>rd. resolve (globs (world s)) (Request rd)) descs) host (world s)
      = Some (Val ?resps, w)"
    by (auto simp: comp_def assms(9))
  obtain i where i: "i < length descs" "descs ! i = rd"
    using assms(11) by (auto simp: in_set_conv_nth)
  have "selection descs" using assms(2,8) by (simp add: collector_ok_def)
  moreover have "IsValid (?resps ! j) = 1 \<and> RespData (?resps ! j) ! 0 = 0
      \<and> full_length (Format (descs ! j)) \<le> length (RespData (?resps ! j))" if "j < length descs" for j
    using assms(10) [OF nth_mem [OF that]] that by simp
  ultimately have "CollectMetrics N P [mt] s =
    Some (Val [new_metric (MetricNamespace mt) host (Now P (env w))
      (Uint16Data (decode_field (RespData (?resps ! i)) fld))], s\<lparr>world := w\<rparr>)"
    by (intro collected_selection [OF assms(1,3-5,8) _ w])
       (simp_all add: i assms(12,13))
  then show ?thesis using i by auto
qed

text \<open>
  C6. A collector that satisfies its invariant and uses \<open>ipmitool\<close>, locally or in goroutines on a
  remote machine whatever their schedule: when the program prints a complete response to every
  request, a metric has the value that the wire layout of its format assigns to the bytes printed
  for its request, with the completion code that is not printed in front.
\<close>

theorem printed_value_is_collected:
  assumes "ns_law N" and "collector_ok (collector s)" and "Initialized (collector s)"
    and "IpmiLayer (collector s) = Some al" and "Hosts (collector s) = [host]"
    and "\<And>inband. al \<noteq> InbandLayer inband"
    and "\<And>oob. al = OobLayer oob \<Longrightarrow> fair_scheduler (Sched P) \<and> \<not> oobLocked (world s)"
    and "descs = lookup_or [] (Vendor (collector s)) host" and "g = globs (world s)"
    and "\<And>rd. rd \<in> set descs \<Longrightarrow>
      prints (System P) (tool_args al host (ReqData (resolve g (Request rd)))) (device (ReqData (resolve g (Request rd))))
      \<and> full_length (Format rd) \<le> length (0 # device (ReqData (resolve g (Request rd))))"
    and "rd \<in> set descs" and "(k, fld) \<in> set (layout (Format rd))"
    and "MetricNamespace mt = makeName N (extendPath (MetricsRoot rd) k)"
  shows "\<exists>w. CollectMetrics N P [mt] s =
    Some (Val [new_metric (MetricNamespace mt) host (Now P (env w))
      (Uint16Data (decode_field (0 # device (ReqData (resolve g (Request rd)))) fld))], s\<lparr>world := w\<rparr>)"
  using assms by (rule printed_value)

definition printed_power :: "byte list" where
  "printed_power = [0x57, 1, 0, 0x2c, 1, 0x10, 0, 0x30, 2, 0x20, 1]"

definition tool_platform :: "unit platform" where
  \<comment> \<open>a machine whose \<open>ipmitool\<close> prints the same bytes for every command; goroutines run last to first\<close>
  "tool_platform = \<lparr>System = sample_os\<lparr>RunCommand := (\<lambda>c args w. (Some (print_bytes 0 printed_power), w))\<rparr>,
     Driver = undefined, Sched = (\<lambda>n. rev [0 ..< n]), Now = (\<lambda>_. 0)\<rparr>"

definition oob_plugin :: "unit plugin" where
  \<comment> \<open>a collector of the power of the system and of the processors of a remote machine\<close>
  "oob_plugin = \<lparr>collector = New\<lparr>IpmiLayer := Some (OobLayer (sample_oob\<lparr>OobProtocol := ''node_manager''\<rparr>)),
     Vendor := [(''bmc'', [GenericVendor ! 2, GenericVendor ! 3])], Hosts := [''bmc''], Initialized := True\<rparr>,
     world = sample_world\<rparr>"

lemma oob_plugin_ok: "plugin_ok oob_plugin"
proof -
  have "GenericVendor ! 2 \<noteq> GenericVendor ! 3" "2 < length GenericVendor" "3 < length GenericVendor"
    by (simp_all add: GenericVendor_def describe_def)
  then have "selection [GenericVendor ! 2, GenericVendor ! 3]" by (simp add: selection_def)
  then show ?thesis
    by (simp add: collector_ok_def wf_collector_def oob_plugin_def New_def lookup_or_def)
qed

lemma power_requests:
  "Format (GenericVendor ! 2) = FormatNodeManager" "Format (GenericVendor ! 3) = FormatNodeManager"
  "MetricsRoot (GenericVendor ! 2) = ''power/system''"
  by (simp_all add: GenericVendor_def describe_def)

lemma printed_value_is_collected_witness:
  "\<exists>w. CollectMetrics list_ns tool_platform [asked power_ns] oob_plugin =
     Some (Val [new_metric power_ns ''bmc'' 0 (Uint16Data 300)], oob_plugin\<lparr>world := w\<rparr>)"
proof -
  let ?al = "OobLayer (sample_oob\<lparr>OobProtocol := ''node_manager''\<rparr>)"
  let ?descs = "[GenericVendor ! 2, GenericVendor ! 3]"
  have prints: "prints (System tool_platform) args printed_power" for args
    by (simp add: prints_def tool_platform_def sample_os_def del: print_bytes.simps)
  have sched: "fair_scheduler (Sched tool_platform)" by (simp add: tool_platform_def fair_rev)
  have run: "\<exists>w. CollectMetrics list_ns tool_platform [asked power_ns] oob_plugin =
    Some (Val [new_metric (MetricNamespace (asked power_ns)) ''bmc'' (Now tool_platform (env w))
      (Uint16Data (decode_field (0 # (\<lambda>_. printed_power)
         (ReqData (resolve init_globals (Request (GenericVendor ! 2))))) (Word16 4)))], oob_plugin\<lparr>world := w\<rparr>)"
    by (rule printed_value_is_collected [OF list_ns_law oob_plugin_ok, where al = ?al and descs = ?descs and k = "''cur''"])
       (use prints sched in \<open>auto simp: oob_plugin_def sample_world_def New_def lookup_or_def power_requests
          printed_power_def asked_def power_name\<close>)
  have "decode_field (0 # printed_power) (Word16 4) = 300" by code_simp
  then show ?thesis using run by (simp add: asked_def tool_platform_def)
qed

end
