(* ===== verification/Collector_Values.thy ===== *)
theory Collector_Values
  imports Collector_Session Collector_Ipmitool
begin

text \<open>
  The values of the metrics. Those of a call are, whatever the mix of metrics, what the pure
  function \<open>published\<close> says of the inventory read at initialization, of the responses of the batch
  and of the sensors: over any backend with a device that answers (\<open>device\<close>), the kernel driver,
  \<open>ipmitool\<close> or \<open>ipmitool\<close> on a remote machine.
\<close>

section \<open>A device behind a backend\<close>

primrec device :: "'w platform \<Rightarrow> IpmiAL \<Rightarrow> string \<Rightarrow> (byte list \<Rightarrow> byte list) \<Rightarrow> bool" where
  \<comment> \<open>as long as the platform \<open>P\<close> is in place, single commands are answered with the bytes of \<open>f\<close>,
      which follow the completion code; a device that changes is one of another platform. The
      output of \<open>ipmitool\<close> is that of a command line without a bridge\<close>
  "device P (LocalLayer al) host f \<longleftrightarrow>
     (\<forall>bs. f bs \<noteq> [] \<and> prints (System P) (local_args bs al False) (f bs))"
| "device P (OobLayer al) host f \<longleftrightarrow>
     (\<forall>bs. f bs \<noteq> [] \<and> prints (System P) (remote_args bs al host False) (f bs))"
| "device P (InbandLayer al) host f \<longleftrightarrow>
     (\<exists>queue ans. answering_kernel (Driver P) queue ans \<and>
       (\<forall>bs. 2 \<le> length bs \<longrightarrow> length bs \<le> 1024 \<longrightarrow> ans SystemInterfaceAddr bs = 0 # f bs))"

definition free_with :: "(globals \<Rightarrow> bool) \<Rightarrow> 'w world \<Rightarrow> bool" where
  \<comment> \<open>the mutex is free, and \<open>Q\<close> holds of the package state\<close>
  "free_with Q s \<longleftrightarrow> Q (globs s) \<and> \<not> oobLocked s"

lemma free_with_run: "free_with Q s \<Longrightarrow> free_with Q (s\<lparr>env := w\<rparr>) \<and> free_with Q (s\<lparr>env := w, oobLocked := False\<rparr>)"
  by (simp add: free_with_def)

lemma device_run:
  assumes "device P al host f" and "good_request cmd" and "\<not> oobLocked s"
  shows "\<exists>w. ExecRaw P al cmd host s =
    Some (Val \<lparr>RespData = 0 # f (ReqData cmd), IsValid = 1\<rparr>, s\<lparr>env := w, oobLocked := False\<rparr>)"
proof (cases al)
  case (LocalLayer l)
  have "fst (ExecIpmiToolLocal (System P) (ReqData cmd) l False (env s)) = 0 # f (ReqData cmd)"
    unfolding ExecIpmiToolLocal_def by (rule run_prints) (use assms(1) in \<open>simp_all add: LocalLayer\<close>)
  then obtain w where "ExecIpmiToolLocal (System P) (ReqData cmd) l False (env s) = (0 # f (ReqData cmd), w)"
    by (metis prod.collapse)
  then show ?thesis
    using assms(3) by (intro exI [of _ w]) (cases s, simp add: LocalLayer Local_ExecRaw_def act_simps)
next
  case (OobLayer l)
  have "fst (ExecIpmiToolRemote (System P) (ReqData cmd) l host False (env s)) = 0 # f (ReqData cmd)"
    unfolding ExecIpmiToolRemote_def by (rule run_prints) (use assms(1) in \<open>simp_all add: OobLayer\<close>)
  then obtain w where "ExecIpmiToolRemote (System P) (ReqData cmd) l host False (env s) = (0 # f (ReqData cmd), w)"
    by (metis prod.collapse)
  then show ?thesis
    using assms(3)
    by (intro exI [of _ w])
       (simp add: OobLayer Oob_ExecRaw_def run_batch batch_body_def fillStruct_def empty_results_def)
next
  case (InbandLayer l)
  obtain queue ans where K: "answering_kernel (Driver P) queue ans"
    and ans: "\<And>bs. 2 \<le> length bs \<Longrightarrow> length bs \<le> 1024 \<Longrightarrow> ans SystemInterfaceAddr bs = 0 # f bs"
    using assms(1) by (auto simp: InbandLayer)
  have "ans SystemInterfaceAddr (ReqData cmd) = 0 # f (ReqData cmd)"
    using assms(2) by (intro ans) (simp_all add: good_request_def)
  then show ?thesis
    using Inband_ExecRaw_answers [OF K assms(2), of l host s] assms(3)
    by (cases s) (simp add: InbandLayer)
qed

lemma device_answers: "device P al host f \<Longrightarrow> answers (free_with Q) (ExecRaw P al) host f"
  unfolding answers_def yields_def
proof (intro allI impI)
  fix cmd and s :: "'a world"
  assume "device P al host f" and "good_request cmd" and I: "free_with Q s"
  then obtain w where "ExecRaw P al cmd host s =
      Some (Val \<lparr>RespData = 0 # f (ReqData cmd), IsValid = 1\<rparr>, s\<lparr>env := w, oobLocked := False\<rparr>)"
    using device_run by (metis free_with_def)
  then show "\<exists>t. ExecRaw P al cmd host s = Some (Val \<lparr>RespData = 0 # f (ReqData cmd), IsValid = 1\<rparr>, t) \<and> free_with Q t"
    using free_with_run [OF I] by blast
qed

text \<open>
  The contract can be met by \<open>ipmitool\<close> too: a program that reads the command behind its first \<open>k\<close>
  arguments and prints what \<open>f\<close> gives for it.
\<close>

definition reading_tool :: "nat \<Rightarrow> (byte list \<Rightarrow> byte list) \<Rightarrow> unit os" where
  "reading_tool k f = sample_os\<lparr>RunCommand := (\<lambda>c args w.
     (Some (print_bytes 0 (f (map (\<lambda>a. word_of_int (ParseInt_hex (drop 2 a))) (drop k args)))), w))\<rparr>"

lemma reading_tool_prints:
  "length front = k \<Longrightarrow> prints (reading_tool k f) (front @ hex_args bs) (f bs)"
proof -
  have "map (\<lambda>a. word_of_int (ParseInt_hex (drop 2 a))) (hex_args bs) = bs"
    by (induction bs) (simp_all add: hex_args_def ParseInt_Hex02x)
  then show "length front = k \<Longrightarrow> prints (reading_tool k f) (front @ hex_args bs) (f bs)"
    by (simp add: prints_def reading_tool_def sample_os_def del: print_bytes.simps)
qed

lemma reading_tool_local:
  assumes "\<And>bs. f bs \<noteq> []" and "System P = reading_tool 1 f"
  shows "device P (LocalLayer al) host f"
  using assms reading_tool_prints [of "[''raw'']" 1 f] by (simp add: local_args_def)

lemma reading_tool_remote:
  assumes "\<And>bs. f bs \<noteq> []" and "System P = reading_tool 9 f"
  shows "device P (OobLayer al) host f"
  using assms reading_tool_prints [of "[''-I'', ''lanplus'', ''-H'', host, ''-U'', User al, ''-P'', Pass al, ''raw'']" 9 f]
  by (simp add: remote_args_def)

section \<open>The health of a device\<close>

definition known_sensors :: "(byte list \<Rightarrow> byte list) \<Rightarrow> bool \<Rightarrow> globals \<Rightarrow> SdrInfo list \<Rightarrow> bool" where
  \<comment> \<open>the sensors that the health reads: those of an earlier scan, or else of the repository\<close>
  "known_sensors f isDeviceSdr g infos \<longleftrightarrow>
     (case sdrInfos g of
        Some xs \<Rightarrow> xs = infos
      | None \<Rightarrow> \<exists>repo r mx. infos = sensors_from repo 0 \<and> scan_ready f isDeviceSdr r mx \<and> wf_repo repo
          \<and> serves_repo f r isDeviceSdr repo \<and> 10 \<le> unat mx)"

lemma known_sensors_scanned [simp]: "known_sensors f d (g\<lparr>sdrInfos := Some xs\<rparr>) infos \<longleftrightarrow> xs = infos"
  by (simp add: known_sensors_def)

definition reported :: "(SdrInfo \<Rightarrow> SensorStatus) \<Rightarrow> SdrInfo list \<Rightarrow> string \<Rightarrow> string" where
  \<comment> \<open>the last verdict of the sensors on a metric, if any has one\<close>
  "reported st infos key = lookup_or [] (rev (List.map_filter (\<lambda>sdr. verdict (st sdr)) infos)) key"

lemma reported_fold: "lookup_or [] (fold judge (map st infos) []) key = reported st infos key"
proof -
  have "List.map_filter verdict (map st infos) = List.map_filter (\<lambda>sdr. verdict (st sdr)) infos"
    by (induction infos) (simp_all add: map_filter_simps split: option.splits)
  then show ?thesis
    unfolding reported_def lookup_or_def fold_judge by (simp split: option.splits)
qed

lemma device_id_yields:
  assumes "answers I exec host f" and "device_id (f [0x6, 0x1]) = Val d"
  shows "yields I (GetDeviceId exec host) (Val d)"
proof -
  have "good_request CmdGetDeviceId" by (simp add: good_request_def sdr_commands)
  note this [THEN yields_exec_data [OF assms(1)]]
  then show ?thesis
    unfolding GetDeviceId_def by (rule yields_bind) (simp add: sdr_commands assms(2) yields_lift)
qed

lemma device_health:
  assumes dev: "\<And>Q. answers (free_with Q) exec host f"
    and "device_id (f [0x6, 0x1]) = Val \<lparr>IsDeviceSdr = isDeviceSdr\<rparr>"
    and "\<forall>sdr \<in> set infos. sensor_status sdr (f [0x4, 0x2d, ucast (SensorNumber sdr)]) = Val (st sdr)"
    and "known_sensors f isDeviceSdr (globs s) infos" and "\<not> oobLocked s"
  shows "\<exists>t. GetComponentHealth exec host s = Some (Val (fold judge (map st infos) []), t)
    \<and> globs t = (globs s)\<lparr>sdrInfos := Some infos\<rparr> \<and> \<not> oobLocked t"
proof -
  let ?at = "\<lambda>g. free_with (\<lambda>g'. g' = g)"
  let ?g = "(globs s)\<lparr>sdrInfos := Some infos\<rparr>"
  have "?at (globs s) s" using assms(5) by (simp add: free_with_def)
  from yieldsD [OF device_id_yields [OF dev assms(2)] this] obtain t where
    t: "GetDeviceId exec host s = Some (Val \<lparr>IsDeviceSdr = isDeviceSdr\<rparr>, t)" "?at (globs s) t"
    by blast
  obtain u where u: "?at ?g u" and run: "GetComponentHealth exec host s =
      bind_act (GetSdrData exec infos host) (\<lambda>sdrStatus. return_act (fold judge sdrStatus [])) u"
  proof (cases "sdrInfos (globs s)")
    case None
    then obtain repo r mx where infos: "infos = sensors_from repo 0" and
      scan: "scan_ready f isDeviceSdr r mx" "wf_repo repo" "serves_repo f r isDeviceSdr repo" "10 \<le> unat mx"
      using assms(4) by (auto simp: known_sensors_def)
    obtain v where "ScanSdr exec isDeviceSdr host t = Some (Val infos, v)" "?at (globs s) v"
      using yieldsD [OF ScanSdr_lists [OF dev scan] t(2)] infos by blast
    then show ?thesis
      using None t by (intro that [of "v\<lparr>globs := ?g\<rparr>"]) (auto simp: GetComponentHealth_def free_with_def act_simps)
  next
    case (Some xs)
    then have "xs = infos" using assms(4) by (simp add: known_sensors_def)
    with Some have "?g = globs s" by (cases "globs s") simp
    with Some t \<open>xs = infos\<close> show ?thesis
      by (intro that [of t]) (auto simp: GetComponentHealth_def free_with_def act_simps)
  qed
  from yieldsD [OF GetSdrData_yields [OF dev assms(3)] u(1)] show ?thesis
    by (auto simp: run free_with_def act_simps)
qed

section \<open>What a call publishes\<close>

definition published ::
  "(string, string) gomap \<Rightarrow> (string, uint16) gomap \<Rightarrow> (string \<Rightarrow> string) \<Rightarrow> string \<Rightarrow> metric_data" where
  \<comment> \<open>the value of a key, by where it comes from\<close>
  "published inventory cached health key =
     (case metric_source key of
        FromInventory \<Rightarrow> StringData (lookup_or [] inventory key)
      | FromHealth \<Rightarrow> StringData (health key)
      | FromDevice \<Rightarrow> Uint16Data (lookup_or 0 cached key))"

lemma yields_map_act:
  "(\<And>x. x \<in> set xs \<Longrightarrow> yields J (f x) (Val (g x))) \<Longrightarrow> yields J (map_act f xs) (Val (map g xs))"
proof (induction xs)
  case (Cons x xs)
  then have "yields J (f x) (Val (g x))" "yields J (map_act f xs) (Val (map g xs))" by simp_all
  then show ?case by (auto intro: yields_bind yields_return)
qed (simp add: yields_return)

text \<open>The states between two metrics of a call: the sensors are known, and the setup is that of \<open>ic\<close>.\<close>

definition collecting :: "IpmiCollector \<Rightarrow> (byte list \<Rightarrow> byte list) \<Rightarrow> bool \<Rightarrow> SdrInfo list \<Rightarrow> 'w plugin \<Rightarrow> bool" where
  "collecting ic f isDeviceSdr infos s \<longleftrightarrow>
     same_setup ic s \<and> free_with (\<lambda>g. known_sensors f isDeviceSdr g infos) (world s)"

lemma health_value:
  assumes "IpmiLayer ic = Some al" and "Hosts ic = [host]" and "device P al host f"
    and "device_id (f [0x6, 0x1]) = Val \<lparr>IsDeviceSdr = isDeviceSdr\<rparr>"
    and "\<forall>sdr \<in> set infos. sensor_status sdr (f [0x4, 0x2d, ucast (SensorNumber sdr)]) = Val (st sdr)"
    and "metric_source key = FromHealth" and J: "collecting ic f isDeviceSdr infos s"
  shows "\<exists>t. metric_value P responseCache host key s = Some (Val (StringData (reported st infos key)), t)
    \<and> collecting ic f isDeviceSdr infos t \<and> sdrInfos (globs (world t)) = Some infos"
proof -
  obtain h where ic: "collector s = ic\<lparr>ComponentHealth := h\<rparr>"
    using J unfolding collecting_def same_setup_def by blast
  have key: "\<not> Contains key ''inventory/''" "Contains key ''health/''"
    using assms(6) by (auto simp: metric_source_Contains split: if_splits)
  have "known_sensors f isDeviceSdr (globs (world s)) infos" "\<not> oobLocked (world s)"
    using J by (simp_all add: collecting_def free_with_def)
  from device_health [OF device_answers [OF assms(3)] assms(4,5) this] obtain w where
    w: "GetComponentHealth (ExecRaw P al) host (world s) = Some (Val (fold judge (map st infos) []), w)"
      "globs w = (globs (world s))\<lparr>sdrInfos := Some infos\<rparr>" "\<not> oobLocked w"
    by blast
  let ?t = "s\<lparr>world := w, collector := ic\<lparr>ComponentHealth := [(host, fold judge (map st infos) [])]\<rparr>\<rparr>"
  have "metric_value P responseCache host key s = Some (Val (StringData (reported st infos key)), ?t)"
    using w(1) by (simp add: metric_value_def key use_layer_def ic assms(1,2) act_simps plugin_simps error_map_def
      reported_fold lookup_or_def [of _ "[(host, _)]"])
  moreover have "collecting ic f isDeviceSdr infos ?t" "sdrInfos (globs (world ?t)) = Some infos"
    using w(2,3) by (simp_all add: collecting_def same_setup_def free_with_def)
  ultimately show ?thesis by blast
qed

lemma collecting_value:
  assumes "IpmiLayer ic = Some al" and "Hosts ic = [host]" and "device P al host f"
    and "device_id (f [0x6, 0x1]) = Val \<lparr>IsDeviceSdr = isDeviceSdr\<rparr>"
    and "\<forall>sdr \<in> set infos. sensor_status sdr (f [0x4, 0x2d, ucast (SensorNumber sdr)]) = Val (st sdr)"
  shows "yields (collecting ic f isDeviceSdr infos) (metric_value P responseCache host key)
    (Val (published (lookup_or [] (Inventory ic) host) (lookup_or [] responseCache host) (reported st infos) key))"
  unfolding yields_def
proof (intro allI impI)
  fix s :: "'a plugin"
  assume J: "collecting ic f isDeviceSdr infos s"
  let ?v = "published (lookup_or [] (Inventory ic) host) (lookup_or [] responseCache host) (reported st infos) key"
  obtain h where ic: "collector s = ic\<lparr>ComponentHealth := h\<rparr>"
    using J unfolding collecting_def same_setup_def by blast
  show "\<exists>t. metric_value P responseCache host key s = Some (Val ?v, t) \<and> collecting ic f isDeviceSdr infos t"
  proof (cases "metric_source key")
    case FromHealth
    then have "?v = StringData (reported st infos key)" by (simp add: published_def)
    then show ?thesis using health_value [OF assms FromHealth J, of responseCache] by (simp only:) blast
  qed (use J in \<open>auto simp: metric_value_def metric_source_Contains published_def ic act_simps plugin_simps split: if_splits\<close>)
qed

text \<open>
  C3. What a whole call returns, on any backend and for any mix of metrics: when the responses of the
  batch are valid and the device answers, the list of the metrics, each with the value that
  \<open>published\<close> gives from the inventory of the collector, the cache of the responses and the last
  verdict of the sensors, which are those of an earlier scan or, at first, those of the repository;
  and the collector keeps its setup.
\<close>

theorem CollectMetrics_publishes:
  assumes "Initialized (collector s)" and "IpmiLayer (collector s) = Some al" and "Hosts (collector s) = [host]"
    and "descs = lookup_or [] (Vendor (collector s)) host"
    and "BatchExecRaw P al (map (\<lambda>rd. resolve (globs (world s)) (Request rd)) descs) host (world s)
      = Some (Val resps, w)"
    and "cache_responses descs resps [] = Val cached" and "\<not> oobLocked w"
    and "device P al host f" and "device_id (f [0x6, 0x1]) = Val \<lparr>IsDeviceSdr = isDeviceSdr\<rparr>"
    and "known_sensors f isDeviceSdr (globs w) infos"
    and "\<forall>sdr \<in> set infos. sensor_status sdr (f [0x4, 0x2d, ucast (SensorNumber sdr)]) = Val (st sdr)"
    and "\<And>mt. mt \<in> set mts \<Longrightarrow> parseName N (MetricNamespace mt) = Val (key mt)"
  shows "\<exists>t. CollectMetrics N P mts s =
      Some (Val (map (\<lambda>mt. new_metric (MetricNamespace mt) host (Now P (env w))
        (published (lookup_or [] (Inventory (collector s)) host) cached (reported st infos) (key mt))) mts), t)
    \<and> same_setup (collector s) t \<and> known_sensors f isDeviceSdr (globs (world t)) infos"
proof -
  let ?cache = "if resps = [] then [] else [(host, cached)]"
  have cache: "lookup_or [] ?cache host = cached"
    using assms(6) by (cases descs) (auto simp: lookup_or_def)
  let ?metric = "\<lambda>mt. new_metric (MetricNamespace mt) host (Now P (env w))
    (published (lookup_or [] (Inventory (collector s)) host) cached (reported st infos) (key mt))"
  have metric: "yields (collecting (collector s) f isDeviceSdr infos)
      (collect_metric N P ?cache (Now P (env w)) host mt) (Val (?metric mt))" if "mt \<in> set mts" for mt
    unfolding collect_metric_def assms(12) [OF that] bind_lift_Val
    by (rule yields_bind [OF collecting_value [OF assms(2,3,8,9,11)]]) (simp add: cache yields_return)
  then have all: "yields (collecting (collector s) f isDeviceSdr infos)
      (map_act (collect_metric N P ?cache (Now P (env w)) host) mts) (Val (map ?metric mts))"
    by (rule yields_map_act)
  have "collecting (collector s) f isDeviceSdr infos (s\<lparr>world := w\<rparr>)"
    using assms(7,10) by (simp add: collecting_def same_setup_def free_with_def)
  from yieldsD [OF all this] obtain t where
    run: "map_act (collect_metric N P ?cache (Now P (env w)) host) mts (s\<lparr>world := w\<rparr>) = Some (Val (map ?metric mts), t)"
    and t: "collecting (collector s) f isDeviceSdr infos t"
    by (elim exE conjE)
  from run have "CollectMetrics N P mts s = Some (Val (map ?metric mts), t)"
    using CollectMetrics_run [OF assms(1-3), folded assms(4), OF assms(5), of N mts, unfolded assms(6) bind_lift_Val]
    by (simp only:)
  with t show ?thesis unfolding collecting_def free_with_def by blast
qed

section \<open>A sample device\<close>

definition device_kernel :: "(byte list \<Rightarrow> byte list) \<Rightarrow> (nat \<times> byte list) list kernel" where
  \<comment> \<open>a driver whose device answers every command without an error\<close>
  "device_kernel f = sample_kernel\<lparr>k_send := (\<lambda>a m fn c ds k. (True, (m, 0 # f (fn # c # ds)) # k))\<rparr>"

definition device_platform :: "(byte list \<Rightarrow> byte list) \<Rightarrow> (nat \<times> byte list) list platform" where
  "device_platform f = (kernel_platform [])\<lparr>Driver := device_kernel f\<rparr>"

lemma device_platform_answers:
  assumes "\<And>bs. length (f bs) < 1024"
  shows "answering_kernel (Driver (device_platform f)) mset (\<lambda>_ bs. 0 # f bs)"
  using assms
  by (auto simp: answering_kernel_def device_platform_def device_kernel_def sample_kernel_def neq_Nil_conv
      Suc_le_eq)

lemma device_platform_device:
  assumes "\<And>bs. length (f bs) < 1024"
  shows "device (device_platform f) (InbandLayer al) host f"
  using device_platform_answers [of f, OF assms] by auto

definition site_device :: "byte list \<Rightarrow> byte list" where
  \<comment> \<open>a power of 300 watts, the memory with the product area, the repository of three records\<close>
  "site_device cmd =
     (if take 2 cmd = [0x2c, 2] then tl power_answer
      else if cmd = [0x6, 0x1] then [0x20, 0x01, 0x01, 0x29, 0x02, 0]
      else if take 2 cmd = [0x4, 0x2d] then [20, 0xC0, 0, 0]
      else if take 2 cmd \<in> {[0xa, 0x10], [0xa, 0x11], [0xc, 0x2]} then memory_device cmd
      else repo_device sample_repo cmd)"

lemma repo_device_short: "length (repo_device repo cmd) < 300"
  using unat_byte_less [of "cmd ! 7"]
  by (auto simp: repo_device_def bytes_of_word_def min_def split: option.splits simp del: unat_byte_less)

lemma memory_device_short: "length (memory_device cmd) < 300"
  using unat_byte_less [of "cmd ! 5"]
  by (auto simp: memory_device_def min_def simp del: unat_byte_less)

lemma site_device_short: "length (site_device cmd) < 1024"
  using repo_device_short [of sample_repo cmd] memory_device_short [of cmd]
  by (auto simp: site_device_def power_answer_def)

abbreviation site_platform :: "(nat \<times> byte list) list platform" where
  "site_platform \<equiv> device_platform site_device"

definition site_plugin :: "(nat \<times> byte list) list plugin" where
  \<comment> \<open>a collector initialized on the sample device\<close>
  "site_plugin = dcmi_plugin\<lparr>collector := (collector dcmi_plugin)\<lparr>Inventory := [(''node'', [(''inventory/product_name'', ''CD'')])]\<rparr>\<rparr>"

definition site_asked :: "string list MetricType list" where
  "site_asked = map (\<lambda>key. asked (makeName list_ns key))
     [''power/system/cur'', ''inventory/product_name'', ''health/temperature'']"

definition site_status :: "SdrInfo \<Rightarrow> SensorStatus" where
  "site_status sdr = \<lparr>StatusSensorNumber = SensorNumber sdr, Status = 0, StateUnavailable = False,
     StatusSensorType = SensorType sdr, ReadingType = EventReadingType sdr\<rparr>"

lemma site_sensors:
  "\<forall>sdr \<in> set infos. sensor_status sdr (site_device [0x4, 0x2d, ucast (SensorNumber sdr)]) = Val (site_status sdr)"
  by (simp add: site_device_def sensor_status_def site_status_def)

lemma site_device_serves: "serves_repo site_device r False sample_repo"
proof -
  have "site_device (sdr_command r False recId off n) = repo_device sample_repo (sdr_command r False recId off n)"
    for recId off n
    by (simp add: site_device_def sdr_command_def)
  then show ?thesis
    using sample_repo_served [of r False] unfolding serves_repo_def serves_record_def by simp
qed

lemma site_device_ready: "scan_ready site_device False [7, 0] 16"
  by (simp add: scan_ready_def site_device_def repo_device_def allocation_unit_def)

lemma site_known: "sdrInfos g = None \<Longrightarrow> known_sensors site_device False g (sensors_from sample_repo 0)"
  unfolding known_sensors_def option.case
  using site_device_ready sample_repo_wf site_device_serves by force

lemma site_id: "device_id (site_device [0x6, 0x1]) = Val \<lparr>IsDeviceSdr = False\<rparr>"
  by (simp add: site_device_def device_id_def)

definition site_cache :: "(string, uint16) gomap" where
  "site_cache = [(''power/system/cur'', 300), (''power/system/min'', 16), (''power/system/max'', 560),
     (''power/system/avg'', 288)]"

lemma site_values:
  "cache_responses DCMIVendor [\<lparr>RespData = power_answer, IsValid = 1\<rparr>] [] = Val site_cache"
  "reported site_status (sensors_from sample_repo 0) ''health/temperature'' = ''OK''"
  "metric_source ''inventory/product_name'' = FromInventory"
  "metric_source ''health/temperature'' = FromHealth"
  by code_simp+

lemma power_batch:
  assumes "\<And>bs. length (f bs) < 1024" and "f [0x2c, 0x02, 0xdc, 0x01, 0x00, 0x00] = tl power_answer"
  shows "\<exists>w. BatchExecRaw (device_platform f) dcmi_layer
      (map (\<lambda>rd. resolve (globs (world s)) (Request rd)) DCMIVendor) ''node'' (world s)
    = Some (Val [\<lparr>RespData = power_answer, IsValid = 1\<rparr>], (world s)\<lparr>env := w\<rparr>)"
proof -
  let ?reqs = "map (\<lambda>rd. resolve (globs (world s)) (Request rd)) DCMIVendor"
  let ?al = "\<lparr>InbandDevice = ''/dev/ipmi0'', InbandProtocol = ''dcmi''\<rparr>"
  have "\<forall>r \<in> set ?reqs. good_request r" "?reqs \<noteq> []" "length ?reqs \<le> 3" "InbandProtocol ?al \<noteq> ''node_manager''"
    by (simp_all add: DCMIVendor_def good_request_def resolve_def request_def)
  from Inband_Batch_answers [OF device_platform_answers [of f, OF assms(1)] this, of "''node''" "world s"]
  show ?thesis
    by (simp add: dcmi_layer_def DCMIVendor_def resolve_def request_def assms(2) power_answer_def)
qed

lemma site_batch:
  "\<exists>w. BatchExecRaw site_platform dcmi_layer
      (map (\<lambda>rd. resolve (globs (world s)) (Request rd)) DCMIVendor) ''node'' (world s)
    = Some (Val [\<lparr>RespData = power_answer, IsValid = 1\<rparr>], (world s)\<lparr>env := w\<rparr>)"
  by (rule power_batch) (simp_all add: site_device_short, simp add: site_device_def)

lemma CollectMetrics_publishes_witness:
  "\<exists>t. CollectMetrics list_ns site_platform site_asked site_plugin = Some (Val
      [new_metric (makeName list_ns ''power/system/cur'') ''node'' 0 (Uint16Data 300),
       new_metric (makeName list_ns ''inventory/product_name'') ''node'' 0 (StringData ''CD''),
       new_metric (makeName list_ns ''health/temperature'') ''node'' 0 (StringData ''OK'')], t)
    \<and> known_sensors site_device False (globs (world t)) (sensors_from sample_repo 0)"
proof -
  let ?key = "\<lambda>mt. case parseName list_ns (MetricNamespace mt) of Val key \<Rightarrow> key"
  obtain w where w: "BatchExecRaw site_platform dcmi_layer
      (map (\<lambda>rd. resolve (globs (world site_plugin)) (Request rd)) DCMIVendor) ''node'' (world site_plugin)
    = Some (Val [\<lparr>RespData = power_answer, IsValid = 1\<rparr>], (world site_plugin)\<lparr>env := w\<rparr>)"
    using site_batch by blast
  have world: "\<not> oobLocked ((world site_plugin)\<lparr>env := w\<rparr>)" "sdrInfos (globs ((world site_plugin)\<lparr>env := w\<rparr>)) = None"
    by (simp_all add: site_plugin_def dcmi_plugin_def inband_world_def init_globals_def)
  have keys: "parseName list_ns (MetricNamespace mt) = Val (?key mt)" if "mt \<in> set site_asked" for mt
    using that by (auto simp: site_asked_def asked_def parse_makeName [OF list_ns_law])
  have dev: "device site_platform dcmi_layer ''node'' site_device"
    unfolding dcmi_layer_def by (rule device_platform_device) (rule site_device_short)
  have "\<exists>t. CollectMetrics list_ns site_platform site_asked site_plugin =
      Some (Val (map (\<lambda>mt. new_metric (MetricNamespace mt) ''node'' (Now site_platform (env ((world site_plugin)\<lparr>env := w\<rparr>)))
        (published (lookup_or [] (Inventory (collector site_plugin)) ''node'') site_cache
          (reported site_status (sensors_from sample_repo 0)) (?key mt))) site_asked), t)
    \<and> same_setup (collector site_plugin) t \<and> known_sensors site_device False (globs (world t)) (sensors_from sample_repo 0)"
    by (rule CollectMetrics_publishes [OF _ _ _ _ w site_values(1) world(1) dev site_id site_known [OF world(2)]
        site_sensors keys])
       (simp_all add: site_plugin_def dcmi_plugin_def New_def lookup_or_def)
  moreover have "Now site_platform v = 0" for v by (simp add: device_platform_def kernel_platform_def)
  moreover have "lookup_or [] (Inventory (collector site_plugin)) ''node'' = [(''inventory/product_name'', ''CD'')]"
    by (simp add: site_plugin_def lookup_or_def)
  ultimately show ?thesis
    by (auto simp: site_asked_def asked_def parse_makeName [OF list_ns_law] published_def power_device site_values
        site_cache_def lookup_or_def)
qed

end
