(* ===== verification/Collector_Globals.thy ===== *)
theory Collector_Globals
  imports Collector_Session
begin

text \<open>
  What the calls of a session do to the package variables. The code writes them in five places;
  \<open>stable_globals\<close> is a property of them that each of these writes keeps, and therefore every call of
  the collector on every backend, the loops that need not end included. Its two instances: the shared
  requests stay the commands they are meant to be, and a stored scan of the sensors is never replaced;
  \<open>Collector_Scan\<close> uses them.
\<close>

section \<open>More rules for what an action keeps\<close>

lemma preserves_world [preserves_intros]: "preserves J m \<Longrightarrow> preserves (\<lambda>s. J (world s)) (on_world m)"
  by (auto simp: preserves_def on_world_eq_Some)

lemma preserves_get_globs [preserves_intros]: "preserves J get_globs"
  by (simp add: preserves_def act_simps)

lemma preserves_modify_globs:
  "(\<And>s. J s \<Longrightarrow> J (s\<lparr>globs := h (globs s)\<rparr>)) \<Longrightarrow> preserves J (modify_globs h)"
  by (simp add: preserves_def modify_globs_def)

lemma catch_act_state:
  assumes "catch_act m s = Some (r, t)"
  shows "\<exists>r'. m s = Some (r', t)"
proof (cases "m s")
  case (Some r'u)
  then show ?thesis using assms by (cases r'u; cases "fst r'u") (auto simp: catch_act_def)
qed (use assms in \<open>simp add: catch_act_def\<close>)

lemma preserves_catch [preserves_intros]: "preserves J m \<Longrightarrow> preserves J (catch_act m)"
  unfolding preserves_def by (metis catch_act_state)

lemma preserves_case_sum [preserves_intros]:
  "(\<And>e. preserves J (m e)) \<Longrightarrow> (\<And>x. preserves J (n x)) \<Longrightarrow>
     preserves J (case r of Inl e \<Rightarrow> m e | Inr x \<Rightarrow> n x)"
  by (cases r) simp_all

lemma preserves_iff: "preserves J m \<longleftrightarrow> (\<forall>s y. m s = Some y \<longrightarrow> J s \<longrightarrow> J (snd y))"
  by (auto simp: preserves_def)

lemma preserves_tail: "preserves J m \<Longrightarrow> preserves J n \<Longrightarrow> preserves J (\<lambda>s. if b then m s else n s)"
  by (cases b) simp_all

lemma preserves_sum_tail:
  "(\<And>e. preserves J (m e)) \<Longrightarrow> (\<And>x. preserves J (n x)) \<Longrightarrow>
     preserves J (\<lambda>s. case r of Inl e \<Rightarrow> m e s | Inr x \<Rightarrow> n x s)"
  by (cases r) simp_all

section \<open>The parsers\<close>

text \<open>Through any backend whose commands keep \<open>J\<close>, reading the repository does.\<close>

locale keeping =
  fixes exec :: "'s exec" and J :: "'s \<Rightarrow> bool"
  assumes exec_keeps: "preserves J (exec cmd host)"
begin

lemma exec_data_keeps: "preserves J (exec_data exec cmd host)"
  unfolding exec_data_def by (intro preserves_intros exec_keeps)

lemma GetDeviceId_keeps: "preserves J (GetDeviceId exec host)"
  unfolding GetDeviceId_def by (intro preserves_intros exec_data_keeps)

lemma GetSdr_keeps: "preserves J (GetSdr exec r recordId off n isDeviceSdr host)"
  unfolding GetSdr_def by (intro preserves_intros exec_data_keeps)


text \<open>The loops by induction on their finite runs.\<close>

lemma sdr_bytes_loop_keeps:
  "preserves J (sdr_bytes_loop exec r recordId tot mx isDeviceSdr host data left off)"
  unfolding preserves_iff
proof (intro allI impI)
  fix s y
  assume run: "sdr_bytes_loop exec r recordId tot mx isDeviceSdr host data left off s = Some y" and "J s"
  have "exec = exec \<longrightarrow> J s \<longrightarrow> J (snd y)"
    using run
  proof (rule sdr_bytes_loop.raw_induct [rotated, where P = "\<lambda>exec' r recordId tot mx isDeviceSdr host data left off s y.
      exec' = exec \<longrightarrow> J s \<longrightarrow> J (snd y)"], intro impI)
    fix loop r recordId tot mx isDeviceSdr host data left off s y and exec' :: "'s exec"
    assume IH: "\<And>exec' r recordId tot mx isDeviceSdr host data left off s y.
        loop exec' r recordId tot mx isDeviceSdr host data left off s = Some y \<Longrightarrow> exec' = exec \<longrightarrow> J s \<longrightarrow> J (snd y)"
      and step: "(if off < left then
        bind_act (GetSdr exec' r recordId off (if mx < tot - off then mx else tot - off) isDeviceSdr host) (\<lambda>currentSdr.
        bind_act (lift_go (store_chunk data currentSdr off (if mx < tot - off then mx else tot - off))) (\<lambda>data.
        loop exec' r recordId tot mx isDeviceSdr host data (tot - off) (off + (if mx < tot - off then mx else tot - off)))) s
      else return_act data s) = Some y"
      and "exec' = exec" "J s"
    have loop: "preserves J (loop exec r recordId tot mx isDeviceSdr host data left off)" for data left off
      using IH by (simp add: preserves_iff)
    have "preserves J (bind_act (GetSdr exec r recordId off (if mx < tot - off then mx else tot - off) isDeviceSdr host) (\<lambda>currentSdr.
        bind_act (lift_go (store_chunk data currentSdr off (if mx < tot - off then mx else tot - off))) (\<lambda>data.
        loop exec r recordId tot mx isDeviceSdr host data (tot - off) (off + (if mx < tot - off then mx else tot - off)))))"
      by (intro preserves_bind preserves_lift GetSdr_keeps loop)
    from preserves_tail [OF this preserves_return, of "off < left" data] show "J (snd y)"
      using step \<open>exec' = exec\<close> \<open>J s\<close> by (simp only: preserves_iff)
  qed
  with \<open>J s\<close> show "J (snd y)" by blast
qed

lemma GetSdrBytes_keeps: "preserves J (GetSdrBytes exec r recordId tot mx isDeviceSdr host)"
  unfolding GetSdrBytes_def by (rule sdr_bytes_loop_keeps)

lemma GetSdrHeader_keeps: "preserves J (GetSdrHeader exec r recordId isDeviceSdr host)"
  unfolding GetSdrHeader_def by (intro preserves_intros GetSdrBytes_keeps)

lemma scan_record_keeps: "preserves J (scan_record exec r recordId mx isDeviceSdr host header)"
  unfolding scan_record_def GetSdrByHeader_def by (intro preserves_intros GetSdrBytes_keeps)

lemma scan_loop_keeps: "preserves J (scan_loop exec r recordId mx isDeviceSdr host recId acc)"
  unfolding preserves_iff
proof (intro allI impI)
  fix s y
  assume run: "scan_loop exec r recordId mx isDeviceSdr host recId acc s = Some y" and "J s"
  have "exec = exec \<longrightarrow> J s \<longrightarrow> J (snd y)"
    using run
  proof (rule scan_loop.raw_induct [rotated, where P = "\<lambda>exec' r recordId mx isDeviceSdr host recId acc s y.
      exec' = exec \<longrightarrow> J s \<longrightarrow> J (snd y)"], intro impI)
    fix loop r recordId mx isDeviceSdr host recId acc s y and exec' :: "'s exec"
    assume IH: "\<And>exec' r recordId mx isDeviceSdr host recId acc s y.
        loop exec' r recordId mx isDeviceSdr host recId acc s = Some y \<Longrightarrow> exec' = exec \<longrightarrow> J s \<longrightarrow> J (snd y)"
      and step: "bind_act (GetSdrHeader exec' r recId isDeviceSdr host) (\<lambda>header.
        bind_act (scan_record exec' r recordId mx isDeviceSdr host header) (\<lambda>new t.
        if NextRecordId header = 0xFFFF then return_act (acc @ new) t
        else loop exec' r recordId mx isDeviceSdr host (NextRecordId header) (acc @ new) t)) s = Some y"
      and "exec' = exec" "J s"
    have loop: "preserves J (loop exec r recordId mx isDeviceSdr host recId acc)" for recId acc
      using IH by (simp add: preserves_iff)
    have "preserves J (bind_act (GetSdrHeader exec r recId isDeviceSdr host) (\<lambda>header.
        bind_act (scan_record exec r recordId mx isDeviceSdr host header) (\<lambda>new t.
        if NextRecordId header = 0xFFFF then return_act (acc @ new) t
        else loop exec r recordId mx isDeviceSdr host (NextRecordId header) (acc @ new) t)))"
      by (intro preserves_bind GetSdrHeader_keeps scan_record_keeps preserves_tail preserves_return loop)
    then show "J (snd y)" using step \<open>exec' = exec\<close> \<open>J s\<close> by (simp only: preserves_iff)
  qed
  with \<open>J s\<close> show "J (snd y)" by blast
qed

lemma ScanSdr_keeps: "preserves J (ScanSdr exec isDeviceSdr host)"
  unfolding ScanSdr_def ScanSdrLoop_def GetSdrInfo_def ReserveSdr_def GetSdrRepositoryAllocationInfo_def
  by (intro preserves_intros exec_keeps exec_data_keeps scan_loop_keeps)

lemma GetSdrData_keeps: "preserves J (GetSdrData exec infos host)"
  unfolding GetSdrData_def by (intro preserves_intros exec_data_keeps)

lemma exec_tail_keeps: "preserves J (exec_tail exec cmd host)"
  unfolding exec_tail_def by (intro preserves_intros exec_keeps)

lemma add_metric_keeps: "preserves J (add_metric exec host cmd metric parse ret)"
  unfolding add_metric_def by (intro preserves_intros exec_keeps)

end

section \<open>The backends\<close>

text \<open>
  \<open>W\<close> does not depend on the environment and survives the two writes of the thermal probe: the
  backends in front of the local machine keep it. When it does not depend on the mutex either, the
  out-of-band backend does too.
\<close>

locale probing =
  fixes W :: "'w world \<Rightarrow> bool"
  assumes env_free: "W s \<Longrightarrow> W (s\<lparr>env := w\<rparr>)"
    and sdr_write: "W s \<Longrightarrow> W (s\<lparr>globs := (globs s)\<lparr>cmdSDR := (cmdSDR (globs s))[4 := a, 5 := b]\<rparr>\<rparr>)"
    and thermal_write: "W s \<Longrightarrow> W (s\<lparr>globs := (globs s)\<lparr>dcmiThermalData := (dcmiThermalData (globs s))[2 := a]\<rparr>\<rparr>)"
begin

lemma on_env_keeps: "preserves W (on_env f)"
  by (auto simp: preserves_def on_env_def env_free split: prod.splits)

lemma finish_call_keeps: "preserves W (finish_call f)"
  unfolding preserves_def
proof (intro allI impI)
  fix s t :: "'w world" and r
  assume run: "W s \<and> finish_call f s = Some (r, t)"
  obtain r' w where "finish_call f s = Some (r', s\<lparr>env := w\<rparr>)" using finish_call_env [of f s] by blast
  with run show "W t" by (auto simp: env_free)
qed

lemmas probe_intros = preserves_intros on_env_keeps finish_call_keeps preserves_modify_globs sdr_write thermal_write

lemma thermal_probe_keeps: "(\<And>req. preserves W (run req)) \<Longrightarrow> preserves W (thermal_probe run)"
  unfolding thermal_probe_def Let_def by (intro probe_intros)

lemma local_probe_keeps: "preserves W (local_probe os al rds acc)"
  by (induction rds arbitrary: acc) (auto intro!: probe_intros)

lemma local_caps_keep: "preserves W (Local_GetPlatformCapabilities os al requests hosts)"
  unfolding Local_GetPlatformCapabilities_def by (intro probe_intros local_probe_keeps thermal_probe_keeps)

lemma inband_caps_keep: "preserves W (Inband_GetPlatformCapabilities K al requests hosts)"
  unfolding Inband_GetPlatformCapabilities_def inband_thermal_def Inband_BatchExecRaw_def Inband_ExecRaw_def Let_def
  by (intro probe_intros)

lemma caps_body_keeps: "W (snd st) \<Longrightarrow> W (snd (caps_body os al addr requests i st))"
proof (cases st)
  case (Pair valid s)
  assume "W (snd st)"
  have "preserves W (thermal_probe (\<lambda>req. on_env (ExecIpmiToolRemote os req al addr False)))"
    by (intro thermal_probe_keeps on_env_keeps)
  with \<open>W (snd st)\<close> show ?thesis
    by (auto simp: Pair caps_body_def Let_def env_free split: prod.splits go.splits option.splits dest: preservesD)
qed

lemma fold_caps_body_keeps: "W (snd st) \<Longrightarrow> W (snd (fold (caps_body os al addr requests) order st))"
  by (induction order arbitrary: st) (simp_all add: caps_body_keeps)

end

locale lock_free = probing W for W :: "'w world \<Rightarrow> bool" +
  assumes any_lock: "W s \<Longrightarrow> W (s\<lparr>oobLocked := l\<rparr>)"
begin

lemma oob_caps_keep: "preserves W (oob_caps os sched al requests hosts validRequests)"
proof (induction hosts arbitrary: validRequests)
  case (Cons addr hosts)
  let ?body = "caps_body os al addr requests" and ?order = "sched (caps_count al requests)"
  show ?case
    unfolding preserves_def
  proof (intro allI impI, elim conjE)
    fix s r t
    assume "W s" and run: "oob_caps os sched al requests (addr # hosts) validRequests s = Some (r, t)"
    obtain valid s' l where pool: "run_goroutines (caps_style (length requests)) ?body ?order (oobLocked s) ([], s)
        = Some ((valid, s'), l)"
      and rest: "oob_caps os sched al requests hosts (AList.update addr valid validRequests) (s'\<lparr>oobLocked := l\<rparr>)
        = Some (r, t)"
      using run by (auto split: option.splits prod.splits)
    have "(valid, s') = ([], s) \<or> fold ?body ?order ([], s) = (valid, s')"
      using pool by (simp add: run_goroutines_def pool_outcome_def split: if_splits)
    then have "W s'" using \<open>W s\<close> fold_caps_body_keeps [of "([], s)" os al addr requests ?order] by auto
    then show "W t" using preservesD [OF Cons.IH _ rest] by (simp add: any_lock)
  qed
qed (simp add: preserves_return)

lemma caps_keep: "preserves W (GetPlatformCapabilities P al requests hosts)"
  by (cases al) (simp_all add: local_caps_keep inband_caps_keep oob_caps_keep Oob_GetPlatformCapabilities_def)

lemma ExecRaw_keeps: "preserves W (ExecRaw P al cmd host)"
proof (cases al)
  case (OobLayer l)
  then show ?thesis
    by (auto simp: preserves_def Oob_ExecRaw_def env_free any_lock split: option.splits prod.splits)
qed (auto simp: Local_ExecRaw_def Inband_ExecRaw_def intro!: probe_intros)

lemma BatchExecRaw_keeps: "preserves W (BatchExecRaw P al requests host)"
proof (cases al)
  case (OobLayer l)
  then show ?thesis
    by (auto simp: preserves_def Oob_BatchExecRaw_def env_free any_lock split: option.splits prod.splits)
qed (auto simp: Local_BatchExecRaw_def Inband_BatchExecRaw_def intro!: probe_intros)

end

sublocale lock_free \<subseteq> layer: keeping "ExecRaw P al" W for P al
  by unfold_locales (rule ExecRaw_keeps)

section \<open>The package variables\<close>

locale stable_globals =
  fixes J :: "globals \<Rightarrow> bool"
  assumes fru_write: "J g \<Longrightarrow> J (g\<lparr>cmdFruData := (cmdFruData g)[3 := a, 4 := b, 5 := c]\<rparr>)"
    and fru_size: "J g \<Longrightarrow> J (g\<lparr>cmdFruData := (cmdFruData g)[5 := c]\<rparr>)"
    and sdr_bytes: "J g \<Longrightarrow> J (g\<lparr>cmdSDR := (cmdSDR g)[4 := a, 5 := b]\<rparr>)"
    and thermal_byte: "J g \<Longrightarrow> J (g\<lparr>dcmiThermalData := (dcmiThermalData g)[2 := a]\<rparr>)"
    and scanned: "J g \<Longrightarrow> sdrInfos g = None \<Longrightarrow> J h \<Longrightarrow> J (h\<lparr>sdrInfos := Some infos\<rparr>)"

sublocale stable_globals \<subseteq> lock_free "\<lambda>s :: 'w world. J (globs s)"
  by unfold_locales (simp_all add: sdr_bytes thermal_byte)

context stable_globals
begin

lemma GenerateFruData_keeps: "preserves (\<lambda>s. J (globs s)) (GenerateFruData offset len)"
  unfolding GenerateFruData_def by (rule preserves_modify_globs) (simp add: fru_write)

lemma exec_fru_keeps: "preserves (\<lambda>s. J (globs s)) (exec_fru (ExecRaw P al) host)"
  unfolding exec_fru_def by (intro preserves_intros layer.exec_tail_keeps)

lemma fru_loop_keeps:
  "preserves (\<lambda>s. J (globs s)) (fru_loop (ExecRaw P al) host start accessed len area index byteLen)"
  unfolding preserves_iff
proof (intro allI impI)
  fix s :: "'a world" and y
  let ?E = "ExecRaw P al"
  assume run: "fru_loop ?E host start accessed len area index byteLen s = Some y" and "J (globs s)"
  have "?E = ?E \<longrightarrow> J (globs s) \<longrightarrow> J (globs (snd y))"
    using run
  proof (rule fru_loop.raw_induct [rotated, where P = "\<lambda>exec' host start accessed len area index byteLen s y.
      exec' = ?E \<longrightarrow> J (globs s) \<longrightarrow> J (globs (snd y))"], intro impI)
    fix loop host start accessed len area index byteLen y and s :: "'a world" and exec' :: "'a world exec"
    assume IH: "\<And>exec' host start accessed len area index byteLen s y.
        loop exec' host start accessed len area index byteLen s = Some y \<Longrightarrow>
        exec' = ?E \<longrightarrow> J (globs s) \<longrightarrow> J (globs (snd y))"
      and step: "bind_act (GenerateFruData ((start + index * 16) div accessed) byteLen) (\<lambda>_.
        bind_act get_globs (\<lambda>g.
        bind_act (catch_act (exec' (request (cmdFruData g)) host)) (\<lambda>resp t.
        case resp of Inl e \<Rightarrow> return_act area t
        | Inr response \<Rightarrow> bind_act (lift_go (bind_go (slice_from (RespData response) 1) (store_fru area index)))
           (\<lambda>area u. if (index + 1) * 16 < len
             then loop exec' host start accessed len area (index + 1) (next_read len index) u
             else return_act area u) t))) s = Some y"
      and "exec' = ?E" "J (globs s)"
    have loop: "preserves (\<lambda>s. J (globs s)) (loop ?E host start accessed len area index byteLen)" for area index byteLen
      using IH by (simp add: preserves_iff)
    have "preserves (\<lambda>s. J (globs s)) (bind_act (GenerateFruData ((start + index * 16) div accessed) byteLen) (\<lambda>_.
        bind_act get_globs (\<lambda>g.
        bind_act (catch_act (?E (request (cmdFruData g)) host)) (\<lambda>resp t.
        case resp of Inl e \<Rightarrow> return_act area t
        | Inr response \<Rightarrow> bind_act (lift_go (bind_go (slice_from (RespData response) 1) (store_fru area index)))
           (\<lambda>area u. if (index + 1) * 16 < len
             then loop ?E host start accessed len area (index + 1) (next_read len index) u
             else return_act area u) t))))"
      by (intro preserves_bind GenerateFruData_keeps preserves_get_globs preserves_catch layer.exec_keeps
          preserves_sum_tail preserves_return preserves_lift preserves_tail loop)
    then show "J (globs (snd y))" using step \<open>exec' = ?E\<close> \<open>J (globs s)\<close> by (simp only: preserves_iff)
  qed
  with \<open>J (globs s)\<close> show "J (globs (snd y))" by blast
qed

lemma product_info_keeps: "preserves (\<lambda>s. J (globs s)) (product_info (ExecRaw P al) host areaSize accessed start)"
  unfolding product_info_def read_product_area_def
  by (intro preserves_intros GenerateFruData_keeps exec_fru_keeps fru_loop_keeps)

lemma GetInventoryInfo_keeps: "preserves (\<lambda>s. J (globs s)) (GetInventoryInfo (ExecRaw P al) host)"
  unfolding GetInventoryInfo_def
  by (intro preserves_intros layer.exec_tail_keeps preserves_modify_globs exec_fru_keeps product_info_keeps
      layer.add_metric_keeps) (simp add: fru_size)

lemma bind_get_globs_keeps:
  "(\<And>g. J g \<Longrightarrow> preserves (\<lambda>s. J (globs s)) (f g)) \<Longrightarrow> preserves (\<lambda>s. J (globs s)) (bind_act get_globs f)"
  unfolding preserves_def bind_act_Val [OF get_globs_apply] by blast

lemma GetComponentHealth_keeps: "preserves (\<lambda>s. J (globs s)) (GetComponentHealth (ExecRaw P al) host)"
proof -
  have "preserves (\<lambda>s. J (globs s)) (case sdrInfos g of
         None \<Rightarrow> bind_act (ScanSdr (ExecRaw P al) d host) (\<lambda>infos.
                  bind_act (modify_globs (\<lambda>g. g\<lparr>sdrInfos := Some infos\<rparr>)) (\<lambda>_. return_act infos))
       | Some infos \<Rightarrow> return_act infos)" if "J g" for g d
    using scanned [OF that]
    by (cases "sdrInfos g") (auto intro!: preserves_intros layer.ScanSdr_keeps preserves_modify_globs)
  then show ?thesis
    unfolding GetComponentHealth_def
    by (intro preserves_bind layer.GetDeviceId_keeps bind_get_globs_keeps layer.GetSdrData_keeps preserves_return)
qed

section \<open>The calls of the collector\<close>

lemma inventory_loop_globs: "preserves (\<lambda>s. J (globs (world s))) (inventory_loop (ExecRaw P al) hosts)"
  by (induction hosts)
     (auto intro!: preserves_intros preserves_world preserves_modify_ic GetInventoryInfo_keeps)

lemma health_loop_globs: "preserves (\<lambda>s. J (globs (world s))) (health_loop (ExecRaw P al) hosts)"
  by (induction hosts)
     (auto intro!: preserves_intros preserves_world preserves_modify_ic GetComponentHealth_keeps)

lemma fresh_mutex_globs: "preserves (\<lambda>s. J (globs s)) fresh_mutex"
  by (simp add: preserves_def fresh_mutex_def)

lemma construct_globs: "preserves (\<lambda>s. J (globs (world s))) (construct P cfg)"
  unfolding construct_def install_def
  by (intro preserves_bind preserves_lift preserves_modify_ic preserves_case_layer preserves_return
      preserves_world caps_keep fresh_mutex_globs inventory_loop_globs) simp_all

lemma GetMetricTypes_globs: "preserves (\<lambda>s. J (globs (world s))) (GetMetricTypes N P cfg)"
  unfolding GetMetricTypes_def
  by (intro preserves_intros construct_globs preserves_modify_ic) simp_all

lemma batch_loop_keeps: "preserves (\<lambda>s. J (globs s)) (batch_loop_hosts (BatchExecRaw P al) vendor hosts response)"
  by (induction hosts arbitrary: response) (auto intro!: preserves_intros BatchExecRaw_keeps)

lemma CollectMetrics_globs: "preserves (\<lambda>s. J (globs (world s))) (CollectMetrics N P mts)"
proof -
  have "preserves (\<lambda>s. J (globs (world s))) (\<lambda>s. Some (Val (Now P (env (world s))), s))"
    by (simp add: preserves_def)
  then show ?thesis
    unfolding CollectMetrics_def collect_metric_def metric_value_def
    by (intro preserves_intros preserves_world construct_globs batch_loop_keeps health_loop_globs
        preserves_modify_ic) simp_all
qed

lemma session_globs:
  assumes "session N P s cs t" and "J (globs (world s))"
  shows "J (globs (world t))"
  using assms(1)
proof (induction rule: session.induct)
  case (list_call cs t cfg r u)
  show ?case by (rule preservesD [OF GetMetricTypes_globs list_call.IH list_call.hyps(2)])
next
  case (collect_call cs t mts r u)
  show ?case by (rule preservesD [OF CollectMetrics_globs collect_call.IH collect_call.hyps(2)])
qed (use assms(2) in simp_all)

end

section \<open>Instances\<close>

definition shared_commands :: "globals \<Rightarrow> bool" where
  \<comment> \<open>each shared request is the command it was made as, up to the bytes that are filled in\<close>
  "shared_commands g \<longleftrightarrow>
     (\<exists>lo hi n. cmdFruData g = [0xa, 0x11, 0, lo, hi, n])
     \<and> (\<exists>lo hi. cmdSDR g = [0xa, 0x23, 0, 0, lo, hi, 0, 8])
     \<and> (\<exists>sensor. dcmiThermalData g = [0x4, 0x2d, sensor])"

interpretation commands: stable_globals shared_commands
  by unfold_locales (auto simp: shared_commands_def)

interpretation scan: stable_globals "\<lambda>g. sdrInfos g = Some infos" for infos
  by unfold_locales simp_all

text \<open>No command of a backend touches the scan, whether there is one or not.\<close>

interpretation untouched: lock_free "\<lambda>s :: 'w world. sdrInfos (globs s) = infos" for infos
  by unfold_locales simp_all

end
