(* ===== verification/Collector_Scan.thy ===== *)
theory Collector_Scan
  imports Collector_Values Collector_Globals
begin

text \<open>
  The scan of the sensors over a session: which calls make it, what they store, and that once it is
  stored every later health is computed without a command to the repository.
\<close>

section \<open>One health\<close>

definition health_of :: "'s exec \<Rightarrow> SdrInfo list \<Rightarrow> string \<Rightarrow> ('s, (string, string) gomap) act" where
  \<comment> \<open>the health of known sensors: the device id, then one reading of each sensor, and no scan\<close>
  "health_of exec infos host =
     bind_act (GetDeviceId exec host) (\<lambda>_. bind_act (GetSdrData exec infos host)
       (\<lambda>sdrStatus. return_act (fold judge sdrStatus [])))"

lemma health_without_scan:
  assumes "sdrInfos (globs w) = Some infos"
  shows "GetComponentHealth (ExecRaw P al) host w = health_of (ExecRaw P al) infos host w"
proof (cases "GetDeviceId (ExecRaw P al) host w")
  case None
  then show ?thesis by (simp add: GetComponentHealth_def health_of_def act_simps)
next
  case (Some rv)
  obtain r v where rv: "rv = (r, v)" by fastforce
  have "sdrInfos (globs v) = Some infos"
    by (rule preservesD [OF untouched.layer.GetDeviceId_keeps assms Some [unfolded rv]])
  then show ?thesis
    by (cases r) (simp_all add: GetComponentHealth_def health_of_def Some rv act_simps)
qed

definition scan_gives :: "'w world exec \<Rightarrow> string \<Rightarrow> 'w world \<Rightarrow> SdrInfo list \<Rightarrow> bool" where
  \<comment> \<open>the device names itself, and the scan of its repository returns these sensors\<close>
  "scan_gives exec host w infos \<longleftrightarrow>
     (\<exists>d v u. GetDeviceId exec host w = Some (Val d, v) \<and> ScanSdr exec (IsDeviceSdr d) host v = Some (Val infos, u))"

lemma health_stores_scan:
  assumes "GetComponentHealth (ExecRaw P al) host w = Some (Val ret, v)"
  shows "\<exists>infos. sdrInfos (globs v) = Some infos
    \<and> (case sdrInfos (globs w) of Some old \<Rightarrow> infos = old | None \<Rightarrow> scan_gives (ExecRaw P al) host w infos)"
proof -
  let ?exec = "ExecRaw P al"
  obtain d w1 infos w2 st where id: "GetDeviceId ?exec host w = Some (Val d, w1)"
    and infos: "(case sdrInfos (globs w1) of
         None \<Rightarrow> bind_act (ScanSdr ?exec (IsDeviceSdr d) host) (\<lambda>infos.
                  bind_act (modify_globs (\<lambda>g. g\<lparr>sdrInfos := Some infos\<rparr>)) (\<lambda>_. return_act infos))
       | Some infos \<Rightarrow> return_act infos) w1 = Some (Val infos, w2)"
    and data: "GetSdrData ?exec infos host w2 = Some (Val st, v)"
    using assms unfolding GetComponentHealth_def by (auto simp: bind_act_eq_Val act_simps)
  have old: "sdrInfos (globs w1) = sdrInfos (globs w)"
    by (rule preservesD [OF untouched.layer.GetDeviceId_keeps refl id])
  have "sdrInfos (globs w2) = Some infos
    \<and> (case sdrInfos (globs w) of Some old \<Rightarrow> infos = old | None \<Rightarrow> scan_gives ?exec host w infos)"
    using infos id old by (auto simp: scan_gives_def bind_act_eq_Val act_simps plugin_simps modify_globs_def
        split: option.splits)
  moreover have "sdrInfos (globs v) = sdrInfos (globs w2)"
    by (rule preservesD [OF untouched.layer.GetSdrData_keeps refl data])
  ultimately show ?thesis by auto
qed

section \<open>The session\<close>

text \<open>
  C10. The package variables over any session from the start of the plugin, with any calls, backends,
  devices and outcomes, the devices of the later part being different ones: every shared request stays
  the command it is meant to be, whatever was filled into it. Every health that is computed leaves a
  scan stored, the one that was there or else the sensors that the scan of this very call returned. Once
  a scan is stored it is kept, and from then on the health of any host is computed from its sensors
  without reading a repository again, so that one that changes later is not noticed.
\<close>

theorem package_state_invariant:
  assumes "globs (world s) = init_globals" and "session N P s cs t" and "session N P' t cs' u"
  shows "shared_commands (globs (world t)) \<and> shared_commands (globs (world u))
    \<and> (\<forall>al host ret w. GetComponentHealth (ExecRaw P al) host (world t) = Some (Val ret, w) \<longrightarrow>
         (\<exists>infos. sdrInfos (globs w) = Some infos
           \<and> (case sdrInfos (globs (world t)) of
                Some old \<Rightarrow> infos = old
              | None \<Rightarrow> scan_gives (ExecRaw P al) host (world t) infos)))
    \<and> (\<forall>infos. sdrInfos (globs (world t)) = Some infos \<longrightarrow>
         sdrInfos (globs (world u)) = Some infos
         \<and> (\<forall>al host. GetComponentHealth (ExecRaw P' al) host (world u)
              = health_of (ExecRaw P' al) infos host (world u)))"
proof (intro conjI allI impI)
  have "shared_commands (globs (world s))" by (simp add: assms(1) shared_commands_def init_globals_def)
  then show t: "shared_commands (globs (world t))" by (rule commands.session_globs [OF assms(2)])
  show "shared_commands (globs (world u))" by (rule commands.session_globs [OF assms(3) t])
  fix infos
  assume "sdrInfos (globs (world t)) = Some infos"
  then show u: "sdrInfos (globs (world u)) = Some infos" by (rule scan.session_globs [OF assms(3)])
  show "GetComponentHealth (ExecRaw P' al) host (world u) = health_of (ExecRaw P' al) infos host (world u)" for al host
    by (rule health_without_scan [OF u])
qed (rule health_stores_scan)

definition changed_device :: "byte list \<Rightarrow> byte list" where
  \<comment> \<open>the sample device with other memories: no product area, no repository and another MAC address\<close>
  "changed_device cmd = (if take 2 cmd = [0x2c, 2] then tl power_answer else replicate 16 0)"

abbreviation changed_platform :: "(nat \<times> byte list) list platform" where
  "changed_platform \<equiv> device_platform changed_device"

lemma changed_device_short: "length (changed_device cmd) < 1024"
  by (simp add: changed_device_def power_answer_def)

lemma collecting_health_scans:
  "\<exists>r t. CollectMetrics list_ns site_platform [asked (makeName list_ns ''health/temperature'')] site_plugin = Some (r, t)
     \<and> sdrInfos (globs (world t)) = Some (sensors_from sample_repo 0)"
proof -
  let ?mt = "asked (makeName list_ns ''health/temperature'') :: string list MetricType"
  obtain w where w: "BatchExecRaw site_platform dcmi_layer
      (map (\<lambda>rd. resolve (globs (world site_plugin)) (Request rd)) DCMIVendor) ''node'' (world site_plugin)
    = Some (Val [\<lparr>RespData = power_answer, IsValid = 1\<rparr>], (world site_plugin)\<lparr>env := w\<rparr>)"
    using site_batch by blast
  let ?s = "site_plugin\<lparr>world := (world site_plugin)\<lparr>env := w\<rparr>\<rparr>"
  have ic: "Initialized (collector site_plugin)" "IpmiLayer (collector site_plugin) = Some dcmi_layer"
    "Hosts (collector site_plugin) = [''node'']" "lookup_or [] (Vendor (collector site_plugin)) ''node'' = DCMIVendor"
    by (simp_all add: site_plugin_def dcmi_plugin_def New_def lookup_or_def)
  have free: "\<not> oobLocked (world ?s)" "sdrInfos (globs (world ?s)) = None"
    by (simp_all add: site_plugin_def dcmi_plugin_def inband_world_def init_globals_def)
  have dev: "device site_platform dcmi_layer ''node'' site_device"
    unfolding dcmi_layer_def by (rule device_platform_device) (rule site_device_short)
  have "collecting (collector site_plugin) site_device False (sensors_from sample_repo 0) ?s"
    using free site_known [OF free(2)] by (simp add: collecting_def same_setup_def free_with_def)
  from health_value [OF ic(2,3) dev site_id site_sensors site_values(4) this] obtain t where
    t: "metric_value site_platform [(''node'', site_cache)] ''node'' ''health/temperature'' ?s
      = Some (Val (StringData (reported site_status (sensors_from sample_repo 0) ''health/temperature'')), t)"
      "sdrInfos (globs (world t)) = Some (sensors_from sample_repo 0)"
    by blast
  have "CollectMetrics list_ns site_platform [?mt] site_plugin
      = map_act (collect_metric list_ns site_platform [(''node'', site_cache)]
          (Now site_platform (env ((world site_plugin)\<lparr>env := w\<rparr>))) ''node'') [?mt] ?s"
    using CollectMetrics_run [OF ic(1-3), unfolded ic(4), OF w, of list_ns "[?mt]", unfolded site_values(1) bind_lift_Val]
    by simp
  also have "\<dots> = Some (Val [new_metric (MetricNamespace ?mt) ''node'' (Now site_platform (env ((world site_plugin)\<lparr>env := w\<rparr>)))
      (StringData (reported site_status (sensors_from sample_repo 0) ''health/temperature''))], t)"
    using t(1) by (simp add: collect_metric_def asked_def parse_makeName [OF list_ns_law] act_simps)
  finally show ?thesis using t(2) by blast
qed

lemma package_state_invariant_witness:
  "\<exists>t. session list_ns site_platform site_plugin [Collect [asked (makeName list_ns ''health/temperature'')]] t
     \<and> shared_commands (globs (world t)) \<and> sdrInfos (globs (world t)) = Some (sensors_from sample_repo 0)
     \<and> GetComponentHealth (ExecRaw changed_platform dcmi_layer) ''node'' (world t)
       = health_of (ExecRaw changed_platform dcmi_layer) (sensors_from sample_repo 0) ''node'' (world t)
     \<and> length (sensors_from sample_repo 0) = 2"
proof -
  obtain r t where run: "CollectMetrics list_ns site_platform [asked (makeName list_ns ''health/temperature'')] site_plugin
      = Some (r, t)" and scan: "sdrInfos (globs (world t)) = Some (sensors_from sample_repo 0)"
    using collecting_health_scans by blast
  have st: "session list_ns site_platform site_plugin [Collect [asked (makeName list_ns ''health/temperature'')]] t"
    using collect_call [OF begin_session run] by simp
  have tu: "session list_ns changed_platform t [] t" by (rule begin_session)
  have "globs (world site_plugin) = init_globals" by (simp add: site_plugin_def dcmi_plugin_def inband_world_def)
  note inv = package_state_invariant [OF this st tu]
  have "length (sensors_from sample_repo 0) = 2" by code_simp
  with inv scan st show ?thesis by (intro exI [of _ t] conjI) simp_all
qed

end
