(* ===== verification/Collector_Inventory.thy ===== *)
theory Collector_Inventory
  imports Collector_Scan
begin

text \<open>
  The inventory, from the device's memory to the published metric: \<open>construct\<close> probes the
  capabilities, which on every backend leaves \<open>CmdFruData\<close> alone (\<open>caps_keep_fru\<close>), then reads the
  inventory through the same backend, and no later collection reads it again, whatever platform is
  then in place of the one at initialization.
\<close>

section \<open>Probing keeps the read command\<close>

interpretation fru_kept: lock_free "\<lambda>s :: 'w world. cmdFruData (globs s) = c" for c
  by unfold_locales simp_all

interpretation unlocked: probing "\<lambda>s :: 'w world. \<not> oobLocked s"
  by unfold_locales simp_all

text \<open>Behind the probe the mutex is free, or the inventory would wait for it forever.\<close>

lemma caps_keep_fru:
  assumes "GetPlatformCapabilities P al requests hosts s = Some (r, w)" and "cmdFruData (globs s) = c"
    and "\<not> oobLocked s" and "GetInventoryInfo (ExecRaw P al) host w \<noteq> None"
  shows "cmdFruData (globs w) = c \<and> \<not> oobLocked w"
proof
  show "cmdFruData (globs w) = c" by (rule preservesD [OF fru_kept.caps_keep assms(2,1)])
  show "\<not> oobLocked w"
  proof (cases al)
    case (LocalLayer l)
    then show ?thesis using preservesD [OF unlocked.local_caps_keep assms(3)] assms(1) by simp
  next
    case (OobLayer l)
    then show ?thesis using assms(4) by (auto simp: inventory_locked)
  next
    case (InbandLayer l)
    then show ?thesis using preservesD [OF unlocked.inband_caps_keep assms(3)] assms(1) by simp
  qed
qed

section \<open>The inventory of an installed collector\<close>

lemma at_fru_free: "at_fru (free_with (\<lambda>_. True)) c = free_with (\<lambda>g. cmdFruData g = c)"
  by (rule ext) (auto simp: at_fru_def free_with_def)

lemma device_fru: "device P al host f \<Longrightarrow> fru_device (free_with (\<lambda>_. True)) (ExecRaw P al) host f"
  unfolding fru_device_def at_fru_free by (auto simp: device_answers free_with_def)

lemma New_install:
  assumes "collector s = New" and "construct P cfg s = Some (Val (), t)"
    and "IpmiLayer (collector t) = Some al" and "Hosts (collector t) = [host]"
  obtains protocol s' where "install P protocol al [host] s' = Some (Val (), t)" and "world s' = world s"
    and "layer_protocol al = protocol" and "(\<exists>local. al = LocalLayer local) \<longrightarrow> host = Hostname (System P)"
proof -
  obtain mode protocol channel slave user pass layer where
    layer: "layer_of mode cfg (Hostname (System P)) channel slave user pass protocol = Val layer"
    and run: "install_case P protocol layer (s\<lparr>collector := (collector s)\<lparr>Mode := mode\<rparr>\<rparr>) = Some (Val (), t)"
    using assms(2) unfolding construct_def install_case_def
    by (auto simp: bind_act_eq_Val lift_go_apply plugin_simps)
  show ?thesis
  proof (cases layer)
    case None
    then show ?thesis using run assms(1,3) by (auto simp: install_case_def act_simps New_def)
  next
    case (Some ah)
    obtain al' hosts where ah: "ah = (al', hosts)" by fastforce
    have install: "install P protocol al' hosts (s\<lparr>collector := (collector s)\<lparr>Mode := mode\<rparr>\<rparr>) = Some (Val (), t)"
      using run by (simp add: Some ah install_case_def)
    from install_Val [OF this] obtain vendor w t1 where
      inv: "inventory_loop (ExecRaw P al') hosts (s\<lparr>collector := (collector s)\<lparr>Mode := mode\<rparr>\<rparr>\<lparr>world := w,
        collector := (collector (s\<lparr>collector := (collector s)\<lparr>Mode := mode\<rparr>\<rparr>))\<lparr>IpmiLayer := Some al',
          Hosts := hosts, Vendor := vendor, Inventory := []\<rparr>\<rparr>) = Some (Val (), t1)"
      and t: "t = t1\<lparr>collector := (collector t1)\<lparr>Initialized := True\<rparr>\<rparr>" by metis
    have "preserves (\<lambda>s. IpmiLayer (collector s) = Some al' \<and> Hosts (collector s) = hosts)
        (inventory_loop (ExecRaw P al') hosts)"
      by (rule inventory_loop_keeps [where Q = "\<lambda>ic. IpmiLayer ic = Some al' \<and> Hosts ic = hosts"]) simp
    from preservesD [OF this _ inv] have "al' = al" "hosts = [host]"
      using assms(3,4) by (simp_all add: t)
    moreover have "layer_protocol al' = protocol" by (rule layer_of_protocol [OF layer [unfolded Some ah]])
    moreover have "hosts = [Hostname (System P)]" if "al' = LocalLayer local" for local
      using layer that by (auto simp: layer_of_def Some ah bind_go_eq_Val split: if_splits)
    ultimately show ?thesis
      using install by (intro that [of protocol "s\<lparr>collector := (collector s)\<lparr>Mode := mode\<rparr>\<rparr>"]) auto
  qed
qed

definition describes_product ::
  "(byte list \<Rightarrow> byte list) \<Rightarrow> uint16 \<Rightarrow> string \<Rightarrow> string \<Rightarrow> (string, string) gomap \<Rightarrow> bool" where
  \<comment> \<open>a memory whose header, read at \<open>off\<close>, names a product area with these texts, a firmware version
      and a MAC address\<close>
  "describes_product f off version mac texts \<longleftrightarrow>
     (\<exists>mem start len. serves_fru f mem \<and> unat off + 8 \<le> length mem
       \<and> start = area_start mem (unat off) \<and> unat start + 2 \<le> length mem
       \<and> len = area_length mem start \<and> len \<noteq> 0 \<and> unat start + unat len \<le> length mem
       \<and> product_fields product_metrics (take (unat len) (drop (unat start) mem)) len 3 [] = Val texts)
     \<and> firmware_version (f [0x6, 0x1]) = Val version
     \<and> mac_address (f [0xc, 0x2, 0x1, 0x5, 0x0, 0x0]) = Val mac"

definition device_inventory :: "string \<Rightarrow> string \<Rightarrow> (string, string) gomap \<Rightarrow> (string, string) gomap" where
  "device_inventory version mac texts =
     AList.update ''inventory/bmc_mac'' mac (AList.update ''inventory/firmware_version'' version texts)"

lemma described_inventory:
  assumes "device P al host f" and "describes_product f off version mac texts"
    and "\<not> oobLocked s" and "cmdFruData (globs s) = fru_command off n"
  shows "\<exists>t. GetInventoryInfo (ExecRaw P al) host s = Some (Val (device_inventory version mac texts), t)"
proof -
  obtain mem start len where fru: "serves_fru f mem" "unat off + 8 \<le> length mem"
    "start = area_start mem (unat off)" "unat start + 2 \<le> length mem" "len = area_length mem start" "len \<noteq> 0"
    "unat start + unat len \<le> length mem"
    "product_fields product_metrics (take (unat len) (drop (unat start) mem)) len 3 [] = Val texts"
    and extras: "firmware_version (f [0x6, 0x1]) = Val version"
    "mac_address (f [0xc, 0x2, 0x1, 0x5, 0x0, 0x0]) = Val mac"
    using assms(2) unfolding describes_product_def by (elim exE conjE)
  have "at_fru (free_with (\<lambda>_. True)) (fru_command off n) s"
    using assms(3,4) by (simp add: at_fru_def free_with_def)
  with gives_inventory [OF device_fru [OF assms(1)] fru extras, of n]
  show ?thesis by (auto simp: gives_def device_inventory_def)
qed

lemma installed_inventory:
  assumes "install P protocol al [host] s = Some (Val (), t)" and "device P al host f"
    and "describes_product f off version mac texts" and "cmdFruData (globs (world s)) = fru_command off n"
  shows "Inventory (collector t) = [(host, device_inventory version mac texts)]"
proof -
  obtain vendor w t1 where
    caps: "GetPlatformCapabilities P al (if protocol = ''node_manager'' then GenericVendor else DCMIVendor) [host]
       ((world s)\<lparr>oobLocked := False\<rparr>) = Some (Val vendor, w)"
    and inv: "inventory_loop (ExecRaw P al) [host] (s\<lparr>world := w, collector := (collector s)\<lparr>IpmiLayer := Some al,
       Hosts := [host], Vendor := vendor, Inventory := []\<rparr>\<rparr>) = Some (Val (), t1)"
    and t: "t = t1\<lparr>collector := (collector t1)\<lparr>Initialized := True\<rparr>\<rparr>"
    using install_Val [OF assms(1)] .
  have "GetInventoryInfo (ExecRaw P al) host w \<noteq> None"
  proof
    assume "GetInventoryInfo (ExecRaw P al) host w = None"
    then have "catch_act (GetInventoryInfo (ExecRaw P al) host) w = None" by (simp add: catch_act_def)
    with inv show False by (simp add: act_simps plugin_simps)
  qed
  from caps_keep_fru [OF caps _ _ this, of "fru_command off n"]
  have "cmdFruData (globs w) = fru_command off n" "\<not> oobLocked w" using assms(4) by simp_all
  then obtain w' where "GetInventoryInfo (ExecRaw P al) host w = Some (Val (device_inventory version mac texts), w')"
    using described_inventory [OF assms(2,3)] by blast
  then show ?thesis
    using inv by (auto simp: t act_simps plugin_simps error_map_def)
qed

section \<open>Every collection publishes it\<close>

lemma inventory_value:
  "metric_source key = FromInventory \<Longrightarrow>
     metric_value P responseCache host key s =
       Some (Val (StringData (lookup_or [] (lookup_or [] (Inventory (collector s)) host) key)), s)"
  by (simp add: metric_value_def metric_source_Contains act_simps plugin_simps split: if_splits)

text \<open>
  C4. The inventory, on every backend. A new collector is initialized on the platform \<open>P\<close>, on a
  device that answers and whose memory describes a product. From then on the platform is \<open>P'\<close>: another
  operating system, kernel driver and device, of which nothing is assumed, with a state of its own that
  changes between the calls, so that the memory may be another one or may not answer at all. Whatever is
  collected meanwhile, every collection whose batch is valid gives the inventory metrics the texts, the
  firmware version and the MAC address that the device had at initialization.
\<close>

theorem inventory_end_to_end:
  assumes "collector s = New" and "construct P cfg s = Some (Val (), t)"
    and "IpmiLayer (collector t) = Some al" and "Hosts (collector t) = [host]"
    and "device P al host f" and "describes_product f off version mac texts"
    and "cmdFruData (globs (world s)) = fru_command off n"
    and "session N P' t cs u" and "list_all is_collect cs"
    and "descs = lookup_or [] (Vendor (collector u)) host"
    and "BatchExecRaw P' al (map (\<lambda>rd. resolve (globs (world u)) (Request rd)) descs) host (world u)
      = Some (Val resps, w)"
    and "cache_responses descs resps [] = Val cached"
    and "\<And>mt. mt \<in> set mts \<Longrightarrow> parseName N (MetricNamespace mt) = Val (key mt) \<and> key mt \<in> set InventoryMetrics"
  shows "CollectMetrics N P' mts u = Some (Val (map (\<lambda>mt. new_metric (MetricNamespace mt) host (Now P' (env w))
      (StringData (lookup_or [] (device_inventory version mac texts) (key mt)))) mts), u\<lparr>world := w\<rparr>)"
proof -
  obtain protocol s' where install: "install P protocol al [host] s' = Some (Val (), t)" "world s' = world s"
    by (rule New_install [OF assms(1-4)])
  have inv: "Inventory (collector t) = [(host, device_inventory version mac texts)]"
    using installed_inventory [OF install(1) assms(5,6), of n] assms(7) install(2) by simp
  have init: "Initialized (collector t)" by (rule install_Val [OF install(1)]) simp
  have "same_setup (collector t) u"
    using session_setup [OF assms(8) _ assms(9)] init assms(3) by simp
  then obtain h where u: "collector u = (collector t)\<lparr>ComponentHealth := h\<rparr>"
    unfolding same_setup_def by blast
  let ?metric = "\<lambda>mt. new_metric (MetricNamespace mt) host (Now P' (env w))
      (StringData (lookup_or [] (device_inventory version mac texts) (key mt)))"
  have metric: "yields (\<lambda>v. v = u\<lparr>world := w\<rparr>) (collect_metric N P' c (Now P' (env w)) host mt) (Val (?metric mt))"
    if "mt \<in> set mts" for mt c
  proof -
    have "metric_source (key mt) = FromInventory"
      using assms(13) [OF that] table_sources(1) by (simp add: list_all_iff)
    then show ?thesis
      using assms(13) [OF that]
      by (simp add: yields_def collect_metric_def act_simps inventory_value u inv lookup_or_def [of _ "[(host, _)]"])
  qed
  have all: "yields (\<lambda>v. v = u\<lparr>world := w\<rparr>) (map_act (collect_metric N P' c (Now P' (env w)) host) mts)
      (Val (map ?metric mts))" for c
    by (rule yields_map_act) (rule metric)
  have run: "map_act (collect_metric N P' c (Now P' (env w)) host) mts (u\<lparr>world := w\<rparr>)
      = Some (Val (map ?metric mts), u\<lparr>world := w\<rparr>)" for c
    using yieldsD [OF all refl] by blast
  have ic: "Initialized (collector u)" "IpmiLayer (collector u) = Some al" "Hosts (collector u) = [host]"
    by (simp_all add: u init assms(3,4))
  show ?thesis
    using CollectMetrics_run [OF ic, folded assms(10), OF assms(11), of N mts, unfolded assms(12) bind_lift_Val]
    by (simp only: run)
qed

lemma install_described:
  assumes "GetPlatformCapabilities P al (if protocol = ''node_manager'' then GenericVendor else DCMIVendor) [host]
       ((world s)\<lparr>oobLocked := False\<rparr>) = Some (Val vendor, w)"
    and "device P al host f" and "describes_product f off version mac texts"
    and "\<not> oobLocked w" and "cmdFruData (globs w) = fru_command off n"
  shows "\<exists>t. install P protocol al [host] s = Some (Val (), t)"
  using described_inventory [OF assms(2-5)] assms(1) unfolding install_run
  by (auto simp: act_simps plugin_simps)

lemma site_thermal: "thermal_sensor (\<lambda>bs. 0 # site_device bs) init_globals = None"
  by code_simp

lemma site_extras:
  "firmware_version (site_device [0x6, 0x1]) = Val ''1.29''"
  "mac_address (site_device [0xc, 0x2, 0x1, 0x5, 0x0, 0x0]) = Val ''A4:BF:01:02:03:0F''"
  by code_simp+

definition site_texts :: "(string, string) gomap" where
  "site_texts = [(''inventory/product_manufacturer'', ''BA''), (''inventory/product_name'', ''CD''),
     (''inventory/product_serial'', ''EF'')]"

lemma site_describes: "describes_product site_device 0 ''1.29'' ''A4:BF:01:02:03:0F'' site_texts"
proof -
  have "site_device (fru_command off n) = memory_device (fru_command off n)" for off n
    by (simp add: site_device_def fru_command_def)
  moreover have "site_device [0xa, 0x10, 0] = memory_device [0xa, 0x10, 0]" by (simp add: site_device_def)
  ultimately have "serves_fru site_device fru_memory"
    using memory_serves by (simp add: serves_fru_def)
  moreover have "length fru_memory = 24" by (simp add: fru_memory_def)
  ultimately show ?thesis
    unfolding describes_product_def
    by (intro conjI exI [of _ fru_memory] exI [of _ 8] exI [of _ 16])
       (use memory_areas memory_texts site_extras in \<open>simp_all add: site_texts_def\<close>)
qed

lemma site_construct:
  obtains t where "construct site_platform dcmi_config \<lparr>collector = New, world = inband_world\<rparr> = Some (Val (), t)"
    and "IpmiLayer (collector t) = Some dcmi_layer" and "Hosts (collector t) = [''node'']"
    and "Vendor (collector t) = [(''node'', DCMIVendor)]"
proof -
  let ?al = "\<lparr>InbandDevice = ''/dev/ipmi0'', InbandProtocol = ''dcmi''\<rparr>"
  let ?s = "\<lparr>collector = New\<lparr>Mode := ''legacy_inband_openipmi''\<rparr>, world = inband_world\<rparr>"
  have K: "answering_kernel (Driver site_platform) mset (\<lambda>_ bs. 0 # site_device bs)"
    by (rule device_platform_answers) (rule site_device_short)
  have cfg: "all_strings dcmi_config" "getMode dcmi_config = Val ''legacy_inband_openipmi''"
    "getProtocol dcmi_config = Val ''dcmi''"
    by (simp_all add: dcmi_config_def all_strings_def config_readers config_string_def)
  have wf: "wf_world inband_world" by (simp add: wf_world_def inband_world_def wf_init_globals)
  have host: "Hostname (System site_platform) = ''node''" by (simp add: device_platform_def kernel_platform_def)
  have globs: "globs inband_world = init_globals" "inband_world\<lparr>oobLocked := False\<rparr> = inband_world"
    by (simp_all add: inband_world_def)
  have table: "DCMIVendor \<noteq> []" "length DCMIVendor \<le> 3" by (simp_all add: DCMIVendor_def)
  obtain w where caps: "Inband_GetPlatformCapabilities (Driver site_platform) ?al DCMIVendor [''node''] inband_world
      = Some (Val [(''node'', DCMIVendor)], inband_world\<lparr>env := w\<rparr>)"
    using inband_dcmi_caps [OF K wf _ DCMIVendor_good table, of ?al "''node''" "[]"] site_thermal by (auto simp: globs)
  have dev: "device site_platform (InbandLayer ?al) ''node'' site_device"
    by (rule device_platform_device) (rule site_device_short)
  have cmd: "\<not> oobLocked (inband_world\<lparr>env := w\<rparr>)" "cmdFruData (globs (inband_world\<lparr>env := w\<rparr>)) = fru_command 0 0"
    by (simp_all add: inband_world_def init_globals_def fru_command_def)
  have "\<exists>t. install site_platform ''dcmi'' (InbandLayer ?al) [''node''] ?s = Some (Val (), t)"
    by (rule install_described [OF _ dev site_describes cmd]) (use caps globs in simp)
  then obtain t where t: "install site_platform ''dcmi'' (InbandLayer ?al) [''node''] ?s = Some (Val (), t)" by blast
  have "InbandProtocol ?al = ''dcmi''" "wf_world (world ?s)" using wf by simp_all
  note dcmi_install [OF K this(2,1) t]
  then show ?thesis
    using t site_thermal
    by (intro that [of t])
       (simp_all add: dcmi_construct [OF cfg] host dcmi_layer_def dcmi_table_def globs)
qed

lemma inventory_end_to_end_witness:
  "\<exists>t w. construct site_platform dcmi_config \<lparr>collector = New, world = inband_world\<rparr> = Some (Val (), t)
     \<and> CollectMetrics list_ns changed_platform (map (\<lambda>key. asked (makeName list_ns key))
         [''inventory/product_name'', ''inventory/bmc_mac'']) (t\<lparr>world := (world t)\<lparr>env := []\<rparr>\<rparr>)
       = Some (Val [new_metric (makeName list_ns ''inventory/product_name'') ''node'' 0 (StringData ''CD''),
           new_metric (makeName list_ns ''inventory/bmc_mac'') ''node'' 0 (StringData ''A4:BF:01:02:03:0F'')],
           t\<lparr>world := w\<rparr>)
     \<and> device changed_platform dcmi_layer ''node'' changed_device
     \<and> mac_address (changed_device [0xc, 0x2, 0x1, 0x5, 0x0, 0x0]) \<noteq> Val ''A4:BF:01:02:03:0F''"
proof -
  let ?mts = "map (\<lambda>key. asked (makeName list_ns key)) [''inventory/product_name'', ''inventory/bmc_mac'']"
  let ?key = "\<lambda>mt. case parseName list_ns (MetricNamespace mt) of Val key \<Rightarrow> key"
  obtain t where t: "construct site_platform dcmi_config \<lparr>collector = New, world = inband_world\<rparr> = Some (Val (), t)"
    "IpmiLayer (collector t) = Some dcmi_layer" "Hosts (collector t) = [''node'']"
    "Vendor (collector t) = [(''node'', DCMIVendor)]"
    by (rule site_construct)
  let ?u = "t\<lparr>world := (world t)\<lparr>env := []\<rparr>\<rparr>"
  have session: "session list_ns changed_platform t [] ?u" by (rule outside [OF begin_session])
  have vendor: "DCMIVendor = lookup_or [] (Vendor (collector ?u)) ''node''" by (simp add: t(4) lookup_or_def)
  have power: "changed_device [0x2c, 0x02, 0xdc, 0x01, 0x00, 0x00] = tl power_answer" by (simp add: changed_device_def)
  obtain w where w: "BatchExecRaw changed_platform dcmi_layer
      (map (\<lambda>rd. resolve (globs (world ?u)) (Request rd)) DCMIVendor) ''node'' (world ?u)
    = Some (Val [\<lparr>RespData = power_answer, IsValid = 1\<rparr>], w)"
    using power_batch [of changed_device ?u, OF changed_device_short power] by blast
  have keys: "parseName list_ns (MetricNamespace mt) = Val (?key mt) \<and> ?key mt \<in> set InventoryMetrics"
    if "mt \<in> set ?mts" for mt
    using that by (auto simp: asked_def parse_makeName [OF list_ns_law] InventoryMetrics_def)
  have dev: "device site_platform dcmi_layer ''node'' site_device"
    unfolding dcmi_layer_def by (rule device_platform_device) (rule site_device_short)
  have "CollectMetrics list_ns changed_platform ?mts ?u = Some (Val (map (\<lambda>mt. new_metric (MetricNamespace mt) ''node''
      (Now changed_platform (env w)) (StringData (lookup_or [] (device_inventory ''1.29'' ''A4:BF:01:02:03:0F'' site_texts)
        (?key mt)))) ?mts), ?u\<lparr>world := w\<rparr>)"
    by (rule inventory_end_to_end [OF _ t(1-3) dev site_describes _ session _ vendor w site_values(1) keys, of 0])
       (simp_all add: inband_world_def init_globals_def fru_command_def)
  moreover have "Now changed_platform v = 0" for v by (simp add: device_platform_def kernel_platform_def)
  moreover have "device changed_platform dcmi_layer ''node'' changed_device"
    unfolding dcmi_layer_def by (rule device_platform_device) (rule changed_device_short)
  moreover have "mac_address (changed_device [0xc, 0x2, 0x1, 0x5, 0x0, 0x0]) \<noteq> Val ''A4:BF:01:02:03:0F''" by code_simp
  ultimately show ?thesis
    using t(1) by (auto simp: asked_def parse_makeName [OF list_ns_law] device_inventory_def lookup_or_def site_texts_def)
qed

end
