(* ===== verification/Collector_Probe.thy ===== *)
theory Collector_Probe
  imports Collector_Inventory
begin

text \<open>
  The two backends that run \<open>ipmitool\<close>, from the configuration to the published value: the capability
  probe finds exactly the requests whose output has data, in any order the goroutines run in, and a
  collection then gives the metrics of these requests the values of the output.
\<close>

section \<open>The capability probe\<close>

primrec probe_args :: "IpmiAL \<Rightarrow> string \<Rightarrow> byte list \<Rightarrow> string list" where
  \<comment> \<open>the command line of a probe; out of band it is bridged for one protocol only\<close>
  "probe_args (LocalLayer al) host req = local_args req al True"
| "probe_args (OobLayer al) host req = remote_args req al host (OobProtocol al = ''node_manager'')"
| "probe_args (InbandLayer al) host req = []"

definition says :: "'w os \<Rightarrow> string list \<Rightarrow> byte list \<Rightarrow> bool" where
  \<comment> \<open>what is read from \<open>ipmitool\<close> for a command line, nothing when it is missing or fails\<close>
  "says os args bs \<longleftrightarrow> (\<forall>w. fst (run_ipmitool os args w) = bs)"

lemma saysD: "says os args bs \<Longrightarrow> \<exists>w'. run_ipmitool os args w = (bs, w')"
  unfolding says_def by (metis prod.collapse)

lemma prints_says: "prints os args bs \<Longrightarrow> bs \<noteq> [] \<Longrightarrow> says os args (0 # bs)"
  unfolding says_def using run_prints by metis

lemma local_probe_finds:
  assumes "\<And>rd. rd \<in> set rds \<Longrightarrow> says os (local_args (ReqData (resolve (globs s) (Request rd))) al True) (ans rd)"
  shows "\<exists>w. local_probe os al rds acc s = Some (Val (acc @ filter (\<lambda>rd. has_data (ans rd)) rds), s\<lparr>env := w\<rparr>)"
  using assms
proof (induction rds arbitrary: acc s)
  case Nil
  show ?case by (intro exI [of _ "env s"]) (simp add: act_simps)
next
  case (Cons rd rds)
  obtain w where w: "ExecIpmiToolLocal os (ReqData (resolve (globs s) (Request rd))) al True (env s) = (ans rd, w)"
    unfolding ExecIpmiToolLocal_def using saysD [OF Cons.prems [of rd]] by auto
  obtain w' where "local_probe os al rds (if has_data (ans rd) then acc @ [rd] else acc) (s\<lparr>env := w\<rparr>)
      = Some (Val ((if has_data (ans rd) then acc @ [rd] else acc) @ filter (\<lambda>rd. has_data (ans rd)) rds),
          (s\<lparr>env := w\<rparr>)\<lparr>env := w'\<rparr>)"
    using Cons.IH [of "s\<lparr>env := w\<rparr>"] Cons.prems by fastforce
  with w show ?case
    by (intro exI [of _ w']) (simp add: act_simps)
qed

lemma caps_fold_finds:
  assumes "\<And>rd. rd \<in> set rds \<Longrightarrow>
      says os (remote_args (ReqData (resolve (globs s) (Request rd))) al addr (OobProtocol al = ''node_manager'')) (ans rd)"
    and "\<And>i. i \<in> set order \<Longrightarrow> i < length rds"
  shows "\<exists>w. fold (caps_body os al addr rds) order (valid, s) =
    (valid @ filter (\<lambda>rd. has_data (ans rd)) (map ((!) rds) order), s\<lparr>env := w\<rparr>)"
  using assms
proof (induction order arbitrary: valid s)
  case Nil
  show ?case by (intro exI [of _ "env s"]) simp
next
  case (Cons i order)
  then have i: "i < length rds" "rds ! i \<in> set rds" by simp_all
  obtain w where w: "ExecIpmiToolRemote os (ReqData (resolve (globs s) (Request (rds ! i)))) al addr
      (OobProtocol al = ''node_manager'') (env s) = (ans (rds ! i), w)"
    unfolding ExecIpmiToolRemote_def using saysD [OF Cons.prems(1) [OF i(2)]] by blast
  have "caps_body os al addr rds i (valid, s)
      = (if has_data (ans (rds ! i)) then valid @ [rds ! i] else valid, s\<lparr>env := w\<rparr>)"
    by (simp add: caps_body_def i(1) w)
  moreover obtain w' where "fold (caps_body os al addr rds) order
      (if has_data (ans (rds ! i)) then valid @ [rds ! i] else valid, s\<lparr>env := w\<rparr>)
    = ((if has_data (ans (rds ! i)) then valid @ [rds ! i] else valid)
         @ filter (\<lambda>rd. has_data (ans rd)) (map ((!) rds) order), (s\<lparr>env := w\<rparr>)\<lparr>env := w'\<rparr>)"
    using Cons.IH [of "s\<lparr>env := w\<rparr>"] Cons.prems by fastforce
  ultimately show ?case by (intro exI [of _ w']) simp
qed

lemma mset_schedule:
  assumes "schedule (length xs) order"
  shows "mset (map ((!) xs) order) = mset xs"
proof -
  have order: "distinct order" "set order = {..< length xs}" using assms by (simp_all add: schedule_def)
  have "mset order = mset [0 ..< length xs]"
    using set_eq_iff_mset_eq_distinct [OF order(1) distinct_upt, of 0 "length xs"] order(2)
    by (simp add: lessThan_atLeast0)
  then have "image_mset ((!) xs) (mset order) = image_mset ((!) xs) (mset [0 ..< length xs])" by (rule arg_cong)
  then show ?thesis unfolding mset_map [symmetric] map_nth .
qed

lemma tool_capabilities:
  assumes "\<And>inband. al \<noteq> InbandLayer inband" and "layer_protocol al \<noteq> ''dcmi''"
    and "\<And>local. al = LocalLayer local \<Longrightarrow> host = Hostname (System P)"
    and "fair_scheduler (Sched P)" and "\<not> oobLocked s"
    and "\<And>rd. rd \<in> set table \<Longrightarrow>
      says (System P) (probe_args al host (ReqData (resolve (globs s) (Request rd)))) (ans rd)"
  shows "\<exists>vendor w. GetPlatformCapabilities P al table [host] s = Some (Val [(host, vendor)], s\<lparr>env := w\<rparr>)
    \<and> mset vendor = mset (filter (\<lambda>rd. has_data (ans rd)) table)"
proof (cases al)
  case (LocalLayer l)
  obtain w where "local_probe (System P) l table [] s
      = Some (Val ([] @ filter (\<lambda>rd. has_data (ans rd)) table), s\<lparr>env := w\<rparr>)"
    using local_probe_finds [of table "System P" s l ans "[]"] assms(6) by (auto simp: LocalLayer)
  then show ?thesis
    using assms(2,3) by (auto simp: LocalLayer Local_GetPlatformCapabilities_def act_simps)
next
  case (OobLayer l)
  let ?n = "length table"
  have count: "caps_count l table = ?n" using assms(2) by (simp add: OobLayer caps_count_def)
  have sched: "schedule ?n (Sched P ?n)" using assms(4) by (simp add: fair_scheduler_def)
  then have order: "i < ?n" if "i \<in> set (Sched P ?n)" for i using that by (auto simp: schedule_def)
  obtain w where "fold (caps_body (System P) l host table) (Sched P ?n) ([], s)
      = ([] @ filter (\<lambda>rd. has_data (ans rd)) (map ((!) table) (Sched P ?n)), s\<lparr>env := w\<rparr>)"
    using caps_fold_finds [of table "System P" s l host ans "Sched P ?n" "[]"] assms(6) order by (auto simp: OobLayer)
  moreover have "run_goroutines (caps_style ?n) (caps_body (System P) l host table) (Sched P ?n) False ([], s)
      = Some (fold (caps_body (System P) l host table) (Sched P ?n) ([], s), False)"
    by (rule run_releasing) (simp add: caps_style_def order)
  moreover have "mset (filter (\<lambda>rd. has_data (ans rd)) (map ((!) table) (Sched P ?n)))
      = mset (filter (\<lambda>rd. has_data (ans rd)) table)"
    by (simp only: mset_filter mset_schedule [OF sched])
  ultimately show ?thesis
    using assms(5)
    by (cases s) (auto simp: OobLayer Oob_GetPlatformCapabilities_def count act_simps)
next
  case (InbandLayer l)
  then show ?thesis using assms(1) by blast
qed

section \<open>From the configuration to the metric\<close>

definition request_bytes :: "RequestDescription \<Rightarrow> byte list" where
  "request_bytes rd = ReqData (resolve init_globals (Request rd))"

lemma generic_bytes: "rd \<in> set GenericVendor \<Longrightarrow> ReqData (resolve g (Request rd)) = request_bytes rd"
  by (auto simp: GenericVendor_def describe_def request_bytes_def resolve_def)

lemma has_data_zero: "has_data (0 # bs) \<longleftrightarrow> (\<exists>b \<in> set bs. b \<noteq> 0)"
  by (simp add: has_data_iff)

lemma tool_install:
  assumes "install P protocol al [host] s = Some (Val (), t)" and "layer_protocol al = protocol"
    and "\<And>inband. al \<noteq> InbandLayer inband" and "protocol = ''node_manager''"
    and "\<And>local. al = LocalLayer local \<Longrightarrow> host = Hostname (System P)"
    and "fair_scheduler (Sched P)" and "wf_world (world s)"
    and "\<And>rd. rd \<in> set GenericVendor \<Longrightarrow> says (System P) (tool_args al host (request_bytes rd)) (ans rd)"
  shows "mset (lookup_or [] (Vendor (collector t)) host) = mset (filter (\<lambda>rd. has_data (ans rd)) GenericVendor)"
    and "layer_ready P al (world t)"
proof -
  obtain vendor w t1 where
    caps: "GetPlatformCapabilities P al (if protocol = ''node_manager'' then GenericVendor else DCMIVendor) [host]
       ((world s)\<lparr>oobLocked := False\<rparr>) = Some (Val vendor, w)"
    and inv: "inventory_loop (ExecRaw P al) [host] (s\<lparr>world := w, collector := (collector s)\<lparr>IpmiLayer := Some al,
       Hosts := [host], Vendor := vendor, Inventory := []\<rparr>\<rparr>) = Some (Val (), t1)"
    and t: "t = t1\<lparr>collector := (collector t1)\<lparr>Initialized := True\<rparr>\<rparr>"
    using install_Val [OF assms(1)] .
  have args: "probe_args al host (ReqData (resolve g (Request rd))) = tool_args al host (request_bytes rd)"
    if "rd \<in> set GenericVendor" for rd g
    using assms(2-4) by (cases al) (simp_all add: generic_bytes [OF that])
  have "\<exists>vendor' w'. GetPlatformCapabilities P al GenericVendor [host] ((world s)\<lparr>oobLocked := False\<rparr>)
      = Some (Val [(host, vendor')], (world s)\<lparr>oobLocked := False\<rparr>\<lparr>env := w'\<rparr>)
      \<and> mset vendor' = mset (filter (\<lambda>rd. has_data (ans rd)) GenericVendor)"
    by (rule tool_capabilities) (use assms args in auto)
  then obtain vendor' w' where v: "vendor = [(host, vendor')]" "w = (world s)\<lparr>oobLocked := False\<rparr>\<lparr>env := w'\<rparr>"
    "mset vendor' = mset (filter (\<lambda>rd. has_data (ans rd)) GenericVendor)"
    using caps assms(4) by auto
  have "preserves (\<lambda>s. Vendor (collector s) = vendor) (inventory_loop (ExecRaw P al) [host])"
    by (rule inventory_loop_keeps [where Q = "\<lambda>ic. Vendor ic = vendor"]) simp
  from preservesD [OF this _ inv] show "mset (lookup_or [] (Vendor (collector t)) host) =
      mset (filter (\<lambda>rd. has_data (ans rd)) GenericVendor)"
    by (simp add: t v lookup_or_def)
  have "layer_ready P al w"
    using assms(2-4,6,7) by (cases al) (simp_all add: v(2) oob_ready_def wf_world_def)
  then have "\<exists>r u. inventory_loop (ExecRaw P al) [host] (s\<lparr>world := w, collector := (collector s)\<lparr>IpmiLayer := Some al,
       Hosts := [host], Vendor := vendor, Inventory := []\<rparr>\<rparr>) = Some (r, u) \<and> layer_ready P al (world u)"
    by (intro returnsD [OF any_layer.returns_inventory_loop]) simp
  then have "layer_ready P al (world t1)" unfolding inv by blast
  then show "layer_ready P al (world t)" by (simp add: t)
qed

lemma tool_constructed:
  assumes "fair_scheduler (Sched P)" and "collector s = New" and "wf_world (world s)"
    and "construct P cfg s = Some (Val (), t)"
    and "IpmiLayer (collector t) = Some al" and "Hosts (collector t) = [host]"
    and "\<And>inband. al \<noteq> InbandLayer inband" and "layer_protocol al = ''node_manager''"
    and "\<And>rd. rd \<in> set GenericVendor \<Longrightarrow>
      prints (System P) (tool_args al host (request_bytes rd)) (f (request_bytes rd)) \<and> f (request_bytes rd) \<noteq> []"
  shows "mset (lookup_or [] (Vendor (collector t)) host)
      = mset (filter (\<lambda>rd. \<exists>b \<in> set (f (request_bytes rd)). b \<noteq> 0) GenericVendor)"
    and "layer_ready P al (world t)" and "Initialized (collector t)" and "plugin_ok t"
proof -
  obtain protocol s' where install: "install P protocol al [host] s' = Some (Val (), t)" "world s' = world s"
    "layer_protocol al = protocol" "(\<exists>local. al = LocalLayer local) \<longrightarrow> host = Hostname (System P)"
    by (rule New_install [OF assms(2,4-6)])
  have says: "says (System P) (tool_args al host (request_bytes rd)) (0 # f (request_bytes rd))"
    if "rd \<in> set GenericVendor" for rd
    using assms(9) [OF that] by (intro prints_says) simp_all
  have start: "protocol = ''node_manager''" "wf_world (world s')" using install(2,3) assms(3,8) by simp_all
  have here: "host = Hostname (System P)" if "al = LocalLayer local" for local using install(4) that by blast
  note found = tool_install [OF install(1,3) assms(7) start(1) here assms(1) start(2) says]
  show "mset (lookup_or [] (Vendor (collector t)) host)
      = mset (filter (\<lambda>rd. \<exists>b \<in> set (f (request_bytes rd)). b \<noteq> 0) GenericVendor)"
    using found(1) by (simp only: has_data_zero)
  show "layer_ready P al (world t)" by (rule found(2))
  show "Initialized (collector t)" by (rule install_Val [OF install(1)]) simp
  show "plugin_ok t"
    by (rule preservesD [OF construct_ok [OF assms(1)] _ assms(4)])
       (simp add: assms(2) collector_ok_def wf_collector_def New_def lookup_or_def)
qed

text \<open>
  C2. Both modes that run \<open>ipmitool\<close>, with the protocol \<open>node_manager\<close>: a new collector that is
  initialized asks exactly for the requests of the table whose output has a byte that is not zero,
  each once and under every schedule of the goroutines; and when these outputs are complete,
  collecting a metric of one of them gives the value that the wire layout assigns to its bytes.
\<close>

theorem tool_end_to_end:
  assumes "ns_law N" and "fair_scheduler (Sched P)" and "collector s = New" and "wf_world (world s)"
    and "construct P cfg s = Some (Val (), t)"
    and "IpmiLayer (collector t) = Some al" and "Hosts (collector t) = [host]"
    and "\<And>inband. al \<noteq> InbandLayer inband" and "layer_protocol al = ''node_manager''"
    and "\<And>rd. rd \<in> set GenericVendor \<Longrightarrow>
      prints (System P) (tool_args al host (request_bytes rd)) (f (request_bytes rd)) \<and> f (request_bytes rd) \<noteq> []"
    and "\<And>rd. rd \<in> set GenericVendor \<Longrightarrow> \<exists>b \<in> set (f (request_bytes rd)). b \<noteq> 0 \<Longrightarrow>
      full_length (Format rd) \<le> length (0 # f (request_bytes rd))"
    and "rd \<in> set GenericVendor" and "\<exists>b \<in> set (f (request_bytes rd)). b \<noteq> 0" and "(k, fld) \<in> set (layout (Format rd))"
    and "MetricNamespace mt = makeName N (extendPath (MetricsRoot rd) k)"
  shows "mset (lookup_or [] (Vendor (collector t)) host)
      = mset (filter (\<lambda>rd. \<exists>b \<in> set (f (request_bytes rd)). b \<noteq> 0) GenericVendor)
    \<and> (\<exists>w. CollectMetrics N P [mt] t = Some (Val [new_metric (MetricNamespace mt) host (Now P (env w))
        (Uint16Data (decode_field (0 # f (request_bytes rd)) fld))], t\<lparr>world := w\<rparr>))"
proof -
  let ?descs = "lookup_or [] (Vendor (collector t)) host"
  note found = tool_constructed [OF assms(2-10)]
  have descs: "set ?descs = {rd \<in> set GenericVendor. \<exists>b \<in> set (f (request_bytes rd)). b \<noteq> 0}"
    using mset_eq_setD [OF found(1)] by (simp only: set_filter)
  have ready: "fair_scheduler (Sched P) \<and> \<not> oobLocked (world t)" if "al = OobLayer oob" for oob
    using found(2) by (simp add: that oob_ready_def)
  have complete: "prints (System P) (tool_args al host (ReqData (resolve (globs (world t)) (Request rd))))
        (f (ReqData (resolve (globs (world t)) (Request rd))))
      \<and> full_length (Format rd) \<le> length (0 # f (ReqData (resolve (globs (world t)) (Request rd))))"
    if "rd \<in> set ?descs" for rd
    using that assms(10,11) by (simp add: descs generic_bytes)
  have mem: "rd \<in> set ?descs" unfolding descs using assms(12,13) by simp
  have "\<exists>w. CollectMetrics N P [mt] t = Some (Val [new_metric (MetricNamespace mt) host (Now P (env w))
      (Uint16Data (decode_field (0 # f (ReqData (resolve (globs (world t)) (Request rd)))) fld))], t\<lparr>world := w\<rparr>)"
    by (rule printed_value [OF assms(1) found(4,3) assms(6-8) ready refl refl complete mem assms(14,15)])
  with found(1) show ?thesis by (simp add: generic_bytes [OF assms(12)])
qed

definition power_only :: "byte list \<Rightarrow> byte list" where
  \<comment> \<open>a machine that knows the six statistics commands of the table\<close>
  "power_only bs = (if take 2 bs = [0x2e, 0xc8] then printed_power else [0, 0, 0])"

definition power_platform :: "unit platform" where
  "power_platform = \<lparr>System = reading_tool 1 power_only, Driver = undefined, Sched = (\<lambda>n. rev [0 ..< n]), Now = (\<lambda>_. 0)\<rparr>"

definition local_config :: config where
  "local_config = [(''mode'', ConfigValueStr ''legacy_inband''), (''protocol'', ConfigValueStr ''node_manager''),
     (''slave'', ConfigValueStr ''0'')]"

definition power_layer :: LinuxInBandIpmitool where
  "power_layer = \<lparr>LocalDevice = ''ipmitool'', LocalChannel = ''0x00'', LocalSlave = ''0'', LocalProtocol = ''node_manager''\<rparr>"

lemma no_inventory:
  assumes "device P al host f" and "f [0xa, 0x10, 0] = [0, 0, 0]" and "\<not> oobLocked s"
  shows "\<exists>w. GetInventoryInfo (ExecRaw P al) host s = Some (Err (InvalidFruInventoryAreaSize 0), w)"
proof -
  have "good_request CmdFruHeader" by (simp add: good_request_def CmdFruHeader_def)
  from device_run [OF assms(1) this assms(3)] obtain w where
    "ExecRaw P al CmdFruHeader host s = Some (Val \<lparr>RespData = [0, 0, 0, 0], IsValid = 1\<rparr>, w)"
    by (auto simp: CmdFruHeader_def assms(2))
  then show ?thesis
    by (intro exI [of _ w]) (simp add: GetInventoryInfo_def exec_tail_def area_size_def act_simps)
qed

lemma power_prints: "prints (System power_platform) (local_args bs power_layer isBridged) (power_only bs)"
  using reading_tool_prints [of "[''raw'']" 1 power_only bs]
  by (simp add: power_platform_def local_args_def power_layer_def)

lemma power_only_data: "power_only bs \<noteq> []"
  by (simp add: power_only_def printed_power_def)

lemma power_construct:
  obtains t where "construct power_platform local_config sample_plugin = Some (Val (), t)"
    and "IpmiLayer (collector t) = Some (LocalLayer power_layer)" and "Hosts (collector t) = [''node'']"
proof -
  let ?s = "sample_plugin\<lparr>collector := (collector sample_plugin)\<lparr>Mode := ''legacy_inband''\<rparr>\<rparr>"
  let ?al = "LocalLayer power_layer"
  have host: "Hostname (System power_platform) = ''node''"
    by (simp add: power_platform_def reading_tool_def sample_os_def)
  have run: "construct power_platform local_config sample_plugin = install power_platform ''node_manager'' ?al [''node''] ?s"
    by (simp add: construct_def local_config_def config_readers config_string_def layer_of_def host power_layer_def
        act_simps plugin_simps)
  have args: "says (System power_platform) (probe_args ?al ''node'' bs) (0 # power_only bs)" for bs
    unfolding probe_args.simps by (intro prints_says power_prints power_only_data)
  let ?w = "(world ?s)\<lparr>oobLocked := False\<rparr>"
  have sched: "fair_scheduler (Sched power_platform)" by (simp add: power_platform_def fair_rev)
  have "\<exists>vendor w. GetPlatformCapabilities power_platform ?al GenericVendor [''node''] ?w
      = Some (Val [(''node'', vendor)], ?w\<lparr>env := w\<rparr>)
      \<and> mset vendor = mset (filter (\<lambda>rd. has_data (0 # power_only (ReqData (resolve (globs ?w) (Request rd))))) GenericVendor)"
    by (rule tool_capabilities [OF _ _ _ sched _ args]) (simp_all add: host power_layer_def)
  then obtain vendor w where caps: "GetPlatformCapabilities power_platform ?al GenericVendor [''node''] ?w
      = Some (Val [(''node'', vendor)], ?w\<lparr>env := w\<rparr>)" by blast
  have dev: "device power_platform ?al ''node'' power_only"
    by (rule reading_tool_local) (simp_all add: power_only_data power_platform_def)
  have "power_only [0xa, 0x10, 0] = [0, 0, 0]" "\<not> oobLocked (?w\<lparr>env := w\<rparr>)" by (simp_all add: power_only_def)
  from no_inventory [OF dev this] obtain v where
    inv: "GetInventoryInfo (ExecRaw power_platform ?al) ''node'' (?w\<lparr>env := w\<rparr>) = Some (Err (InvalidFruInventoryAreaSize 0), v)"
    by blast
  have "\<exists>t. install power_platform ''node_manager'' ?al [''node''] ?s = Some (Val (), t)
      \<and> IpmiLayer (collector t) = Some ?al \<and> Hosts (collector t) = [''node'']"
    unfolding install_run using caps inv by (simp add: act_simps plugin_simps)
  then show ?thesis using that run by auto
qed

lemma tool_end_to_end_witness:
  "\<exists>t w. construct power_platform local_config sample_plugin = Some (Val (), t)
     \<and> CollectMetrics list_ns power_platform [asked power_ns] t
       = Some (Val [new_metric power_ns ''node'' 0 (Uint16Data 300)], t\<lparr>world := w\<rparr>)"
proof -
  obtain t where t: "construct power_platform local_config sample_plugin = Some (Val (), t)"
    "IpmiLayer (collector t) = Some (LocalLayer power_layer)" "Hosts (collector t) = [''node'']"
    by (rule power_construct)
  have sched: "fair_scheduler (Sched power_platform)" by (simp add: power_platform_def fair_rev)
  have start: "collector sample_plugin = New" "wf_world (world sample_plugin)"
    by (simp_all add: sample_plugin_def sample_world_def wf_world_def wf_init_globals)
  have proto: "layer_protocol (LocalLayer power_layer) = ''node_manager''" by (simp add: power_layer_def)
  have prints: "prints (System power_platform) (tool_args (LocalLayer power_layer) ''node'' (request_bytes rd))
      (power_only (request_bytes rd)) \<and> power_only (request_bytes rd) \<noteq> []" for rd
    by (simp add: power_prints power_only_data)
  have complete: "full_length (Format rd) \<le> length (0 # power_only (request_bytes rd))"
    if "rd \<in> set GenericVendor" "\<exists>b \<in> set (power_only (request_bytes rd)). b \<noteq> 0" for rd
    using that by (auto simp: GenericVendor_def describe_def request_bytes_def resolve_def nm_request_def
        power_only_def printed_power_def)
  let ?rd = "GenericVendor ! 2"
  have rd: "?rd \<in> set GenericVendor" "request_bytes ?rd = [0x2e, 0xc8, 0x57, 0x01, 0x00, 0x01, 0x00, 0x00]"
    by (simp_all add: GenericVendor_def describe_def request_bytes_def resolve_def nm_request_def)
  then have bytes: "power_only (request_bytes ?rd) = printed_power" by (simp add: power_only_def)
  have data: "\<exists>b \<in> set (power_only (request_bytes ?rd)). b \<noteq> 0" by (simp add: bytes printed_power_def)
  have "\<exists>w. CollectMetrics list_ns power_platform [asked power_ns] t =
    Some (Val [new_metric (MetricNamespace (asked power_ns)) ''node'' (Now power_platform (env w))
      (Uint16Data (decode_field (0 # power_only (request_bytes ?rd)) (Word16 4)))], t\<lparr>world := w\<rparr>)"
    by (rule conjunct2 [OF tool_end_to_end [OF list_ns_law sched start t _ proto prints complete rd(1) data,
        where k = "''cur''"]])
       (simp_all add: power_requests asked_def power_name)
  moreover have "decode_field (0 # printed_power) (Word16 4) = 300" by code_simp
  ultimately show ?thesis using t(1) by (auto simp: bytes asked_def power_platform_def)
qed

end
