(* ===== verification/Spec2Isabelle.thy ===== *)
theory Spec2Isabelle
  imports Collector_Probe
begin

text \<open>
  A model of the snap plugin that collects power, thermal, health and inventory metrics of a
  machine over IPMI, and the properties that make it correct.

  \<^bold>\<open>The program.\<close> The collector (\<open>src/intelDCMPlugin/plugin.go\<close>) is called by the snap framework.
  \<open>construct\<close> reads the configuration, chooses one of three backends that implement the Go interface
  \<open>IpmiAL\<close>, asks it which requests of a table the platform answers, and reads the inventory.
  \<open>GetMetricTypes\<close> does that and advertises the metrics. \<open>CollectMetrics\<close> sends the requests as one
  batch, validates and parses the answers into a cache, and takes each metric from the cache, the
  inventory or the component health. The backends run the program \<open>ipmitool\<close> on the local machine
  (\<open>inbandipmitool.go\<close>), run it once per command in goroutines against a remote machine (\<open>oob.go\<close>), or
  talk to the kernel's IPMI driver through a C function (\<open>inband.go\<close>, \<open>linux_inband.c\<close>). The sensor
  repository and the inventory (\<open>sdr.go\<close>, \<open>fru.go\<close>) are read through whichever backend is in use.

  \<^bold>\<open>How Go is modelled\<close> (\<open>Prelude\<close>, \<open>Go_Strings\<close>). Bytes and \<open>uint16\<close> are words and wrap around. A
  pure call is a value of \<open>'a go\<close>: a result, an error value or a run-time panic. A call with effects
  is a function \<open>('s, 'a) act\<close>; its value \<open>None\<close> says that it never returns, by an endless loop or a
  mutex that stays locked. Effects made before an error or a panic are kept. Maps are association
  lists with distinct keys. The package variables the program writes (request bytes shared by several
  calls, the cached sensor scan) are the record \<open>globals\<close>; with the environment and the mutex of the
  out-of-band backend they are the record \<open>world\<close>, and with the collector the record \<open>plugin\<close>.

  \<^bold>\<open>The theories\<close>, below \<open>src/ipmi\<close> unless said otherwise:
  \<^item> \<open>Ipmi_Interface\<close>, \<open>Vendor\<close>: \<open>interface.go\<close>, \<open>vendor.go\<close>, the requests and their tables.
  \<^item> \<open>Formats\<close>: \<open>formats.go\<close>. The parsers implement the wire layouts of the commands (\<open>layout\<close>, from
    the comments and the tests where they give one); the lengths at which they panic; what they make of an invalid response.
  \<^item> \<open>Ipmitool\<close>, \<open>Inband_Ipmitool\<close>: \<open>ipmitool.go\<close>, \<open>inbandipmitool.go\<close>. Reading back what \<open>ipmitool\<close>
    prints.
  \<^item> \<open>Goroutines\<close>, \<open>Oob\<close>: \<open>oob.go\<close>. Every interleaving of the goroutines is a run of the step relation
    \<open>pool_step\<close>, with an invariant by rule induction. A batch gives each request its own answer under
    every schedule and cannot get stuck; the capability probe of \<open>dcmi\<close> leaves the mutex locked.
  \<^item> \<open>Linux_Inband\<close>, \<open>Inband\<close>: \<open>linux_inband.c\<close>, \<open>inband.go\<close>. A batch of at most three commands is
    answered at the right indices whatever the order of the answers; a wider one always fails.
  \<^item> \<open>Sdr\<close>, \<open>Sdr_Scan\<close>, \<open>Sdr_Health\<close>: \<open>sdr.go\<close>. The commands; the scan lists the sensors of a well-formed
    repository and does not end on a cyclic one; how a reading becomes a verdict.
  \<^item> \<open>Fru_String\<close>, \<open>Fru\<close>, \<open>Fru_Area\<close>: \<open>fru.go\<close>. The fields of the product area; what is read from a
    memory that is accessed by bytes, and what a second call reads.
  \<^item> \<open>Backends\<close>: the two parsers over the three backends.
  \<^item> \<open>Collector\<close>: \<open>src/intelDCMPlugin/plugin.go\<close>. Its properties: \<open>Collector_State\<close> (names and
    configurations without a mode), \<open>Collector_Layers\<close> (when \<open>construct\<close> returns), \<open>Collector_Tables\<close>
    (no metric path of a table shadows another or is taken for one of the inventory or the health),
    \<open>Collector_Capabilities\<close> (every backend's capabilities are a selection of a table; the
    collector's invariant), \<open>Collector_Metrics\<close> (what \<open>CollectMetrics\<close> returns), \<open>Collector_Device\<close>
    (the kernel driver with \<open>dcmi\<close> from the configuration to the published value),
    \<open>Collector_Ipmitool\<close> (from what \<open>ipmitool\<close> prints to the published value), \<open>Collector_Session\<close>
    (what any sequence of calls keeps), \<open>Collector_Globals\<close> (what it keeps of the package variables),
    \<open>Collector_Values\<close> (on any backend, a call returns what the
    pure function \<open>published\<close> says of the inventory, the responses and the sensors),
    \<open>Collector_Scan\<close> (over a session, a health that is computed leaves a scan stored, and a stored
    scan is kept and never made again), \<open>Collector_Inventory\<close> (from the memory of the device at
    initialization to the inventory metrics of any later collection, on whatever platform the machine
    has become by then), \<open>Collector_Probe\<close> (both \<open>ipmitool\<close> modes with \<open>node_manager\<close> from the
    configuration to the published value).

  \<^bold>\<open>Interfaces.\<close> \<open>parser_format\<close> is what a format promises, for the eleven formats. \<open>ipmi_exec\<close> is what
  \<open>sdr.go\<close> needs of \<open>ExecRaw\<close>: it returns and keeps an invariant. \<open>fru_backend\<close> extends it for
  \<open>fru.go\<close>, which writes a shared request, and \<open>ipmi_layer\<close> extends that for the collector with the
  batch and the capabilities. They are interpreted on the model's backends in \<open>Backends\<close>,
  \<open>Collector_Layers\<close> and \<open>Collector_Device\<close>. \<open>releasing_pool\<close> is a pool whose goroutines release
  the mutex, interpreted in \<open>Oob\<close>. \<open>stable_globals\<close> is a property of the package variables that the
  five writes of the code keep; it extends \<open>lock_free\<close> and \<open>probing\<close>, predicates that the backends
  keep, and these give \<open>keeping\<close>, what \<open>sdr.go\<close> and \<open>fru.go\<close> need of a backend. They are
  interpreted in \<open>Collector_Globals\<close> and \<open>Collector_Inventory\<close>; \<open>Collector_Scan\<close> and the properties
  of the inventory rest on these.

  \<^bold>\<open>Parameters\<close>, for code that is not in the repository. \<open>'w os\<close> is the operating system: the search
  for a program, running it, the name of the machine. \<open>'k kernel\<close> is the driver's \<open>open\<close>, \<open>ioctl\<close>,
  \<open>select\<close> and \<open>close\<close>; \<open>answering_kernel\<close> says that a device answers every command sent with at most
  1024 bytes, in any order, and \<open>kernel_pending\<close> only that nothing is received that was not sent.
  \<open>prints\<close> says what \<open>ipmitool\<close> prints for a command line. \<open>device\<close> says with these that the device
  behind a backend, whichever it is, answers single commands with the bytes of a function; a device
  that changes belongs to another platform, and the properties that speak of later changes
  (\<open>inventory_end_to_end\<close>, \<open>package_state_invariant\<close>) have a second platform for it.
  \<open>scheduler\<close> is the order in which goroutines get the mutex, any permutation (\<open>fair_scheduler\<close>).
  \<open>ns_api\<close> is the framework's namespace, of which \<open>ns_law\<close> says that \<open>Strings\<close> gives back what
  \<open>NewNamespace\<close> was given. Each of these hypotheses is instantiated by a concrete function in the
  witnesses.

  \<^bold>\<open>Loops.\<close> Loops over lists are structural recursions. The three loops that need not end are partial
  functions into \<open>option\<close>: \<open>fru_loop\<close> and, for a nonzero read size, \<open>sdr_bytes_loop\<close>, which are
  proved to return on every backend, and \<open>scan_loop\<close>, which is proved to return the sensors of a well-formed repository and not
  to return on a cyclic one. The driver's loop \<open>batch_loop\<close> ends by a measure. There is no fuel.

  \<^bold>\<open>Not modelled.\<close> \<open>src/main.go\<close> hands the collector to the framework. \<open>init\<close> of \<open>plugin.go\<close> and the
  log calls everywhere write a log file; the one whose arguments can panic is modelled.
  \<open>GetConfigPolicy\<close> returns an empty policy of the framework. \<open>InventoryInfo\<close>, \<open>ComponentHealth\<close> of
  \<open>sdr.go\<close> and \<open>CmdReserverSDR\<close> are used nowhere. Time is a parameter and nothing in the model
  measures it. Go's order of ranging over a map is fixed where it cannot matter: for the literals
  of the parsers (\<open>for_names_permutes\<close>) and for maps with one host (\<open>collector_invariant\<close>). Tests,
  scripts and examples are left out.
\<close>

end
